(* ===== verification/ActPrelude.thy ===== *)
theory ActPrelude
  imports Main "HOL-Library.Word"
begin

text \<open>
  What every component theory shares: the result type of fallible code with the
  combinators the source uses on it, the collections of proof hints, and the two
  interfaces of a state machine (an invariant kept by every step, a rank that
  every step lowers) that the components with state implement.
\<close>

section \<open>Fallible code\<close>

text \<open>
  Rust's \<open>Result<T, E>\<close> is the sum type, with the constructors under the
  source's names. An early return with the question mark is \<open>and_then\<close>.
\<close>

type_synonym ('e, 'a) result = "'e + 'a"

abbreviation Ok :: "'a \<Rightarrow> ('e, 'a) result" where
  "Ok \<equiv> Inr"

abbreviation Err :: "'e \<Rightarrow> ('e, 'a) result" where
  "Err \<equiv> Inl"

named_theorems result_simps \<open>unfoldings of the combinators on results\<close>

definition and_then :: "('e, 'a) result \<Rightarrow> ('a \<Rightarrow> ('e, 'b) result) \<Rightarrow> ('e, 'b) result" where
  "and_then r f = (case r of Err e \<Rightarrow> Err e | Ok x \<Rightarrow> f x)"

definition ok_or :: "'e \<Rightarrow> 'a option \<Rightarrow> ('e, 'a) result" where
  "ok_or e v = (case v of None \<Rightarrow> Err e | Some x \<Rightarrow> Ok x)"

definition map_err :: "('e \<Rightarrow> 'f) \<Rightarrow> ('e, 'a) result \<Rightarrow> ('f, 'a) result" where
  "map_err f r = (case r of Err e \<Rightarrow> Err (f e) | Ok x \<Rightarrow> Ok x)"

definition ensure :: "bool \<Rightarrow> 'e \<Rightarrow> ('e, unit) result" where
  "ensure c e = (if c then Ok () else Err e)"

definition is_ok :: "('e, 'a) result \<Rightarrow> bool" where
  "is_ok r = (case r of Err _ \<Rightarrow> False | Ok _ \<Rightarrow> True)"

lemma and_then_simps [simp]:
  "and_then (Ok x) f = f x"
  "and_then (Err e) f = Err e"
  by (simp_all add: and_then_def)

lemma ok_or_simps [simp]:
  "ok_or e (Some x) = Ok x"
  "ok_or e None = Err e"
  by (simp_all add: ok_or_def)

lemma map_err_simps [simp]:
  "map_err f (Ok x) = Ok x"
  "map_err f (Err e) = Err (f e)"
  by (simp_all add: map_err_def)

lemma is_ok_simps [simp]:
  "is_ok (Ok x)"
  "\<not> is_ok (Err e)"
  by (simp_all add: is_ok_def)

lemma is_ok_iff: "is_ok r \<longleftrightarrow> (\<exists>x. r = Ok x)"
  by (cases r) simp_all

lemma and_then_Ok_iff [result_simps]:
  "and_then r f = Ok y \<longleftrightarrow> (\<exists>x. r = Ok x \<and> f x = Ok y)"
  by (cases r) simp_all

lemma and_then_Err_iff [result_simps]:
  "and_then r f = Err e \<longleftrightarrow> r = Err e \<or> (\<exists>x. r = Ok x \<and> f x = Err e)"
  by (cases r) simp_all

lemma ok_or_Ok_iff [result_simps]: "ok_or e v = Ok x \<longleftrightarrow> v = Some x"
  by (cases v) simp_all

lemma ok_or_Err_iff [result_simps]: "ok_or e v = Err d \<longleftrightarrow> v = None \<and> d = e"
  by (cases v) auto

lemma map_err_Ok_iff [result_simps]: "map_err f r = Ok x \<longleftrightarrow> r = Ok x"
  by (cases r) simp_all

lemma map_err_Err_iff [result_simps]: "map_err f r = Err d \<longleftrightarrow> (\<exists>e. r = Err e \<and> d = f e)"
  by (cases r) auto

lemma ensure_Ok_iff [result_simps]: "ensure c e = Ok u \<longleftrightarrow> c"
  by (simp add: ensure_def)

lemma ensure_Err_iff [result_simps]: "ensure c e = Err d \<longleftrightarrow> \<not> c \<and> d = e"
  by (auto simp: ensure_def)

lemma ensure_True [simp]: "ensure True e = Ok ()"
  by (simp add: ensure_def)

lemma ensure_False [simp]: "ensure False e = Err e"
  by (simp add: ensure_def)

lemma is_ok_and_then [result_simps]:
  "is_ok (and_then r f) \<longleftrightarrow> (\<exists>x. r = Ok x \<and> is_ok (f x))"
  by (cases r) simp_all

lemma is_ok_ensure [simp]: "is_ok (ensure c e) \<longleftrightarrow> c"
  by (simp add: ensure_def)

section \<open>Machine integers\<close>

type_synonym u8 = "8 word"
type_synonym u16 = "16 word"
type_synonym u32 = "32 word"
type_synonym u64 = "64 word"

text \<open>\<open>saturating_sub\<close> and \<open>saturating_add\<close> of the standard library, and the
  conversion \<open>u64::try_from(n).unwrap_or(u64::MAX)\<close> the program uses on durations.\<close>

definition saturating_sub :: "'a::len word \<Rightarrow> 'a word \<Rightarrow> 'a word" where
  "saturating_sub a b = (if b \<le> a then a - b else 0)"

definition saturating_add :: "'a::len word \<Rightarrow> 'a word \<Rightarrow> 'a word" where
  "saturating_add a b = (if unat a + unat b < 2 ^ LENGTH('a) then a + b else - 1)"

definition u64_saturating :: "nat \<Rightarrow> u64" where
  "u64_saturating n = (if n < 2 ^ 64 then word_of_nat n else - 1)"

lemma unat_saturating_sub: "unat (saturating_sub a b) = unat a - unat b"
  by (auto simp: saturating_sub_def unat_sub word_le_nat_alt)

lemma unat_saturating_add:
  "unat (saturating_add a (b :: 'a::len word)) = min (unat a + unat b) (2 ^ LENGTH('a) - 1)"
proof (cases "unat a + unat b < 2 ^ LENGTH('a)")
  case True
  then show ?thesis by (simp add: saturating_add_def unat_word_ariths)
next
  case False
  then show ?thesis by (simp add: saturating_add_def unsigned_minus_1_eq_mask mask_eq_exp_minus_1)
qed

lemma unat_u64_saturating: "unat (u64_saturating n) = min n (2 ^ 64 - 1)"
proof (cases "n < 2 ^ 64")
  case True
  then show ?thesis by (simp add: u64_saturating_def unat_of_nat take_bit_eq_mod)
next
  case False
  then show ?thesis by (simp add: u64_saturating_def unsigned_minus_1_eq_mask mask_eq_exp_minus_1)
qed

lemma unat_u8: "n < 256 \<Longrightarrow> unat (word_of_nat n :: u8) = n"
  by (simp add: unat_of_nat take_bit_eq_mod)

section \<open>Small facts on lists and maps\<close>

lemma dropWhile_hd: "dropWhile P xs = y # ys \<Longrightarrow> \<not> P y"
  by (induction xs) (auto split: if_splits)

lemma dropWhile_id_iff: "dropWhile P xs = xs \<longleftrightarrow> xs = [] \<or> \<not> P (hd xs)"
proof (cases xs)
  case (Cons y ys)
  have "length (dropWhile P ys) \<le> length ys" by (rule length_dropWhile_le)
  then have "dropWhile P ys \<noteq> y # ys" by auto
  with Cons show ?thesis by simp
qed simp

lemma length_filter_update:
  "i < length xs \<Longrightarrow>
   length (filter P (xs[i := x])) + (if P (xs ! i) then 1 else 0) =
   length (filter P xs) + (if P x then 1 else 0)"
proof (induction xs arbitrary: i)
  case (Cons y ys)
  show ?case
  proof (cases i)
    case (Suc j)
    with Cons.prems Cons.IH [of j] show ?thesis by simp
  qed simp
qed simp

lemma set_update_cases: "y \<in> set (xs[i := x]) \<Longrightarrow> y = x \<or> y \<in> set xs"
  using set_update_subset_insert [of xs i x] by blast

section \<open>State machines\<close>

text \<open>
  A labelled step relation and its reachable states. A component that keeps state
  names its start states and its steps and implements \<open>invariant_system\<close>; one whose
  runs are bounded implements \<open>ranked_system\<close> as well.
\<close>

inductive reachable :: "('s \<Rightarrow> bool) \<Rightarrow> ('s \<Rightarrow> 'l \<Rightarrow> 's \<Rightarrow> bool) \<Rightarrow> 's \<Rightarrow> bool"
  for init :: "'s \<Rightarrow> bool" and step :: "'s \<Rightarrow> 'l \<Rightarrow> 's \<Rightarrow> bool" where
  reachable_init: "init s \<Longrightarrow> reachable init step s"
| reachable_step: "reachable init step s \<Longrightarrow> step s l t \<Longrightarrow> reachable init step t"

inductive steps :: "('s \<Rightarrow> 'l \<Rightarrow> 's \<Rightarrow> bool) \<Rightarrow> 's \<Rightarrow> 'l list \<Rightarrow> 's \<Rightarrow> bool"
  for step :: "'s \<Rightarrow> 'l \<Rightarrow> 's \<Rightarrow> bool" where
  steps_refl: "steps step s [] s"
| steps_snoc: "steps step s ls t \<Longrightarrow> step t l u \<Longrightarrow> steps step s (ls @ [l]) u"

lemma steps_reachable:
  "steps step s ls t \<Longrightarrow> reachable init step s \<Longrightarrow> reachable init step t"
  by (induction rule: steps.induct) (auto intro: reachable_step)

locale invariant_system =
  fixes init :: "'s \<Rightarrow> bool"
    and step :: "'s \<Rightarrow> 'l \<Rightarrow> 's \<Rightarrow> bool"
    and inv :: "'s \<Rightarrow> bool"
  assumes init_inv: "init s \<Longrightarrow> inv s"
    and step_inv: "inv s \<Longrightarrow> step s l t \<Longrightarrow> inv t"
begin

lemma reachable_inv: "reachable init step s \<Longrightarrow> inv s"
  by (induction rule: reachable.induct) (auto intro: init_inv step_inv)

lemma steps_inv: "steps step s ls t \<Longrightarrow> inv s \<Longrightarrow> inv t"
  by (induction rule: steps.induct) (auto intro: step_inv)

end

locale ranked_system = invariant_system init step inv
  for init :: "'s \<Rightarrow> bool" and step :: "'s \<Rightarrow> 'l \<Rightarrow> 's \<Rightarrow> bool" and inv :: "'s \<Rightarrow> bool" +
  fixes rank :: "'s \<Rightarrow> nat"
  assumes step_rank: "inv s \<Longrightarrow> step s l t \<Longrightarrow> rank t < rank s"
begin

lemma steps_bounded: "steps step s ls t \<Longrightarrow> inv s \<Longrightarrow> length ls + rank t \<le> rank s"
proof (induction rule: steps.induct)
  case (steps_snoc s ls t l u)
  have "inv t" using steps_snoc.hyps(1) steps_snoc.prems by (rule steps_inv)
  with steps_snoc show ?case using step_rank [of t l u] by simp
qed simp

end

text \<open>
  A system whose states carry those of another: every step is, on them, some steps of the
  other or a new start. What is reached here is then reached there.
\<close>

locale carrying_system =
  fixes init :: "'s \<Rightarrow> bool" and step :: "'s \<Rightarrow> 'l \<Rightarrow> 's \<Rightarrow> bool"
    and part_init :: "'p \<Rightarrow> bool" and part_step :: "'p \<Rightarrow> 'm \<Rightarrow> 'p \<Rightarrow> bool"
    and part :: "'s \<Rightarrow> 'p"
  assumes part_starts: "init s \<Longrightarrow> part_init (part s)"
    and part_moves: "step s l t \<Longrightarrow>
      part_init (part t) \<or> (\<exists>ls. steps part_step (part s) ls (part t))"
begin

lemma reachable_part: "reachable init step s \<Longrightarrow> reachable part_init part_step (part s)"
proof (induction rule: reachable.induct)
  case (reachable_step s l t)
  with part_moves [of s l t] show ?case
    by (auto intro: reachable.reachable_init steps_reachable)
qed (simp add: part_starts reachable.reachable_init)

end

lemma steps_none: "\<exists>ls. steps step s ls s"
  by (blast intro: steps_refl)

lemma steps_one: "step s l t \<Longrightarrow> \<exists>ls. steps step s ls t"
  using steps_snoc [OF steps_refl, of step s l t] by blast

lemma length_filter_pos: "i < length xs \<Longrightarrow> P (xs ! i) \<Longrightarrow> 0 < length (filter P xs)"
  using nth_mem [of i xs] by (auto simp: filter_empty_conv)

end
