(* ===== verification/RustText.thy ===== *)
theory RustText
  imports ActPrelude "HOL-Library.List_Lexorder" "HOL-Library.Sublist"
begin

text \<open>
  The part of the standard library's text types the program uses. A Rust string is a
  list of Unicode scalar values, so \<open>chars()\<close> is the list itself; \<open>len()\<close> counts the
  bytes of its UTF-8 encoding, \<open>as_bytes()\<close> is that encoding and \<open>str::from_utf8\<close>
  is its strict decoder. \<open>lit\<close> reads an ASCII string literal of the source.
\<close>

section \<open>Strings\<close>

type_synonym ustr = "nat list"

definition lit :: "string \<Rightarrow> ustr" where
  "lit s = map of_char s"

lemma lit_eq_iff [simp]: "lit s = lit t \<longleftrightarrow> s = t"
  unfolding lit_def using inj_map_eq_map [OF inj_of_char] by auto

lemma lit_Nil [simp]: "lit [] = []"
  by (simp add: lit_def)

lemma lit_eq_Nil_iff [simp]: "lit s = [] \<longleftrightarrow> s = []" "[] = lit s \<longleftrightarrow> s = []"
  by (auto simp: lit_def)

lemma lit_append: "lit (s @ t) = lit s @ lit t"
  by (simp add: lit_def)

lemma length_lit [simp]: "length (lit s) = length s"
  by (simp add: lit_def)

text \<open>The scalar values: every code point outside the surrogate range.\<close>

definition scalar :: "nat \<Rightarrow> bool" where
  "scalar c \<longleftrightarrow> c < 0x110000 \<and> \<not> (0xD800 \<le> c \<and> c \<le> 0xDFFF)"

definition str_ok :: "ustr \<Rightarrow> bool" where
  "str_ok s \<longleftrightarrow> list_all scalar s"

subsection \<open>UTF-8\<close>

definition utf8_char :: "nat \<Rightarrow> nat list" where
  "utf8_char c =
     (if c < 0x80 then [c]
      else if c < 0x800 then [0xC0 + c div 64, 0x80 + c mod 64]
      else if c < 0x10000
      then [0xE0 + c div 64 div 64, 0x80 + c div 64 mod 64, 0x80 + c mod 64]
      else [0xF0 + c div 64 div 64 div 64, 0x80 + c div 64 div 64 mod 64,
            0x80 + c div 64 mod 64, 0x80 + c mod 64])"

definition utf8_bytes :: "ustr \<Rightarrow> nat list" where
  "utf8_bytes s = concat (map utf8_char s)"

definition str_bytes :: "ustr \<Rightarrow> u8 list" where
  "str_bytes s = map word_of_nat (utf8_bytes s)"

definition str_len :: "ustr \<Rightarrow> nat" where
  "str_len s = length (str_bytes s)"

definition utf8_cont :: "nat \<Rightarrow> bool" where
  "utf8_cont b \<longleftrightarrow> 0x80 \<le> b \<and> b \<le> 0xBF"

fun utf8_decode :: "nat list \<Rightarrow> ustr option" where
  "utf8_decode [] = Some []"
| "utf8_decode (a # r) =
     (if a < 0x80 then map_option ((#) a) (utf8_decode r)
      else if 0xC2 \<le> a \<and> a \<le> 0xDF then
        (case r of
           b # r1 \<Rightarrow>
             if utf8_cont b
             then map_option ((#) ((a - 0xC0) * 64 + (b - 0x80))) (utf8_decode r1)
             else None
         | [] \<Rightarrow> None)
      else if 0xE0 \<le> a \<and> a \<le> 0xEF then
        (case r of
           b # c # r2 \<Rightarrow>
             if utf8_cont b \<and> utf8_cont c \<and> (a = 0xE0 \<longrightarrow> 0xA0 \<le> b)
                \<and> (a = 0xED \<longrightarrow> b \<le> 0x9F)
             then map_option ((#) (((a - 0xE0) * 64 + (b - 0x80)) * 64 + (c - 0x80)))
                    (utf8_decode r2)
             else None
         | _ \<Rightarrow> None)
      else if 0xF0 \<le> a \<and> a \<le> 0xF4 then
        (case r of
           b # c # d # r3 \<Rightarrow>
             if utf8_cont b \<and> utf8_cont c \<and> utf8_cont d \<and> (a = 0xF0 \<longrightarrow> 0x90 \<le> b)
                \<and> (a = 0xF4 \<longrightarrow> b \<le> 0x8F)
             then map_option
                    ((#) ((((a - 0xF0) * 64 + (b - 0x80)) * 64 + (c - 0x80)) * 64 + (d - 0x80)))
                    (utf8_decode r3)
             else None
         | _ \<Rightarrow> None)
      else None)"

declare utf8_decode.simps(2) [simp del]

definition from_utf8 :: "u8 list \<Rightarrow> ustr option" where
  "from_utf8 bs = utf8_decode (map unat bs)"

text \<open>
  The multi-byte forms, written in the six-bit digits the encoding splits a code
  point into.
\<close>

lemma digits64: "m \<le> 63 \<Longrightarrow> (q * 64 + m) div 64 = q" "m \<le> 63 \<Longrightarrow> (q * 64 + m) mod 64 = m"
  for q m :: nat
  by simp_all

lemma utf8_char2:
  assumes "2 \<le> q" "q \<le> 31" "m \<le> 63"
  shows "utf8_char (q * 64 + m) = [0xC0 + q, 0x80 + m]"
    and "utf8_decode ((0xC0 + q) # (0x80 + m) # r) = map_option ((#) (q * 64 + m)) (utf8_decode r)"
proof -
  from assms have "\<not> q * 64 + m < 0x80" "q * 64 + m < 0x800" by linarith+
  then show "utf8_char (q * 64 + m) = [0xC0 + q, 0x80 + m]"
    by (simp only: utf8_char_def digits64 [OF assms(3)] if_True if_False)
  show "utf8_decode ((0xC0 + q) # (0x80 + m) # r) = map_option ((#) (q * 64 + m)) (utf8_decode r)"
    using assms by (simp add: utf8_decode.simps(2) utf8_cont_def)
qed

lemma utf8_char3:
  assumes "q \<le> 15" "y \<le> 63" "z \<le> 63" "q = 0 \<Longrightarrow> 32 \<le> y"
  shows "utf8_char ((q * 64 + y) * 64 + z) = [0xE0 + q, 0x80 + y, 0x80 + z]"
    and "scalar ((q * 64 + y) * 64 + z) \<longleftrightarrow> \<not> (q = 13 \<and> 32 \<le> y)"
    and "(q = 13 \<Longrightarrow> y \<le> 31) \<Longrightarrow> utf8_decode ((0xE0 + q) # (0x80 + y) # (0x80 + z) # r) =
           map_option ((#) ((q * 64 + y) * 64 + z)) (utf8_decode r)"
proof -
  let ?n = "(q * 64 + y) * 64 + z"
  have "0x800 \<le> ?n" using assms by (cases "q = 0") auto
  moreover have "?n < 0x10000" using assms(1-3) by auto
  ultimately have "\<not> ?n < 0x80" "\<not> ?n < 0x800" "?n < 0x10000" by linarith+
  then show "utf8_char ?n = [0xE0 + q, 0x80 + y, 0x80 + z]"
    by (simp only: utf8_char_def digits64 assms if_True if_False)
  show "scalar ?n \<longleftrightarrow> \<not> (q = 13 \<and> 32 \<le> y)"
  proof (cases q "13::nat" rule: linorder_cases)
    case less
    then have "?n < 0xD800" using assms(2,3) by auto
    with less show ?thesis by (simp add: scalar_def)
  next
    case equal
    then show ?thesis using assms by (auto simp: scalar_def)
  next
    case greater
    then have "0xDFFF < ?n" "?n < 0x110000" using assms(1-3) by auto
    with greater show ?thesis by (simp add: scalar_def)
  qed
  show "utf8_decode ((0xE0 + q) # (0x80 + y) # (0x80 + z) # r) = map_option ((#) ?n) (utf8_decode r)"
    if "q = 13 \<Longrightarrow> y \<le> 31"
    using assms that by (simp add: utf8_decode.simps(2) utf8_cont_def)
qed

lemma utf8_char4:
  assumes "q \<le> 4" "x \<le> 63" "y \<le> 63" "z \<le> 63" "q = 0 \<Longrightarrow> 16 \<le> x" "q = 4 \<Longrightarrow> x \<le> 15"
  shows "utf8_char (((q * 64 + x) * 64 + y) * 64 + z) = [0xF0 + q, 0x80 + x, 0x80 + y, 0x80 + z]"
    and "scalar (((q * 64 + x) * 64 + y) * 64 + z)"
    and "utf8_decode ((0xF0 + q) # (0x80 + x) # (0x80 + y) # (0x80 + z) # r) =
           map_option ((#) (((q * 64 + x) * 64 + y) * 64 + z)) (utf8_decode r)"
proof -
  let ?n = "((q * 64 + x) * 64 + y) * 64 + z"
  have lo: "0x10000 \<le> ?n" using assms by (cases "q = 0") auto
  have hi: "?n < 0x110000" using assms by (cases "q = 4") auto
  from lo have "\<not> ?n < 0x80" "\<not> ?n < 0x800" "\<not> ?n < 0x10000" by linarith+
  then show "utf8_char ?n = [0xF0 + q, 0x80 + x, 0x80 + y, 0x80 + z]"
    by (simp only: utf8_char_def digits64 assms if_True if_False)
  show "scalar ?n" using lo hi by (simp add: scalar_def)
  show "utf8_decode ((0xF0 + q) # (0x80 + x) # (0x80 + y) # (0x80 + z) # r) =
      map_option ((#) ?n) (utf8_decode r)"
    using assms by (simp add: utf8_decode.simps(2) utf8_cont_def)
qed

lemma utf8_forms:
  assumes "scalar c"
  obtains "c < 0x80"
  | q m where "c = q * 64 + m" "2 \<le> q" "q \<le> 31" "m \<le> 63"
  | q y z where "c = (q * 64 + y) * 64 + z" "q \<le> 15" "y \<le> 63" "z \<le> 63" "q = 0 \<Longrightarrow> 32 \<le> y"
      "q = 13 \<Longrightarrow> y \<le> 31"
  | q x y z where "c = ((q * 64 + x) * 64 + y) * 64 + z" "q \<le> 4" "x \<le> 63" "y \<le> 63" "z \<le> 63"
      "q = 0 \<Longrightarrow> 16 \<le> x" "q = 4 \<Longrightarrow> x \<le> 15"
proof -
  define m where "m = c mod 64"
  define h where "h = c div 64"
  define y where "y = h mod 64"
  define g where "g = h div 64"
  define x where "x = g mod 64"
  define q where "q = g div 64"
  have c: "c = h * 64 + m" and h: "h = g * 64 + y" and g: "g = q * 64 + x"
    by (simp_all only: m_def h_def y_def g_def x_def q_def div_mult_mod_eq)
  have le: "m \<le> 63" "y \<le> 63" "x \<le> 63" by (simp_all add: m_def y_def x_def)
  have sc: "c < 0x110000" "\<not> (0xD800 \<le> c \<and> c \<le> 0xDFFF)" using assms by (simp_all add: scalar_def)
  consider "c < 0x80" | "0x80 \<le> c" "c < 0x800" | "0x800 \<le> c" "c < 0x10000" | "0x10000 \<le> c"
    by linarith
  then show thesis
  proof cases
    case 1
    then show ?thesis by (rule that(1))
  next
    case 2
    show ?thesis by (rule that(2) [OF c]) (use 2 c le in linarith)+
  next
    case 3
    have "c = (g * 64 + y) * 64 + m" using c h by simp
    moreover have "g \<le> 15" "g = 0 \<Longrightarrow> 32 \<le> y" using 3 c h le by linarith+
    moreover have "g = 13 \<Longrightarrow> y \<le> 31" using sc(2) c h le by linarith
    ultimately show ?thesis using that(3) le by blast
  next
    case 4
    have "c = ((q * 64 + x) * 64 + y) * 64 + m" using c h g by simp
    moreover have "q \<le> 4" "q = 0 \<Longrightarrow> 16 \<le> x" "q = 4 \<Longrightarrow> x \<le> 15"
      using 4 sc(1) c h g le by linarith+
    ultimately show ?thesis using that(4) le by blast
  qed
qed

lemma utf8_decode_char:
  assumes "scalar c"
  shows "utf8_decode (utf8_char c @ r) = map_option ((#) c) (utf8_decode r)"
  using assms
proof (cases rule: utf8_forms)
  case 1
  then show ?thesis by (simp add: utf8_char_def utf8_decode.simps(2))
next
  case (2 q m)
  then show ?thesis by (simp only: utf8_char2 append.simps)
next
  case (3 q y z)
  then show ?thesis by (simp only: utf8_char3 append.simps)
next
  case (4 q x y z)
  then show ?thesis by (simp only: utf8_char4 append.simps)
qed

lemma utf8_decode_bytes: "str_ok s \<Longrightarrow> utf8_decode (utf8_bytes s) = Some s"
  by (induction s) (simp_all add: utf8_bytes_def str_ok_def utf8_decode_char)

lemma utf8_char_bytes: "c < 0x110000 \<Longrightarrow> b \<in> set (utf8_char c) \<Longrightarrow> b < 256"
  by (auto simp: utf8_char_def split: if_splits)

lemma unat_str_bytes: "str_ok s \<Longrightarrow> map unat (str_bytes s) = utf8_bytes s"
proof -
  assume "str_ok s"
  then have "\<forall>b \<in> set (utf8_bytes s). b < 256"
    by (auto simp: utf8_bytes_def str_ok_def list_all_iff scalar_def dest: utf8_char_bytes)
  then show ?thesis
    by (simp add: str_bytes_def map_idI unat_of_nat take_bit_eq_mod)
qed

lemma from_utf8_str_bytes: "str_ok s \<Longrightarrow> from_utf8 (str_bytes s) = Some s"
  by (simp add: from_utf8_def unat_str_bytes utf8_decode_bytes)

lemma str_bytes_inj: "str_ok s \<Longrightarrow> str_ok t \<Longrightarrow> str_bytes s = str_bytes t \<Longrightarrow> s = t"
  by (metis from_utf8_str_bytes option.inject)

lemma utf8_decode_sound:
  "utf8_decode bs = Some s \<Longrightarrow> utf8_bytes s = bs \<and> str_ok s"
proof (induction bs arbitrary: s rule: utf8_decode.induct)
  case 1
  then show ?case by (simp add: utf8_bytes_def str_ok_def)
next
  case (2 a r)
  have step: "utf8_bytes (c # t) = utf8_char c @ utf8_bytes t"
    "str_ok (c # t) \<longleftrightarrow> scalar c \<and> str_ok t" for c t
    by (simp_all add: utf8_bytes_def str_ok_def)
  have cont: "\<exists>m. b = 0x80 + m \<and> m \<le> 63" if "utf8_cont b" for b
    using that by (intro exI [of _ "b - 0x80"]) (auto simp: utf8_cont_def)
  have lead: "\<exists>q. a = k + q" if "k \<le> a" for k
    using that by (intro exI [of _ "a - k"]) simp
  consider "a < 0x80" | "0xC2 \<le> a" "a \<le> 0xDF" | "0xE0 \<le> a" "a \<le> 0xEF"
    | "0xF0 \<le> a" "a \<le> 0xF4"
    using 2(5) by (fastforce simp: utf8_decode.simps(2) split: if_splits)
  then show ?case
  proof cases
    case a: 1
    with 2(5) obtain t where t: "utf8_decode r = Some t" "s = a # t"
      by (auto simp: utf8_decode.simps(2))
    from 2(1) [OF a t(1)] a t show ?thesis by (simp add: step utf8_char_def scalar_def)
  next
    case a: 2
    with 2(5) obtain b r1 t where r: "r = b # r1" "utf8_cont b" and t: "utf8_decode r1 = Some t"
      "s = ((a - 0xC0) * 64 + (b - 0x80)) # t"
      by (auto simp: utf8_decode.simps(2) split: list.splits if_splits)
    obtain q m where q: "a = 0xC0 + q" and m: "b = 0x80 + m" "m \<le> 63"
      using lead [of "0xC0"] cont [OF r(2)] a by auto
    from q a have ql: "2 \<le> q" "q \<le> 31" by simp_all
    from ql m(2) have "scalar (q * 64 + m)" by (simp add: scalar_def)
    moreover have "s = (q * 64 + m) # t" using t q m by simp
    ultimately show ?thesis
      using 2(2) a r t(1) utf8_char2(1) [OF ql m(2)] q m by (force simp: step)
  next
    case a: 3
    with 2(5) obtain b c r2 t where r: "r = b # c # r2" "utf8_cont b" "utf8_cont c"
      "a = 0xE0 \<longrightarrow> 0xA0 \<le> b" "a = 0xED \<longrightarrow> b \<le> 0x9F"
      and t: "utf8_decode r2 = Some t"
        "s = (((a - 0xE0) * 64 + (b - 0x80)) * 64 + (c - 0x80)) # t"
      by (auto simp: utf8_decode.simps(2) split: list.splits if_splits)
    obtain q y z where q: "a = 0xE0 + q" and y: "b = 0x80 + y" "y \<le> 63" and z: "c = 0x80 + z" "z \<le> 63"
      using lead [of "0xE0"] cont [OF r(2)] cont [OF r(3)] a by auto
    have ql: "q \<le> 15" "q = 0 \<Longrightarrow> 32 \<le> y" "q = 13 \<Longrightarrow> y \<le> 31" using q a r(4,5) y by auto
    note u = utf8_char3 [OF ql(1) y(2) z(2) ql(2)]
    have "s = ((q * 64 + y) * 64 + z) # t" using t q y z by simp
    moreover have "scalar ((q * 64 + y) * 64 + z)" using u(2) ql(3) by fastforce
    moreover have "utf8_bytes t = r2 \<and> str_ok t" using 2(3) a r t(1) by force
    ultimately show ?thesis using u(1) q y z r(1) by (simp only: step) simp
  next
    case a: 4
    with 2(5) obtain b c d r3 t where r: "r = b # c # d # r3" "utf8_cont b" "utf8_cont c"
      "utf8_cont d" "a = 0xF0 \<longrightarrow> 0x90 \<le> b" "a = 0xF4 \<longrightarrow> b \<le> 0x8F"
      and t: "utf8_decode r3 = Some t"
        "s = ((((a - 0xF0) * 64 + (b - 0x80)) * 64 + (c - 0x80)) * 64 + (d - 0x80)) # t"
      by (auto simp: utf8_decode.simps(2) split: list.splits if_splits)
    obtain q x y z where q: "a = 0xF0 + q" and x: "b = 0x80 + x" "x \<le> 63"
      and y: "c = 0x80 + y" "y \<le> 63" and z: "d = 0x80 + z" "z \<le> 63"
      using lead [of "0xF0"] cont [OF r(2)] cont [OF r(3)] cont [OF r(4)] a by auto
    have ql: "q \<le> 4" "q = 0 \<Longrightarrow> 16 \<le> x" "q = 4 \<Longrightarrow> x \<le> 15" using q a r(5,6) x by auto
    note u = utf8_char4 [OF ql(1) x(2) y(2) z(2) ql(2,3)]
    have "s = (((q * 64 + x) * 64 + y) * 64 + z) # t" using t q x y z by simp
    moreover have "utf8_bytes t = r3 \<and> str_ok t"
      using 2(4) a r t(1) by force
    ultimately show ?thesis using u(1,2) q x y z r(1) by (simp only: step) simp
  qed
qed

lemma from_utf8_Some_iff: "from_utf8 bs = Some s \<longleftrightarrow> str_ok s \<and> str_bytes s = bs"
proof
  assume "from_utf8 bs = Some s"
  then have "utf8_bytes s = map unat bs \<and> str_ok s"
    by (intro utf8_decode_sound) (simp add: from_utf8_def)
  then show "str_ok s \<and> str_bytes s = bs" by (simp add: str_bytes_def o_def)
qed (auto simp: from_utf8_str_bytes)

subsection \<open>Byte lengths\<close>

lemma str_bytes_append: "str_bytes (s @ t) = str_bytes s @ str_bytes t"
  by (simp add: str_bytes_def utf8_bytes_def)

lemma str_bytes_Nil [simp]: "str_bytes [] = []"
  by (simp add: str_bytes_def utf8_bytes_def)

lemma str_len_append: "str_len (s @ t) = str_len s + str_len t"
  by (simp add: str_len_def str_bytes_append)

lemma str_len_Nil [simp]: "str_len [] = 0"
  by (simp add: str_len_def)

lemma str_len_Cons: "str_len (c # s) = length (utf8_char c) + str_len s"
  by (simp add: str_len_def str_bytes_def utf8_bytes_def)

lemma length_le_str_len: "length s \<le> str_len s"
  by (induction s) (auto simp: str_len_Cons utf8_char_def)

lemma str_len_eq_0_iff [simp]: "str_len s = 0 \<longleftrightarrow> s = []"
  using length_le_str_len [of s] by (cases s) auto

definition ascii :: "ustr \<Rightarrow> bool" where
  "ascii s \<longleftrightarrow> list_all (\<lambda>c. c < 128) s"

lemma ascii_str_bytes: "ascii s \<Longrightarrow> str_bytes s = map word_of_nat s"
  by (induction s) (simp_all add: ascii_def str_bytes_def utf8_bytes_def utf8_char_def)

lemma ascii_utf8_bytes: "ascii s \<Longrightarrow> utf8_bytes s = s"
  by (induction s) (simp_all add: ascii_def utf8_bytes_def utf8_char_def)

lemma ascii_str_len: "ascii s \<Longrightarrow> str_len s = length s"
  by (simp add: str_len_def ascii_str_bytes)

lemma low_bytes_ascii: "list_all (\<lambda>b. unat b < 128) (str_bytes s) \<Longrightarrow> ascii s"
proof (induction s)
  case (Cons c s)
  then have c: "list_all (\<lambda>b. unat (b :: u8) < 128) (map word_of_nat (utf8_char c))" and s: "ascii s"
    by (simp_all add: str_bytes_def utf8_bytes_def)
  have "unat (word_of_nat (0x80 + c mod 64) :: u8) = 0x80 + c mod 64" by (rule unat_u8) simp
  with c have "c < 128" by (auto simp: utf8_char_def split: if_splits)
  with s show ?case by (simp add: ascii_def)
qed (simp add: ascii_def)

lemma ascii_str_ok: "ascii s \<Longrightarrow> str_ok s"
  by (auto simp: ascii_def str_ok_def scalar_def list_all_iff)

section \<open>Character classes and ASCII case\<close>

definition is_control :: "nat \<Rightarrow> bool" where
  "is_control c \<longleftrightarrow> c < 32 \<or> (127 \<le> c \<and> c < 160)"

definition is_whitespace :: "nat \<Rightarrow> bool" where
  "is_whitespace c \<longleftrightarrow>
     (9 \<le> c \<and> c \<le> 13) \<or> c = 32 \<or> c = 133 \<or> c = 160 \<or> c = 5760 \<or>
     (8192 \<le> c \<and> c \<le> 8202) \<or> c = 8232 \<or> c = 8233 \<or> c = 8239 \<or> c = 8287 \<or> c = 12288"

definition to_ascii_lowercase :: "ustr \<Rightarrow> ustr" where
  "to_ascii_lowercase = map (\<lambda>c. if 65 \<le> c \<and> c \<le> 90 then c + 32 else c)"

definition to_ascii_uppercase :: "ustr \<Rightarrow> ustr" where
  "to_ascii_uppercase = map (\<lambda>c. if 97 \<le> c \<and> c \<le> 122 then c - 32 else c)"

definition eq_ignore_ascii_case :: "ustr \<Rightarrow> ustr \<Rightarrow> bool" where
  "eq_ignore_ascii_case s t \<longleftrightarrow> to_ascii_lowercase s = to_ascii_lowercase t"

definition is_ascii_graphic :: "u8 \<Rightarrow> bool" where
  "is_ascii_graphic b \<longleftrightarrow> 33 \<le> b \<and> b \<le> 126"

definition is_ascii_hexdigit :: "u8 \<Rightarrow> bool" where
  "is_ascii_hexdigit b \<longleftrightarrow>
     (48 \<le> b \<and> b \<le> 57) \<or> (97 \<le> b \<and> b \<le> 102) \<or> (65 \<le> b \<and> b \<le> 70)"

section \<open>Trimming and affixes\<close>

definition trim_start :: "ustr \<Rightarrow> ustr" where
  "trim_start = dropWhile is_whitespace"

definition trim_end :: "ustr \<Rightarrow> ustr" where
  "trim_end s = rev (dropWhile is_whitespace (rev s))"

definition trim :: "ustr \<Rightarrow> ustr" where
  "trim s = trim_end (trim_start s)"

definition trim_end_matches :: "nat \<Rightarrow> ustr \<Rightarrow> ustr" where
  "trim_end_matches c s = rev (dropWhile (\<lambda>d. d = c) (rev s))"

definition starts_with :: "ustr \<Rightarrow> ustr \<Rightarrow> bool" where
  "starts_with s p \<longleftrightarrow> prefix p s"

definition ends_with :: "ustr \<Rightarrow> ustr \<Rightarrow> bool" where
  "ends_with s p \<longleftrightarrow> suffix p s"

definition strip_prefix :: "ustr \<Rightarrow> ustr \<Rightarrow> ustr option" where
  "strip_prefix s p = (if prefix p s then Some (drop (length p) s) else None)"

fun str_contains :: "ustr \<Rightarrow> ustr \<Rightarrow> bool" where
  "str_contains s p = (prefix p s \<or> (case s of [] \<Rightarrow> False | _ # r \<Rightarrow> str_contains r p))"

declare str_contains.simps [simp del]

fun split_once :: "ustr \<Rightarrow> nat \<Rightarrow> (ustr \<times> ustr) option" where
  "split_once [] c = None"
| "split_once (d # s) c =
     (if d = c then Some ([], s)
      else map_option (\<lambda>(a, b). (d # a, b)) (split_once s c))"

definition rsplit_once :: "ustr \<Rightarrow> nat \<Rightarrow> (ustr \<times> ustr) option" where
  "rsplit_once s c = map_option (\<lambda>(a, b). (rev b, rev a)) (split_once (rev s) c)"

lemma strip_prefix_Some_iff: "strip_prefix s p = Some t \<longleftrightarrow> s = p @ t"
  by (auto simp: strip_prefix_def prefix_def)

lemma strip_prefix_append [simp]: "strip_prefix (p @ t) p = Some t"
  by (simp add: strip_prefix_Some_iff)

lemma starts_with_append [simp]: "starts_with (p @ t) p"
  by (simp add: starts_with_def)

lemma split_once_Some_iff: "split_once s c = Some (a, b) \<longleftrightarrow> s = a @ c # b \<and> c \<notin> set a"
proof (induction s arbitrary: a)
  case (Cons d s)
  show ?case
    using Cons.IH by (cases "d = c"; cases a) auto
qed simp

lemma split_once_None_iff: "split_once s c = None \<longleftrightarrow> c \<notin> set s"
  by (induction s) auto

lemma rsplit_once_Some_iff: "rsplit_once s c = Some (a, b) \<longleftrightarrow> s = a @ c # b \<and> c \<notin> set b"
proof -
  have "rsplit_once s c = Some (a, b) \<longleftrightarrow> split_once (rev s) c = Some (rev b, rev a)"
    by (auto simp: rsplit_once_def)
  then show ?thesis by (auto simp: split_once_Some_iff rev_eq_append_conv)
qed

lemma trim_start_id_iff: "trim_start s = s \<longleftrightarrow> s = [] \<or> \<not> is_whitespace (hd s)"
  by (simp add: trim_start_def dropWhile_id_iff)

lemma trim_end_id_iff: "trim_end s = s \<longleftrightarrow> s = [] \<or> \<not> is_whitespace (last s)"
proof -
  have "trim_end s = s \<longleftrightarrow> dropWhile is_whitespace (rev s) = rev s"
    by (metis rev_rev_ident trim_end_def)
  then show ?thesis by (auto simp: dropWhile_id_iff hd_rev)
qed

lemma length_trim_end: "length (trim_end s) \<le> length s"
  using length_dropWhile_le [of is_whitespace "rev s"] by (simp add: trim_end_def)

lemma length_trim_start: "length (trim_start s) \<le> length s"
  by (simp add: trim_start_def length_dropWhile_le)

lemma trim_end_prefix: "prefix (trim_end s) s"
  using suffix_dropWhile [of is_whitespace "rev s"]
  by (simp add: trim_end_def suffix_to_prefix)

lemma dropWhile_full: "length xs \<le> length (dropWhile P xs) \<Longrightarrow> dropWhile P xs = xs"
proof (cases xs)
  case (Cons y ys)
  have "length (dropWhile P ys) \<le> length ys" by (rule length_dropWhile_le)
  moreover assume "length xs \<le> length (dropWhile P xs)"
  ultimately show ?thesis using Cons by (cases "P y") auto
qed simp

lemma trim_Nil [simp]: "trim [] = []"
  by (simp add: trim_def trim_end_def trim_start_def)

lemma trim_id_iff:
  "trim s = s \<longleftrightarrow> s = [] \<or> (\<not> is_whitespace (hd s) \<and> \<not> is_whitespace (last s))"
proof -
  have "trim s = s \<longleftrightarrow> trim_start s = s \<and> trim_end s = s"
  proof
    assume t: "trim s = s"
    have "length s \<le> length (trim_start s)"
      using t length_trim_end [of "trim_start s"] by (simp add: trim_def)
    then have "trim_start s = s"
      unfolding trim_start_def by (rule dropWhile_full)
    with t show "trim_start s = s \<and> trim_end s = s" by (simp add: trim_def)
  qed (simp add: trim_def)
  then show ?thesis by (auto simp: trim_start_id_iff trim_end_id_iff)
qed

lemma trim_idem [simp]: "trim (trim s) = trim s"
proof (cases "trim s = []")
  case True
  then show ?thesis by (simp only: trim_Nil)
next
  case ne: False
  let ?u = "trim_start s"
  have p: "prefix (trim s) ?u" by (simp add: trim_def trim_end_prefix)
  with ne have "hd (trim s) = hd ?u" by (auto simp: prefix_def)
  moreover have "?u \<noteq> []" using p ne by auto
  then have "\<not> is_whitespace (hd ?u)" unfolding trim_start_def by (rule hd_dropWhile)
  moreover have d: "dropWhile is_whitespace (rev ?u) \<noteq> []"
    using ne by (simp add: trim_def trim_end_def)
  have "last (trim s) = hd (dropWhile is_whitespace (rev ?u))"
    by (simp add: trim_def trim_end_def last_rev)
  then have "\<not> is_whitespace (last (trim s))" using hd_dropWhile [OF d] by simp
  ultimately show ?thesis by (simp add: trim_id_iff)
qed

lemma graphic_bytes_ascii: "list_all is_ascii_graphic (str_bytes s) \<Longrightarrow> ascii s"
  by (rule low_bytes_ascii) (auto simp: is_ascii_graphic_def word_le_nat_alt list_all_iff)

lemma no_whitespace_trim: "\<not> list_ex is_whitespace s \<Longrightarrow> trim s = s"
  by (cases "s = []") (auto simp: trim_id_iff list_ex_iff)

section \<open>Decimal numbers\<close>

text \<open>\<open>parse::<T>()\<close> of an unsigned type with the given maximum, and the \<open>Display\<close>
  form of an unsigned number.\<close>

definition is_digit_char :: "nat \<Rightarrow> bool" where
  "is_digit_char c \<longleftrightarrow> 48 \<le> c \<and> c \<le> 57"

definition digits_value :: "ustr \<Rightarrow> nat" where
  "digits_value s = foldl (\<lambda>n c. 10 * n + (c - 48)) 0 s"

definition parse_unsigned :: "nat \<Rightarrow> ustr \<Rightarrow> nat option" where
  "parse_unsigned mx s =
     (let d = (case s of [] \<Rightarrow> [] | c # r \<Rightarrow> if c = 43 then r else s)
      in if d \<noteq> [] \<and> list_all is_digit_char d \<and> digits_value d \<le> mx
         then Some (digits_value d) else None)"

fun show_nat :: "nat \<Rightarrow> ustr" where
  "show_nat n = (if n < 10 then [48 + n] else show_nat (n div 10) @ [48 + n mod 10])"

declare show_nat.simps [simp del]

lemma show_nat_digits: "show_nat n \<noteq> [] \<and> list_all is_digit_char (show_nat n)"
proof (induction n rule: show_nat.induct)
  case (1 n)
  then show ?case
    by (cases "n < 10") (auto simp: show_nat.simps [of n] is_digit_char_def)
qed

lemma digits_value_show_nat: "digits_value (show_nat n) = n"
proof (induction n rule: show_nat.induct)
  case (1 n)
  then show ?case
    by (cases "n < 10") (simp_all add: show_nat.simps [of n] digits_value_def)
qed

lemma parse_show_nat: "n \<le> mx \<Longrightarrow> parse_unsigned mx (show_nat n) = Some n"
proof -
  assume n: "n \<le> mx"
  obtain c r where s: "show_nat n = c # r" using show_nat_digits [of n] by (cases "show_nat n") auto
  then have "c \<noteq> 43" using show_nat_digits [of n] by (auto simp: is_digit_char_def)
  with n s show ?thesis
    using show_nat_digits [of n] digits_value_show_nat [of n]
    by (simp add: parse_unsigned_def)
qed

lemma parse_show_nat_None: "mx < n \<Longrightarrow> parse_unsigned mx (show_nat n) = None"
proof -
  assume n: "mx < n"
  obtain c r where s: "show_nat n = c # r" using show_nat_digits [of n] by (cases "show_nat n") auto
  then have "c \<noteq> 43" using show_nat_digits [of n] by (auto simp: is_digit_char_def)
  with n s show ?thesis
    using digits_value_show_nat [of n] by (simp add: parse_unsigned_def)
qed

lemma show_nat_inj: "show_nat m = show_nat n \<longleftrightarrow> m = n"
  by (metis digits_value_show_nat)

lemma parse_unsigned_le: "parse_unsigned mx s = Some n \<Longrightarrow> n \<le> mx"
  by (auto simp: parse_unsigned_def Let_def split: if_splits)

section \<open>Environment variables\<close>

text \<open>\<open>std::env::VarError\<close>, the error of a configuration lookup.\<close>

datatype var_error = NotPresent | NotUnicode

end
