(* ===== verification/Json.thy ===== *)
theory Json
  imports RustText
begin

text \<open>
  JSON values as the program handles them: the constructors of serde_json's \<open>Value\<close>
  it matches on, and \<open>Map\<close>, the ordered map behind \<open>Value::Object\<close>, as an
  association list sorted by key with the three operations the program calls. A number
  is carried by its printed form, which is all the program ever asks of one. The laws of
  the map are an interface: the payload policy of the YouTube client and the audit
  projection are proved from them alone.
\<close>

section \<open>Values\<close>

datatype json =
    JNull
  | JBool bool
  | JNumber ustr
  | JString ustr
  | JArray "json list"
  | JObject "(ustr \<times> json) list"

type_synonym jmap = "(ustr \<times> json) list"

definition jnat :: "nat \<Rightarrow> json" where
  "jnat n = JNumber (show_nat n)"

definition as_object :: "json \<Rightarrow> jmap option" where
  "as_object v = (case v of JObject m \<Rightarrow> Some m | _ \<Rightarrow> None)"

section \<open>Objects\<close>

definition obj_get :: "jmap \<Rightarrow> ustr \<Rightarrow> json option" where
  "obj_get m k = map_of m k"

fun obj_insert :: "ustr \<Rightarrow> json \<Rightarrow> jmap \<Rightarrow> jmap" where
  "obj_insert k v [] = [(k, v)]"
| "obj_insert k v ((l, w) # m) =
     (if k < l then (k, v) # (l, w) # m
      else if k = l then (k, v) # m
      else (l, w) # obj_insert k v m)"

definition obj_remove :: "ustr \<Rightarrow> jmap \<Rightarrow> jmap" where
  "obj_remove k m = filter (\<lambda>(l, _). l \<noteq> k) m"

definition obj_wf :: "jmap \<Rightarrow> bool" where
  "obj_wf m \<longleftrightarrow> sorted_wrt (<) (map fst m)"

text \<open>\<open>json!({...})\<close>: an object literal inserts its fields one by one.\<close>

definition json_object :: "(ustr \<times> json) list \<Rightarrow> json" where
  "json_object fs = JObject (fold (\<lambda>(k, v). obj_insert k v) fs [])"

definition json_option :: "json option \<Rightarrow> json" where
  "json_option v = (case v of None \<Rightarrow> JNull | Some x \<Rightarrow> x)"

text \<open>Every object inside a value is sorted by key.\<close>

fun json_wf :: "json \<Rightarrow> bool" where
  "json_wf (JObject m) = (obj_wf m \<and> list_all (\<lambda>(_, v). json_wf v) m)"
| "json_wf (JArray vs) = list_all json_wf vs"
| "json_wf _ = True"

section \<open>The interface of an ordered map\<close>

locale string_map =
  fixes empty :: "'m"
    and get :: "'m \<Rightarrow> 'k \<Rightarrow> 'v option"
    and insert :: "'k \<Rightarrow> 'v \<Rightarrow> 'm \<Rightarrow> 'm"
    and remove :: "'k \<Rightarrow> 'm \<Rightarrow> 'm"
    and wf :: "'m \<Rightarrow> bool"
  assumes get_empty: "get empty k = None"
    and get_insert: "get (insert k v m) l = (if l = k then Some v else get m l)"
    and get_remove: "get (remove k m) l = (if l = k then None else get m l)"
    and wf_empty: "wf empty"
    and wf_insert: "wf m \<Longrightarrow> wf (insert k v m)"
    and wf_remove: "wf m \<Longrightarrow> wf (remove k m)"
    and ext: "wf m \<Longrightarrow> wf n \<Longrightarrow> (\<And>k. get m k = get n k) \<Longrightarrow> m = n"
begin

lemmas get_simps = get_empty get_insert get_remove

lemma get_removed2:
  "get (remove k (remove l m)) i = (if i = k \<or> i = l then None else get m i)"
  by (simp add: get_simps)

lemma insert_same: "wf m \<Longrightarrow> get m k = Some v \<Longrightarrow> insert k v m = m"
  by (rule ext) (auto simp: wf_insert get_simps)

lemma remove_absent: "wf m \<Longrightarrow> get m k = None \<Longrightarrow> remove k m = m"
  by (rule ext) (auto simp: wf_remove get_simps)

lemma insert_twice: "wf m \<Longrightarrow> insert k v (insert k w m) = insert k v m"
  by (rule ext) (auto simp: wf_insert get_simps)

lemma get_fold_insert_notin:
  "k \<notin> set (map fst fs) \<Longrightarrow> get (fold (\<lambda>(l, v). insert l v) fs m) k = get m k"
  by (induction fs arbitrary: m) (auto simp: get_simps)

lemma get_fold_insert:
  "distinct (map fst fs) \<Longrightarrow> (k, v) \<in> set fs \<Longrightarrow>
   get (fold (\<lambda>(l, v). insert l v) fs m) k = Some v"
proof (induction fs arbitrary: m)
  case (Cons f fs)
  then show ?case
    by (cases "f = (k, v)") (auto simp: get_fold_insert_notin get_simps)
qed simp

lemma wf_fold_insert: "wf m \<Longrightarrow> wf (fold (\<lambda>(l, v). insert l v) fs m)"
  by (induction fs arbitrary: m) (auto intro: wf_insert)

end

lemma obj_get_insert: "obj_get (obj_insert k v m) l = (if l = k then Some v else obj_get m l)"
  by (induction k v m rule: obj_insert.induct) (auto simp: obj_get_def)

lemma obj_get_remove: "obj_get (obj_remove k m) l = (if l = k then None else obj_get m l)"
  by (induction m) (auto simp: obj_get_def obj_remove_def)

lemma set_obj_insert: "fst ` set (obj_insert k v m) = insert k (fst ` set m)"
  by (induction k v m rule: obj_insert.induct) auto

lemma obj_wf_insert: "obj_wf m \<Longrightarrow> obj_wf (obj_insert k v m)"
proof (induction k v m rule: obj_insert.induct)
  case (2 k v l w m)
  have "set (map fst (obj_insert k v m)) = insert k (set (map fst m))"
    using set_obj_insert [of k v m] by simp
  with 2 show ?case by (auto simp: obj_wf_def)
qed (simp add: obj_wf_def)

lemma obj_wf_remove: "obj_wf m \<Longrightarrow> obj_wf (obj_remove k m)"
  by (induction m) (auto simp: obj_wf_def obj_remove_def)

lemma obj_wf_ext: "obj_wf m \<Longrightarrow> obj_wf n \<Longrightarrow> (\<And>k. obj_get m k = obj_get n k) \<Longrightarrow> m = n"
proof (rule map_sorted_distinct_set_unique [of fst])
  assume m: "obj_wf m" and n: "obj_wf n" and eq: "\<And>k. obj_get m k = obj_get n k"
  show "sorted (map fst m)" "distinct (map fst m)" "sorted (map fst n)" "distinct (map fst n)"
    using m n by (simp_all add: obj_wf_def strict_sorted_iff)
  then show "set m = set n"
    using eq unfolding obj_get_def by (metis map_of_inject_set ext)
  then show "inj_on fst (set m \<union> set n)"
    using \<open>distinct (map fst m)\<close> by (simp add: distinct_map)
qed

interpretation jobj: string_map "[]" obj_get obj_insert obj_remove obj_wf
  by unfold_locales
    (auto simp: obj_get_def [of "[]"] obj_get_insert obj_get_remove obj_wf_def [of "[]"]
      intro: obj_wf_insert obj_wf_remove obj_wf_ext)

lemmas obj_simps = jobj.get_simps

lemma obj_remove_insert_comm: "k \<noteq> l \<Longrightarrow> obj_wf m \<Longrightarrow>
  obj_remove k (obj_insert l v m) = obj_insert l v (obj_remove k m)"
  by (rule obj_wf_ext) (auto simp: obj_simps intro: obj_wf_insert obj_wf_remove)

end
