(* ===== verification/WebTypes.thy ===== *)
theory WebTypes
  imports Json
begin

text \<open>
  Values that third-party crates hand to the program, reduced to the accessors the
  program calls on them: a parsed URL, a header map and an HTTP status. How such a value
  is made (the URL parser, the HTTP stack) is a parameter wherever it is used.
\<close>

section \<open>URLs\<close>

record url =
  url_scheme :: ustr
  url_host_str :: "ustr option"
  url_username :: ustr
  url_password :: "ustr option"
  url_path :: ustr
  url_path_segments :: "ustr list option"
  url_query :: "ustr option"
  url_fragment :: "ustr option"

section \<open>Header maps\<close>

text \<open>
  A header value is either readable as visible ASCII, with the text \<open>to_str\<close> gives,
  or not; a header map answers \<open>get\<close> with the first value of a name.
\<close>

datatype header_value = Readable ustr | Opaque

type_synonym header_map = "ustr \<Rightarrow> header_value option"

definition to_str :: "header_value \<Rightarrow> ustr option" where
  "to_str v = (case v of Readable s \<Rightarrow> Some s | Opaque \<Rightarrow> None)"

section \<open>HTTP status codes\<close>

type_synonym status_code = nat

definition is_success :: "status_code \<Rightarrow> bool" where
  "is_success s \<longleftrightarrow> 200 \<le> s \<and> s < 300"

definition is_redirection :: "status_code \<Rightarrow> bool" where
  "is_redirection s \<longleftrightarrow> 300 \<le> s \<and> s < 400"

section \<open>Network integers\<close>

text \<open>\<open>u32::to_be_bytes\<close> and \<open>u32::from_be_bytes\<close>.\<close>

definition to_be_bytes :: "u32 \<Rightarrow> u8 list" where
  "to_be_bytes w = [ucast (drop_bit 24 w), ucast (drop_bit 16 w), ucast (drop_bit 8 w), ucast w]"

definition from_be_bytes :: "u8 list \<Rightarrow> u32" where
  "from_be_bytes bs = foldl (\<lambda>a b. push_bit 8 a + ucast b) 0 bs"

lemma length_to_be_bytes [simp]: "length (to_be_bytes w) = 4"
  by (simp add: to_be_bytes_def)

lemma from_be_bytes_unat:
  "unat (from_be_bytes [a, b, c, d]) = ((unat a * 256 + unat b) * 256 + unat c) * 256 + unat d"
proof -
  have l: "unat x < 256" for x :: u8 using unsigned_less [of x, where 'a = nat] by simp
  have u: "unat (push_bit 8 p + ucast x) = unat p * 256 + unat x"
    if "unat p < 2 ^ 24" for p :: u32 and x :: u8
    using that l [of x]
    by (simp add: unat_word_ariths unsigned_push_bit_eq push_bit_eq_mult
        take_bit_eq_mod unsigned_ucast_eq)
  note bounds = l [of a] l [of b] l [of c] l [of d]
  define p where "p = push_bit 8 (0 :: u32) + ucast a"
  have p: "unat p = unat a" using u [of 0 a] by (simp add: p_def)
  define q where "q = push_bit 8 p + ucast b"
  have q: "unat q = unat a * 256 + unat b" using u [of p b] p bounds by (simp add: q_def)
  define r where "r = push_bit 8 q + ucast c"
  have r: "unat r = (unat a * 256 + unat b) * 256 + unat c"
    using u [of q c] q bounds by (simp add: r_def)
  have "from_be_bytes [a, b, c, d] = push_bit 8 r + ucast d"
    by (simp add: from_be_bytes_def p_def q_def r_def)
  then show ?thesis using u [of r d] r bounds by simp
qed

lemma to_be_bytes_unat:
  "map unat (to_be_bytes w) =
     [unat w div 2 ^ 24 mod 256, unat w div 2 ^ 16 mod 256, unat w div 2 ^ 8 mod 256, unat w mod 256]"
  by (simp add: to_be_bytes_def unsigned_ucast_eq unsigned_drop_bit_eq drop_bit_eq_div
      take_bit_eq_mod unat_div_distrib)

lemma from_to_be_bytes [simp]: "from_be_bytes (to_be_bytes w) = w"
proof (rule unsigned_word_eqI [where 'a = nat])
  have n: "((n div 2 ^ 24 mod 256 * 256 + n div 2 ^ 16 mod 256) * 256 + n div 2 ^ 8 mod 256) * 256
      + n mod 256 = n" if "n < 2 ^ 32" for n :: nat
  proof -
    have "n div 2 ^ 24 mod 256 = n div 2 ^ 24" using that by (simp add: div_less_iff_less_mult)
    moreover have "n div 2 ^ 16 = n div 2 ^ 24 * 256 + n div 2 ^ 16 mod 256"
      using div_mult_mod_eq [of "n div 2 ^ 16" 256] by (simp add: div_mult2_eq [symmetric])
    moreover have "n div 2 ^ 8 = n div 2 ^ 16 * 256 + n div 2 ^ 8 mod 256"
      using div_mult_mod_eq [of "n div 2 ^ 8" 256] by (simp add: div_mult2_eq [symmetric])
    moreover have "n = n div 2 ^ 8 * 256 + n mod 256"
      using div_mult_mod_eq [of n 256] by simp
    ultimately show ?thesis by simp
  qed
  have "unat w < 2 ^ 32" using unsigned_less [of w, where 'a = nat] by simp
  from n [OF this] show "unat (from_be_bytes (to_be_bytes w)) = unat w"
    using to_be_bytes_unat [of w]
    by (simp only: to_be_bytes_def from_be_bytes_unat list.map list.inject)
qed

end
