(* ===== verification/DataPlane.thy ===== *)
theory DataPlane
  imports WebTypes
begin

text \<open>
  \<open>src/web_data_plane.rs\<close>: the operation envelope every transport carries, its
  validation for the four modes, the policies of the four paths and the length-prefixed
  frame. The JSON encoder and decoder of an envelope (serde_json), the URL parser and the
  socket-address parser are parameters; the clock is an argument.
\<close>

section \<open>Constants, modes and errors\<close>

definition MAX_OPERATION_BYTES :: nat where
  "MAX_OPERATION_BYTES = 16 * 1024"

definition MAX_FRAME_BYTES :: nat where
  "MAX_FRAME_BYTES = 64 * 1024"

definition MAX_OPERATION_DEADLINE_MS :: u64 where
  "MAX_OPERATION_DEADLINE_MS = 30000"

datatype web_api_mode =
    DirectReadOnlyDatabase
  | StatelessHttp
  | StatefulMtlsTcp
  | JetStreamAsync

datatype data_operation = Read | Write

datatype data_plane_error =
    UnsupportedVersion
  | InvalidIdentifier
  | PayloadTooLarge
  | DeadlineExpired
  | DeadlineTooFar
  | DirectDatabaseWrite
  | MissingDedupeKey
  | Serialization
  | UnsafeDirectDatabasePolicy
  | UnsafeHttpPolicy
  | UnsafeTcpPolicy
  | UnsafeJetStreamPolicy
  | InvalidFrame

section \<open>The operation envelope\<close>

record operation_envelope =
  version :: u8
  operation_id :: ustr
  subject :: ustr
  resource :: ustr
  operation :: data_operation
  payload :: json
  deadline_unix_ms :: u64
  dedupe_key :: "ustr option"

definition validate_identifier :: "ustr \<Rightarrow> nat \<Rightarrow> (data_plane_error, unit) result" where
  "validate_identifier value maximum =
     (if value = [] \<or> str_len value > maximum \<or> list_ex is_control value \<or> trim value \<noteq> value
      then Err InvalidIdentifier else Ok ())"

text \<open>
  \<open>unix_time_ms\<close>: milliseconds since the epoch as a \<open>u64\<close>, 0 for a clock before it.
\<close>

definition unix_time_ms :: "nat option \<Rightarrow> u64" where
  "unix_time_ms since_epoch = (case since_epoch of None \<Rightarrow> 0 | Some ms \<Rightarrow> u64_saturating ms)"

definition validate_for ::
  "(operation_envelope \<Rightarrow> u8 list option) \<Rightarrow> u64 \<Rightarrow> operation_envelope \<Rightarrow> web_api_mode \<Rightarrow>
   (data_plane_error, unit) result" where
  "validate_for to_vec now e mode =
     (if version e \<noteq> 1 then Err UnsupportedVersion
      else
        and_then (validate_identifier (operation_id e) 128) (\<lambda>_.
        and_then (validate_identifier (subject e) 256) (\<lambda>_.
        and_then (validate_identifier (resource e) 96) (\<lambda>_.
        and_then (ok_or Serialization (to_vec e)) (\<lambda>encoded.
          if length encoded > MAX_OPERATION_BYTES then Err PayloadTooLarge
          else if deadline_unix_ms e \<le> now then Err DeadlineExpired
          else if saturating_sub (deadline_unix_ms e) now > MAX_OPERATION_DEADLINE_MS
          then Err DeadlineTooFar
          else if mode = DirectReadOnlyDatabase \<and> operation e \<noteq> Read
          then Err DirectDatabaseWrite
          else if mode = JetStreamAsync
          then and_then (ok_or MissingDedupeKey (dedupe_key e)) (\<lambda>k. validate_identifier k 128)
          else Ok ())))))"

subsection \<open>Identifiers\<close>

lemma validate_identifier_Ok_iff [result_simps]:
  "validate_identifier v m = Ok u \<longleftrightarrow>
     v \<noteq> [] \<and> str_len v \<le> m \<and> \<not> list_ex is_control v \<and> trim v = v"
  by (auto simp: validate_identifier_def)

lemma validate_identifier_chars:
  "validate_identifier v m = Ok u \<Longrightarrow> 1 \<le> length v \<and> length v \<le> m"
  using length_le_str_len [of v] by (cases v) (auto simp: validate_identifier_Ok_iff)

subsection \<open>Validation\<close>

definition admissible_for ::
  "(operation_envelope \<Rightarrow> u8 list option) \<Rightarrow> operation_envelope \<Rightarrow> web_api_mode \<Rightarrow> bool" where
  "admissible_for to_vec e mode \<longleftrightarrow>
     version e = 1 \<and>
     is_ok (validate_identifier (operation_id e) 128) \<and>
     is_ok (validate_identifier (subject e) 256) \<and>
     is_ok (validate_identifier (resource e) 96) \<and>
     (\<exists>bs. to_vec e = Some bs \<and> length bs \<le> MAX_OPERATION_BYTES) \<and>
     (mode = DirectReadOnlyDatabase \<longrightarrow> operation e = Read) \<and>
     (mode = JetStreamAsync \<longrightarrow>
        (\<exists>k. dedupe_key e = Some k \<and> is_ok (validate_identifier k 128)))"

text \<open>The clock decides by a window alone: from the bound before the deadline up to it.\<close>

lemma validate_for_Ok_iff [result_simps]:
  "validate_for to_vec now e mode = Ok u \<longleftrightarrow>
     admissible_for to_vec e mode \<and>
     unat now < unat (deadline_unix_ms e) \<and>
     unat (deadline_unix_ms e) \<le> unat now + unat MAX_OPERATION_DEADLINE_MS"
proof -
  have late: "MAX_OPERATION_DEADLINE_MS < saturating_sub d now \<longleftrightarrow>
      unat now + unat MAX_OPERATION_DEADLINE_MS < unat d" if "now < d" for d
    using that by (auto simp: word_less_nat_alt unat_saturating_sub)
  show ?thesis
    by (cases "to_vec e"; cases "dedupe_key e")
      (auto simp: validate_for_def admissible_for_def result_simps is_ok_iff not_le late
        word_less_nat_alt word_le_nat_alt MAX_OPERATION_DEADLINE_MS_def unat_saturating_sub
        split: if_splits)
qed

lemma validate_for_window:
  assumes "validate_for to_vec t0 e mode = Ok u"
    and "unat t0 + unat MAX_OPERATION_DEADLINE_MS \<le> unat t1"
  shows "validate_for to_vec t1 e mode = Err DeadlineExpired"
proof -
  from assms have adm: "admissible_for to_vec e mode" and d: "deadline_unix_ms e \<le> t1"
    by (auto simp: validate_for_Ok_iff word_le_nat_alt)
  from adm show ?thesis
    by (auto simp: validate_for_def admissible_for_def is_ok_iff d)
qed

section \<open>Policies of the four paths\<close>

subsection \<open>Direct read-only database\<close>

record direct_database_policy =
  role_name :: ustr
  read_only_transaction :: bool
  statement_timeout_ms :: u64
  row_limit :: u32

datatype sql_value = SqlString ustr | SqlBigInt int

record statement =
  sql :: ustr
  sql_values :: "sql_value list"

definition in_range :: "nat \<Rightarrow> nat \<Rightarrow> nat \<Rightarrow> bool" where
  "in_range lo hi n \<longleftrightarrow> lo \<le> n \<and> n \<le> hi"

definition validate_direct_database_policy ::
  "direct_database_policy \<Rightarrow> (data_plane_error, unit) result" where
  "validate_direct_database_policy p =
     (if \<not> ends_with (role_name p) (lit ''_web_ro'') \<or> \<not> read_only_transaction p
      then Err UnsafeDirectDatabasePolicy
      else if \<not> in_range 1 5000 (unat (statement_timeout_ms p))
              \<or> \<not> in_range 1 1000 (unat (row_limit p))
      then Err UnsafeDirectDatabasePolicy
      else Ok ())"

definition YOUTUBE_CHANNEL_SQL :: ustr where
  "YOUTUBE_CHANNEL_SQL = lit (''SELECT channel_id, handle, title FROM youtube_channels '' @
     ''WHERE owner_subject = $1 ORDER BY channel_id LIMIT $2'')"

definition youtube_channel_select ::
  "direct_database_policy \<Rightarrow> ustr \<Rightarrow> (data_plane_error, statement) result" where
  "youtube_channel_select p actor =
     and_then (validate_direct_database_policy p) (\<lambda>_.
     and_then (validate_identifier actor 256) (\<lambda>_.
     Ok \<lparr>sql = YOUTUBE_CHANNEL_SQL,
         sql_values = [SqlString actor, SqlBigInt (uint (row_limit p))]\<rparr>))"

subsection \<open>Stateless HTTP\<close>

record stateless_http_policy =
  base_url :: ustr
  service_credential_ref :: ustr
  http_connect_timeout_ms :: u64
  request_timeout_ms :: u64
  http_max_response_bytes :: nat
  redirects_enabled :: bool

definition validate_stateless_http_policy ::
  "(ustr \<Rightarrow> url option) \<Rightarrow> stateless_http_policy \<Rightarrow> (data_plane_error, unit) result" where
  "validate_stateless_http_policy url_parse p =
     and_then (ok_or UnsafeHttpPolicy (url_parse (base_url p))) (\<lambda>u.
     let cluster_http = url_scheme u = lit ''http'' \<and>
           (case url_host_str u of None \<Rightarrow> False
            | Some host \<Rightarrow> ends_with host (lit ''.svc.cluster.local''))
     in if (url_scheme u \<noteq> lit ''https'' \<and> \<not> cluster_http)
           \<or> url_username u \<noteq> []
           \<or> url_password u \<noteq> None
           \<or> url_query u \<noteq> None
           \<or> url_fragment u \<noteq> None
           \<or> trim (service_credential_ref p) = []
           \<or> redirects_enabled p
           \<or> \<not> in_range 1 2000 (unat (http_connect_timeout_ms p))
           \<or> \<not> in_range 1 10000 (unat (request_timeout_ms p))
           \<or> \<not> in_range 1 (1024 * 1024) (http_max_response_bytes p)
        then Err UnsafeHttpPolicy
        else Ok ())"

subsection \<open>Stateful mTLS over TCP\<close>

record stateful_mtls_tcp_policy =
  tcp_address :: ustr
  server_name :: ustr
  ca_bundle_ref :: ustr
  client_certificate_ref :: ustr
  client_private_key_ref :: ustr
  mutual_tls_required :: bool
  per_operation_authentication :: bool
  tcp_bounded_backpressure :: bool
  tcp_connect_timeout_ms :: u64
  operation_timeout_ms :: u64
  max_frame_bytes :: nat

definition valid_host_port :: "ustr \<Rightarrow> bool" where
  "valid_host_port value =
     (case rsplit_once value 58 of
        None \<Rightarrow> False
      | Some (host, port) \<Rightarrow>
          host \<noteq> [] \<and> str_len host \<le> 253 \<and> \<not> list_ex is_whitespace host \<and>
          (case parse_unsigned 65535 port of None \<Rightarrow> False | Some n \<Rightarrow> n \<noteq> 0))"

definition validate_stateful_mtls_tcp_policy ::
  "(ustr \<Rightarrow> bool) \<Rightarrow> stateful_mtls_tcp_policy \<Rightarrow> (data_plane_error, unit) result" where
  "validate_stateful_mtls_tcp_policy is_socket_addr p =
     (let secret_refs = [ca_bundle_ref p, client_certificate_ref p, client_private_key_ref p]
      in if (\<not> is_socket_addr (tcp_address p) \<and> \<not> valid_host_port (tcp_address p))
            \<or> trim (server_name p) = []
            \<or> list_ex (\<lambda>v. trim v = []) secret_refs
            \<or> \<not> mutual_tls_required p
            \<or> \<not> per_operation_authentication p
            \<or> \<not> tcp_bounded_backpressure p
            \<or> \<not> in_range 1 2000 (unat (tcp_connect_timeout_ms p))
            \<or> \<not> in_range 1 30000 (unat (operation_timeout_ms p))
            \<or> \<not> in_range 1 MAX_FRAME_BYTES (max_frame_bytes p)
         then Err UnsafeTcpPolicy
         else Ok ())"

subsection \<open>JetStream\<close>

record jet_stream_policy =
  request_subject :: ustr
  result_subject_prefix :: ustr
  durable_consumer :: ustr
  max_deliveries :: u32
  ack_wait_ms :: u64
  publish_timeout_ms :: u64
  explicit_ack :: bool
  transactional_outbox :: bool
  durable_inbox_dedupe :: bool
  queryable_status :: bool
  js_bounded_backpressure :: bool

definition validate_jet_stream_policy ::
  "jet_stream_policy \<Rightarrow> (data_plane_error, unit) result" where
  "validate_jet_stream_policy p =
     (if \<not> starts_with (request_subject p) (lit ''act.operations.'')
         \<or> \<not> starts_with (result_subject_prefix p) (lit ''act.results.'')
         \<or> trim (durable_consumer p) = []
         \<or> \<not> in_range 1 20 (unat (max_deliveries p))
         \<or> \<not> in_range 1000 120000 (unat (ack_wait_ms p))
         \<or> \<not> in_range 1 10000 (unat (publish_timeout_ms p))
         \<or> \<not> explicit_ack p
         \<or> \<not> transactional_outbox p
         \<or> \<not> durable_inbox_dedupe p
         \<or> \<not> queryable_status p
         \<or> \<not> js_bounded_backpressure p
      then Err UnsafeJetStreamPolicy
      else Ok ())"

section \<open>Length-prefixed frames\<close>

definition encode_frame ::
  "(operation_envelope \<Rightarrow> u8 list option) \<Rightarrow> operation_envelope \<Rightarrow> nat \<Rightarrow>
   (data_plane_error, u8 list) result" where
  "encode_frame to_vec e maximum =
     and_then (ok_or Serialization (to_vec e)) (\<lambda>p.
       if length p > maximum \<or> maximum > MAX_FRAME_BYTES then Err PayloadTooLarge
       else and_then (if length p < 2 ^ 32 then Ok (word_of_nat (length p) :: u32)
                      else Err PayloadTooLarge) (\<lambda>len.
         Ok (to_be_bytes len @ p)))"

definition decode_frame ::
  "(u8 list \<Rightarrow> operation_envelope option) \<Rightarrow> u8 list \<Rightarrow> nat \<Rightarrow>
   (data_plane_error, operation_envelope) result" where
  "decode_frame from_slice frame maximum =
     and_then (if length frame < 4 then Err InvalidFrame else Ok (take 4 frame)) (\<lambda>pfx.
       let len = unat (from_be_bytes pfx)
       in if len > maximum \<or> maximum > MAX_FRAME_BYTES \<or> length frame \<noteq> len + 4
          then Err InvalidFrame
          else ok_or InvalidFrame (from_slice (drop 4 frame)))"

lemma encode_frame_Ok_iff:
  "encode_frame to_vec e m = Ok f \<longleftrightarrow>
     (\<exists>p. to_vec e = Some p \<and> length p \<le> m \<and> m \<le> MAX_FRAME_BYTES \<and>
          f = to_be_bytes (word_of_nat (length p)) @ p)"
  by (cases "to_vec e") (auto simp: encode_frame_def result_simps MAX_FRAME_BYTES_def split: if_splits)

lemma decode_frame_Ok_iff:
  "decode_frame from_slice f m = Ok e \<longleftrightarrow>
     4 \<le> length f \<and> unat (from_be_bytes (take 4 f)) \<le> m \<and> m \<le> MAX_FRAME_BYTES \<and>
     length f = unat (from_be_bytes (take 4 f)) + 4 \<and> from_slice (drop 4 f) = Some e"
  by (auto simp: decode_frame_def result_simps Let_def split: if_splits)

lemma decode_frame_not_Ok:
  "\<not> is_ok (decode_frame from_slice f m) \<Longrightarrow> decode_frame from_slice f m = Err InvalidFrame"
  by (auto simp: decode_frame_def result_simps ok_or_def is_ok_def Let_def
      split: if_splits sum.splits option.splits)

lemma frame_length_prefix:
  "length p < 2 ^ 32 \<Longrightarrow>
   unat (from_be_bytes (to_be_bytes (word_of_nat (length p)))) = length p"
  by (simp add: unat_of_nat take_bit_eq_mod)

lemma decode_frame_of_encoded:
  assumes "length p < 2 ^ 32"
  shows "decode_frame from_slice (take k (to_be_bytes (word_of_nat (length p)) @ p @ r)) m = Ok e
     \<Longrightarrow> k = 4 + length p \<or> (r = [] \<and> 4 + length p \<le> k)"
proof -
  let ?f = "to_be_bytes (word_of_nat (length p)) @ p @ r"
  assume d: "decode_frame from_slice (take k ?f) m = Ok e"
  then have "4 \<le> length (take k ?f)" by (simp only: decode_frame_Ok_iff)
  also have "\<dots> \<le> k" by (simp only: length_take min.cobounded2)
  finally have "take 4 (take k ?f) = take 4 ?f" by (simp add: min_def)
  then have "take 4 (take k ?f) = to_be_bytes (word_of_nat (length p))" by simp
  with d have "length (take k ?f) = length p + 4"
    using frame_length_prefix [OF assms] by (simp add: decode_frame_Ok_iff)
  then show ?thesis by (auto simp: min_def split: if_splits)
qed

section \<open>Properties\<close>

text \<open>
  C31: A frame made by \<open>encode_frame\<close> decodes to the envelope it was made from, and
  neither a frame with bytes after it nor a truncated frame is accepted.
\<close>

theorem frame_round_trip:
  assumes "to_vec e = Some p" and "from_slice p = Some e"
    and "length p \<le> maximum" and "maximum \<le> MAX_FRAME_BYTES"
  shows "\<exists>frame. encode_frame to_vec e maximum = Ok frame \<and>
      decode_frame from_slice frame maximum = Ok e \<and>
      (\<forall>b rest. decode_frame from_slice (frame @ b # rest) maximum = Err InvalidFrame) \<and>
      (\<forall>k < length frame. decode_frame from_slice (take k frame) maximum = Err InvalidFrame)"
proof -
  let ?f = "to_be_bytes (word_of_nat (length p)) @ p"
  have l: "length p < 2 ^ 32" using assms(3,4) by (simp add: MAX_FRAME_BYTES_def)
  have "encode_frame to_vec e maximum = Ok ?f" using assms by (simp add: encode_frame_Ok_iff)
  moreover have "decode_frame from_slice ?f maximum = Ok e"
    using assms frame_length_prefix [OF l] by (simp add: decode_frame_Ok_iff)
  moreover have "decode_frame from_slice (?f @ b # rest) maximum = Err InvalidFrame" for b rest
    using decode_frame_of_encoded [OF l, of from_slice "length (?f @ b # rest)" "b # rest"]
    by (intro decode_frame_not_Ok) (auto simp: is_ok_iff)
  moreover have "decode_frame from_slice (take k ?f) maximum = Err InvalidFrame" if "k < length ?f" for k
    using decode_frame_of_encoded [OF l, of from_slice k "[]"] that
    by (intro decode_frame_not_Ok) (auto simp: is_ok_iff)
  ultimately show ?thesis by blast
qed

text \<open>An envelope in the style of the module's own tests, for concrete instances.\<close>

definition sample_envelope :: operation_envelope where
  "sample_envelope =
     \<lparr>version = 1, operation_id = lit ''op-018f'', subject = lit ''shared-user-1'',
      resource = lit ''youtube_status'', operation = Read, payload = JObject [],
      deadline_unix_ms = 30000, dedupe_key = Some (lit ''op-018f'')\<rparr>"

theorem frame_round_trip_witness:
  "\<exists>frame. encode_frame (\<lambda>_. Some [123, 125]) sample_envelope 64 = Ok frame \<and>
      decode_frame (\<lambda>_. Some sample_envelope) frame 64 = Ok sample_envelope"
  using frame_round_trip [of "\<lambda>_. Some [123, 125]" sample_envelope "[123, 125]"
      "\<lambda>_. Some sample_envelope" 64]
  by (auto simp: MAX_FRAME_BYTES_def)

end
