(* ===== verification/Attestation.thy ===== *)
theory Attestation
  imports DataPlane
begin

text \<open>
  The attestation half of \<open>src/transport_runtime.rs\<close>: the hexadecimal codec, the
  operation-bound HMAC attestation and the request fingerprint. HMAC-SHA256 (\<open>mac\<close>,
  key and message to tag), SHA-256 (\<open>digest\<close>) and the JSON encoder of an envelope
  (\<open>to_vec\<close>) are parameters; what is relied on of the first two is that their output
  has 32 bytes.
\<close>

unbundle bit_operations_syntax

section \<open>Errors of the transports\<close>

datatype transport_error =
    InvalidRequest
  | Unauthorized
  | AuthUnavailable
  | UnsupportedOperation
  | Timeout
  | Database
  | InvalidState
  | Transport

fun transport_error_code :: "transport_error \<Rightarrow> ustr" where
  "transport_error_code InvalidRequest = lit ''invalid_request''"
| "transport_error_code Unauthorized = lit ''unauthorized''"
| "transport_error_code AuthUnavailable = lit ''auth_unavailable''"
| "transport_error_code UnsupportedOperation = lit ''unsupported_operation''"
| "transport_error_code Timeout = lit ''operation_timeout''"
| "transport_error_code Database = lit ''temporarily_unavailable''"
| "transport_error_code InvalidState = lit ''temporarily_unavailable''"
| "transport_error_code Transport = lit ''temporarily_unavailable''"

section \<open>Hexadecimal\<close>

definition decode_hex_nibble :: "u8 \<Rightarrow> (transport_error, u8) result" where
  "decode_hex_nibble v =
     (if 48 \<le> v \<and> v \<le> 57 then Ok (v - 48)
      else if 97 \<le> v \<and> v \<le> 102 then Ok (v - 97 + 10)
      else if 65 \<le> v \<and> v \<le> 70 then Ok (v - 65 + 10)
      else Err Unauthorized)"

text \<open>The loop of \<open>decode_sha256_hex\<close> over the byte pairs of its input.\<close>

fun decode_hex_pairs :: "u8 list \<Rightarrow> (transport_error, u8 list) result" where
  "decode_hex_pairs (a # b # r) =
     and_then (decode_hex_nibble a) (\<lambda>hi.
     and_then (decode_hex_nibble b) (\<lambda>lo.
     and_then (decode_hex_pairs r) (\<lambda>rest.
     Ok ((push_bit 4 hi OR lo) # rest))))"
| "decode_hex_pairs _ = Ok []"

definition decode_sha256_hex :: "ustr \<Rightarrow> (transport_error, u8 list) result" where
  "decode_sha256_hex value =
     (if str_len value \<noteq> 64 \<or> \<not> list_all is_ascii_hexdigit (str_bytes value)
      then Err Unauthorized
      else decode_hex_pairs (str_bytes value))"

definition HEX :: ustr where
  "HEX = lit ''0123456789abcdef''"

definition encode_hex :: "u8 list \<Rightarrow> ustr" where
  "encode_hex value =
     concat (map (\<lambda>b. [HEX ! unat (drop_bit 4 b), HEX ! unat (b AND 0x0f)]) value)"

definition hex_char :: "u8 \<Rightarrow> nat" where
  "hex_char n = HEX ! unat n"

text \<open>
  A nibble is one of sixteen values; facts about one are checked on each.
\<close>

lemma nibble_cases: "(n :: u8) < 16 \<Longrightarrow> n \<in> {0,1,2,3,4,5,6,7,8,9,10,11,12,13,14,15}"
proof -
  assume "n < 16"
  then have "unat n < 16" by (simp add: word_less_nat_alt)
  then have "unat n \<in> {0,1,2,3,4,5,6,7,8,9,10,11,12,13,14,15}"
    unfolding insert_iff empty_iff by presburger
  then have "word_of_nat (unat n) \<in> (word_of_nat :: nat \<Rightarrow> u8) ` {0,1,2,3,4,5,6,7,8,9,10,11,12,13,14,15}"
    by (rule imageI)
  then show ?thesis by simp
qed

lemma hex_char_arith: "n < 16 \<Longrightarrow> hex_char n = (if n < 10 then 48 + unat n else 87 + unat n)"
  using nibble_cases [of n] by (auto simp: hex_char_def HEX_def lit_def)

lemma hex_char_table:
  assumes "n < 16"
  shows "hex_char n < 128"
    and "is_ascii_hexdigit (word_of_nat (hex_char n))"
    and "decode_hex_nibble (word_of_nat (hex_char n)) = Ok n"
    and "48 \<le> hex_char n \<and> hex_char n \<le> 57 \<or> 97 \<le> hex_char n \<and> hex_char n \<le> 102"
proof -
  have n: "unat n < 16" using assms by (simp add: word_less_nat_alt)
  then show r: "48 \<le> hex_char n \<and> hex_char n \<le> 57 \<or> 97 \<le> hex_char n \<and> hex_char n \<le> 102"
    by (auto simp: hex_char_arith [OF assms] word_less_nat_alt)
  then show "hex_char n < 128" by auto
  with r show "is_ascii_hexdigit (word_of_nat (hex_char n))"
    by (auto simp: is_ascii_hexdigit_def word_le_nat_alt unat_u8)
  show "decode_hex_nibble (word_of_nat (hex_char n)) = Ok n"
    unfolding hex_char_arith [OF assms] using nibble_cases [OF assms]
    by (elim insertE emptyE) (simp_all add: decode_hex_nibble_def)
qed

lemma nibble_join:
  fixes x y :: u8
  assumes "x < 16" "y < 16"
  shows "drop_bit 4 (push_bit 4 x OR y) = x" and "(push_bit 4 x OR y) AND 0x0f = y"
proof -
  have "drop_bit 4 (push_bit 4 x) = x" using nibble_cases [OF assms(1)] by auto
  moreover have "drop_bit 4 y = 0" using nibble_cases [OF assms(2)] by auto
  ultimately show "drop_bit 4 (push_bit 4 x OR y) = x" by simp
  have "push_bit 4 x AND 0x0f = 0" using nibble_cases [OF assms(1)] by auto
  moreover have "y AND 0x0f = y" using nibble_cases [OF assms(2)] by auto
  ultimately show "(push_bit 4 x OR y) AND 0x0f = y" by (simp only: and.right_neutral bit.conj_disj_distrib2 or.left_neutral)
qed

lemma nibbles:
  fixes b :: u8
  shows "drop_bit 4 b < 16" "b AND 0x0f < 16" "push_bit 4 (drop_bit 4 b) OR (b AND 0x0f) = b"
proof -
  have "unat (drop_bit 4 b) < 16"
    using unsigned_less [of b, where 'a = nat] by (simp add: drop_bit_eq_div unat_div_distrib)
  then show "drop_bit 4 b < 16" by (simp add: word_less_nat_alt)
  have m: "(0x0f :: u8) = mask 4" by (simp add: mask_eq_exp_minus_1)
  have "b AND 0x0f = take_bit 4 b" by (simp only: m take_bit_eq_mask)
  moreover have "unat (take_bit 4 b) < 16"
    by (simp add: take_bit_eq_mod unat_mod_distrib)
  ultimately show "b AND 0x0f < 16" by (simp add: word_less_nat_alt)
  show "push_bit 4 (drop_bit 4 b) OR (b AND 0x0f) = b"
    unfolding m take_bit_eq_mask [symmetric]
    by (rule bit_eqI) (auto simp: bit_simps)
qed

lemma encode_hex_Cons:
  "encode_hex (b # bs) = hex_char (drop_bit 4 b) # hex_char (b AND 0x0f) # encode_hex bs"
  by (simp add: encode_hex_def hex_char_def)

lemma encode_hex_Nil [simp]: "encode_hex [] = []"
  by (simp add: encode_hex_def)

lemma length_encode_hex [simp]: "length (encode_hex bs) = 2 * length bs"
  by (induction bs) (simp_all add: encode_hex_Cons)

lemma encode_hex_ascii: "ascii (encode_hex bs)"
  by (induction bs) (simp_all add: encode_hex_Cons ascii_def hex_char_table nibbles)

lemma encode_hex_digits: "list_all is_ascii_hexdigit (str_bytes (encode_hex bs))"
  unfolding ascii_str_bytes [OF encode_hex_ascii]
  by (induction bs) (simp_all add: encode_hex_Cons hex_char_table nibbles)

lemma encode_hex_lowercase:
  "list_all (\<lambda>c. 48 \<le> c \<and> c \<le> 57 \<or> 97 \<le> c \<and> c \<le> 102) (encode_hex bs)"
  by (induction bs) (auto simp: encode_hex_Cons hex_char_table(4) nibbles)

lemma decode_hex_pairs_encode: "decode_hex_pairs (str_bytes (encode_hex bs)) = Ok bs"
  unfolding ascii_str_bytes [OF encode_hex_ascii]
  by (induction bs) (simp_all add: encode_hex_Cons hex_char_table nibbles)

lemma decode_encode_sha256: "length bs = 32 \<Longrightarrow> decode_sha256_hex (encode_hex bs) = Ok bs"
  by (simp add: decode_sha256_hex_def ascii_str_len [OF encode_hex_ascii] encode_hex_digits
      decode_hex_pairs_encode)

lemma encode_hex_inj: "encode_hex a = encode_hex b \<longleftrightarrow> a = b"
  by (metis decode_hex_pairs_encode sum.inject(2))

lemma hexdigit_nibble: "is_ascii_hexdigit v \<Longrightarrow> \<exists>n. decode_hex_nibble v = Ok n"
  by (auto simp: is_ascii_hexdigit_def decode_hex_nibble_def)

lemma decode_hex_pairs_total:
  "list_all is_ascii_hexdigit bs \<Longrightarrow> even (length bs) \<Longrightarrow>
   \<exists>r. decode_hex_pairs bs = Ok r \<and> 2 * length r = length bs"
proof (induction bs rule: decode_hex_pairs.induct)
  case (1 a b r)
  from 1(2) obtain x y where "decode_hex_nibble a = Ok x" "decode_hex_nibble b = Ok y"
    using hexdigit_nibble [of a] hexdigit_nibble [of b] by auto
  with 1 show ?case by auto
qed auto

lemma decode_sha256_hex_length: "decode_sha256_hex s = Ok bs \<Longrightarrow> length bs = 32"
proof -
  assume s: "decode_sha256_hex s = Ok bs"
  then have "list_all is_ascii_hexdigit (str_bytes s)" "length (str_bytes s) = 64"
    and d: "decode_hex_pairs (str_bytes s) = Ok bs"
    by (auto simp: decode_sha256_hex_def str_len_def split: if_splits)
  then show ?thesis using decode_hex_pairs_total [of "str_bytes s"] by auto
qed

section \<open>Signing and verifying\<close>

definition MIN_OPERATION_HMAC_KEY_BYTES :: nat where
  "MIN_OPERATION_HMAC_KEY_BYTES = 32"

definition OPERATION_ATTESTATION_PREFIX :: ustr where
  "OPERATION_ATTESTATION_PREFIX = lit ''ACT-HMAC-SHA256 ''"

definition sign_operation_attestation ::
  "(u8 list \<Rightarrow> u8 list \<Rightarrow> u8 list option) \<Rightarrow> (operation_envelope \<Rightarrow> u8 list option) \<Rightarrow>
   u8 list \<Rightarrow> operation_envelope \<Rightarrow> (transport_error, ustr) result" where
  "sign_operation_attestation mac to_vec key e =
     (if length key < MIN_OPERATION_HMAC_KEY_BYTES then Err InvalidState
      else
        and_then (ok_or InvalidRequest (to_vec e)) (\<lambda>p.
        and_then (ok_or InvalidState (mac key p)) (\<lambda>tag.
        Ok (OPERATION_ATTESTATION_PREFIX @ encode_hex tag))))"

definition verify_operation_attestation ::
  "(u8 list \<Rightarrow> u8 list \<Rightarrow> u8 list option) \<Rightarrow> (operation_envelope \<Rightarrow> u8 list option) \<Rightarrow>
   u8 list \<Rightarrow> operation_envelope \<Rightarrow> ustr \<Rightarrow> (transport_error, unit) result" where
  "verify_operation_attestation mac to_vec key e value =
     (if length key < MIN_OPERATION_HMAC_KEY_BYTES then Err Unauthorized
      else
        and_then (ok_or Unauthorized (strip_prefix value OPERATION_ATTESTATION_PREFIX)) (\<lambda>encoded.
        and_then (decode_sha256_hex encoded) (\<lambda>signature.
        and_then (ok_or InvalidRequest (to_vec e)) (\<lambda>p.
        and_then (ok_or Unauthorized (mac key p)) (\<lambda>tag.
        if tag = signature then Ok () else Err Unauthorized)))))"

definition validate_operation_attestation_shape :: "ustr \<Rightarrow> (transport_error, unit) result" where
  "validate_operation_attestation_shape value =
     and_then (ok_or Unauthorized (strip_prefix value OPERATION_ATTESTATION_PREFIX)) (\<lambda>encoded.
     and_then (decode_sha256_hex encoded) (\<lambda>_. Ok ()))"

definition request_fingerprint :: "(u8 list \<Rightarrow> u8 list) \<Rightarrow> u8 list \<Rightarrow> ustr" where
  "request_fingerprint digest p = encode_hex (digest p)"

lemma decode_hex_pairs_error: "decode_hex_pairs bs = Err e \<Longrightarrow> e = Unauthorized"
  by (induction bs arbitrary: e rule: decode_hex_pairs.induct)
    (auto simp: result_simps decode_hex_nibble_def split: if_splits)

lemma decode_sha256_hex_error: "decode_sha256_hex s = Err e \<Longrightarrow> e = Unauthorized"
  by (auto simp: decode_sha256_hex_def dest: decode_hex_pairs_error split: if_splits)

lemma attestation_shape_error:
  "validate_operation_attestation_shape s = Err e \<Longrightarrow> e = Unauthorized"
  by (auto simp: validate_operation_attestation_shape_def result_simps
      dest: decode_sha256_hex_error)

lemma verify_error:
  "verify_operation_attestation mac to_vec key e value = Err err \<Longrightarrow>
   err = Unauthorized \<or> err = InvalidRequest"
  by (auto simp: verify_operation_attestation_def result_simps
      dest: decode_sha256_hex_error split: if_splits)

lemma verify_Ok_iff:
  "verify_operation_attestation mac to_vec key e value = Ok u \<longleftrightarrow>
     32 \<le> length key \<and>
     (\<exists>h p tag. value = OPERATION_ATTESTATION_PREFIX @ h \<and> to_vec e = Some p \<and>
        mac key p = Some tag \<and> decode_sha256_hex h = Ok tag)"
  by (cases "to_vec e")
    (auto simp: verify_operation_attestation_def MIN_OPERATION_HMAC_KEY_BYTES_def result_simps
      strip_prefix_Some_iff split: if_splits)

lemma verify_shape:
  "verify_operation_attestation mac to_vec key e value = Ok u \<Longrightarrow>
   validate_operation_attestation_shape value = Ok ()"
  by (auto simp: verify_Ok_iff validate_operation_attestation_shape_def)

section \<open>What the decoder accepts\<close>

lemma hex_char_of_digit:
  assumes "is_ascii_hexdigit v"
  obtains n where "decode_hex_nibble v = Ok n" "n < 16" "unat v < 128"
    "to_ascii_lowercase [unat v] = [hex_char n]"
proof -
  have sub: "unat (v - k) = unat v - unat k" if "unat k \<le> unat v" for k
    using that by (simp add: unat_sub word_le_nat_alt)
  have add: "unat (v - k + 10) = unat v - unat k + 10" if "unat k \<le> unat v" "unat v - unat k \<le> 5" for k
    using that sub [OF that(1)] by (simp add: unat_word_ariths)
  from assms consider "48 \<le> unat v" "unat v \<le> 57" | "97 \<le> unat v" "unat v \<le> 102"
    | "65 \<le> unat v" "unat v \<le> 70"
    by (auto simp: is_ascii_hexdigit_def word_le_nat_alt)
  then show thesis
  proof cases
    case 1
    then show ?thesis
      using sub [of 48]
      by (intro that [of "v - 48"])
        (auto simp: decode_hex_nibble_def word_le_nat_alt word_less_nat_alt hex_char_arith
          to_ascii_lowercase_def)
  next
    case 2
    then show ?thesis
      using add [of 97]
      by (intro that [of "v - 97 + 10"])
        (auto simp: decode_hex_nibble_def word_le_nat_alt word_less_nat_alt hex_char_arith
          to_ascii_lowercase_def)
  next
    case 3
    then show ?thesis
      using add [of 65]
      by (intro that [of "v - 65 + 10"])
        (auto simp: decode_hex_nibble_def word_le_nat_alt word_less_nat_alt hex_char_arith
          to_ascii_lowercase_def)
  qed
qed

lemma hexdigit_bytes_ascii: "list_all is_ascii_hexdigit (str_bytes s) \<Longrightarrow> ascii s"
  by (rule low_bytes_ascii) (auto simp: is_ascii_hexdigit_def word_le_nat_alt list_all_iff)

lemma lowercase_hexdigit:
  "to_ascii_lowercase [c] = [d] \<Longrightarrow> 48 \<le> d \<and> d \<le> 57 \<or> 97 \<le> d \<and> d \<le> 102 \<Longrightarrow>
   c < 128 \<and> is_ascii_hexdigit (word_of_nat c)"
proof -
  assume "to_ascii_lowercase [c] = [d]" "48 \<le> d \<and> d \<le> 57 \<or> 97 \<le> d \<and> d \<le> 102"
  then have c: "(48 \<le> c \<and> c \<le> 57) \<or> (97 \<le> c \<and> c \<le> 102) \<or> (65 \<le> c \<and> c \<le> 70)"
    by (auto simp: to_ascii_lowercase_def split: if_splits)
  then have "unat (word_of_nat c :: u8) = c" by (auto simp: unat_of_nat take_bit_eq_mod)
  with c show ?thesis by (auto simp: is_ascii_hexdigit_def word_le_nat_alt)
qed

lemma lowercase_encode_hex:
  "to_ascii_lowercase s = encode_hex bs \<Longrightarrow> ascii s \<and> list_all is_ascii_hexdigit (str_bytes s)"
proof -
  assume s: "to_ascii_lowercase s = encode_hex bs"
  have l: "to_ascii_lowercase [c] = [d] \<longleftrightarrow> d = (if 65 \<le> c \<and> c \<le> 90 then c + 32 else c)" for c d
    by (auto simp: to_ascii_lowercase_def)
  have "list_all (\<lambda>c. c < 128 \<and> is_ascii_hexdigit (word_of_nat c)) s"
    using encode_hex_lowercase [of bs] lowercase_hexdigit
    unfolding s [symmetric] to_ascii_lowercase_def l list_all_iff by force
  then have "ascii s" "list_all (\<lambda>c. is_ascii_hexdigit (word_of_nat c)) s"
    by (auto simp: ascii_def list_all_iff)
  then show ?thesis by (simp add: ascii_str_bytes list_all_iff)
qed

lemma decode_hex_pairs_iff:
  "list_all is_ascii_hexdigit bs \<Longrightarrow> even (length bs) \<Longrightarrow>
   decode_hex_pairs bs = Ok cs \<longleftrightarrow> to_ascii_lowercase (map unat bs) = encode_hex cs"
proof (induction bs arbitrary: cs rule: decode_hex_pairs.induct)
  case (1 a b r)
  from 1(2) have "is_ascii_hexdigit a" "is_ascii_hexdigit b" by simp_all
  then obtain x y where x: "decode_hex_nibble a = Ok x" "x < 16" "to_ascii_lowercase [unat a] = [hex_char x]"
    and y: "decode_hex_nibble b = Ok y" "y < 16" "to_ascii_lowercase [unat b] = [hex_char y]"
    by (metis hex_char_of_digit)
  obtain rs where rs: "decode_hex_pairs r = Ok rs" using 1(2,3) decode_hex_pairs_total [of r] by auto
  then have tl: "to_ascii_lowercase (map unat r) = encode_hex rs" using 1 x y by auto
  have join: "encode_hex ((push_bit 4 x OR y) # rs) = hex_char x # hex_char y # encode_hex rs"
    by (simp only: encode_hex_Cons nibble_join [OF x(2) y(2)])
  have "to_ascii_lowercase (map unat (a # b # r)) = encode_hex ((push_bit 4 x OR y) # rs)"
    unfolding join using x(3) y(3) tl by (simp add: to_ascii_lowercase_def)
  then show ?case using x y rs by (auto simp: encode_hex_inj)
next
  case "2_1"
  show ?case using encode_hex_inj [of "[]" cs] by (auto simp: to_ascii_lowercase_def)
qed auto

section \<open>Properties\<close>

text \<open>
  C36: The digest decoder accepts exactly the hexadecimal spellings of 32-byte
  digests, in either case: a text decodes to a digest if and only if the digest has 32
  bytes and the text in lower case is what \<open>encode_hex\<close> writes for it.
\<close>

theorem decode_sha256_hex_exact:
  "decode_sha256_hex s = Ok digest \<longleftrightarrow>
     length digest = 32 \<and> to_ascii_lowercase s = encode_hex digest"
proof
  assume d: "decode_sha256_hex s = Ok digest"
  then have h: "list_all is_ascii_hexdigit (str_bytes s)" "length (str_bytes s) = 64"
    and p: "decode_hex_pairs (str_bytes s) = Ok digest"
    by (auto simp: decode_sha256_hex_def str_len_def split: if_splits)
  have "ascii s" using h(1) by (rule hexdigit_bytes_ascii)
  then have "map unat (str_bytes s) = s"
    by (simp add: unat_str_bytes ascii_str_ok ascii_utf8_bytes)
  then show "length digest = 32 \<and> to_ascii_lowercase s = encode_hex digest"
    using decode_hex_pairs_iff [OF h(1), of digest] h(2) p decode_sha256_hex_length [OF d] by simp
next
  assume r: "length digest = 32 \<and> to_ascii_lowercase s = encode_hex digest"
  then have a: "ascii s" and h: "list_all is_ascii_hexdigit (str_bytes s)"
    using lowercase_encode_hex by blast+
  have "length (to_ascii_lowercase s) = 64" using r by simp
  then have l: "length s = 64" by (simp add: to_ascii_lowercase_def)
  have m: "map unat (str_bytes s) = s"
    using a by (simp add: unat_str_bytes ascii_str_ok ascii_utf8_bytes)
  have n: "length (str_bytes s) = 64"
    using ascii_str_len [OF a] l by (simp add: str_len_def)
  show "decode_sha256_hex s = Ok digest"
    using decode_hex_pairs_iff [OF h, of digest] r h m n
    by (simp add: decode_sha256_hex_def str_len_def)
qed

text \<open>
  C32: With a key of at least 32 bytes and a 32-byte tag, a signed envelope verifies under
  the same key, and the attestation also passes the shape check made before the key is
  consulted.
\<close>

theorem signed_attestation_verifies:
  assumes "sign_operation_attestation mac to_vec key e = Ok value"
    and "\<forall>p tag. mac key p = Some tag \<longrightarrow> length tag = 32"
  shows "verify_operation_attestation mac to_vec key e value = Ok () \<and>
    validate_operation_attestation_shape value = Ok ()"
proof -
  from assms(1) obtain p tag where "32 \<le> length key" "to_vec e = Some p" "mac key p = Some tag"
    "value = OPERATION_ATTESTATION_PREFIX @ encode_hex tag"
    by (auto simp: sign_operation_attestation_def MIN_OPERATION_HMAC_KEY_BYTES_def result_simps
        split: if_splits)
  with assms(2) have "verify_operation_attestation mac to_vec key e value = Ok ()"
    by (auto simp: verify_Ok_iff decode_encode_sha256)
  then show ?thesis using verify_shape by blast
qed

text \<open>
  One attestation authorises one envelope: if the same attestation verifies for two
  different envelopes that encode differently, the key's HMAC has a collision between
  their two encodings.
\<close>

lemma attestation_binds_envelope:
  assumes "verify_operation_attestation mac to_vec key e1 value = Ok ()"
    and "verify_operation_attestation mac to_vec key e2 value = Ok ()"
    and "to_vec e1 = to_vec e2 \<Longrightarrow> e1 = e2"
    and "e1 \<noteq> e2"
  shows "\<exists>p1 p2 tag. p1 \<noteq> p2 \<and> to_vec e1 = Some p1 \<and> to_vec e2 = Some p2 \<and>
    mac key p1 = Some tag \<and> mac key p2 = Some tag \<and> length tag = 32"
  using assms by (fastforce simp: verify_Ok_iff dest: decode_sha256_hex_length)

theorem signed_attestation_verifies_witness:
  "\<exists>value. sign_operation_attestation (\<lambda>_ _. Some (replicate 32 7)) (\<lambda>_. Some [123])
      (replicate 32 1) sample_envelope = Ok value \<and>
    verify_operation_attestation (\<lambda>_ _. Some (replicate 32 7)) (\<lambda>_. Some [123])
      (replicate 32 1) sample_envelope value = Ok ()"
proof -
  let ?att = "OPERATION_ATTESTATION_PREFIX @ encode_hex (replicate 32 7)"
  have s: "sign_operation_attestation (\<lambda>_ _. Some (replicate 32 7)) (\<lambda>_. Some [123])
      (replicate 32 1) sample_envelope = Ok ?att"
    by (simp add: sign_operation_attestation_def MIN_OPERATION_HMAC_KEY_BYTES_def)
  show ?thesis using signed_attestation_verifies [OF s] s by auto
qed

end
