(* ===== verification/Transport.thy ===== *)
theory Transport
  imports Attestation
begin

text \<open>
  The request path of \<open>src/transport_runtime.rs\<close>: an authenticated operation, its
  validation, the bounded processing of one payload, the per-connection loop of the mTLS
  listener and the admission of connections. The operation service is an interface, the
  contract of the trait \<open>OperationService\<close>; serde_json is a record of codec
  functions; what the environment decides (the clock, an elapsed timeout, a failed send)
  is an argument.
\<close>

section \<open>Constants\<close>

definition MAX_AUTHORIZATION_BYTES :: nat where
  "MAX_AUTHORIZATION_BYTES = 16 * 1024"

definition MAX_TRANSPORT_BYTES :: nat where
  "MAX_TRANSPORT_BYTES = 64 * 1024"

definition MAX_TCP_CONNECTIONS :: nat where
  "MAX_TCP_CONNECTIONS = 128"

definition MAX_CONCURRENT_OPERATIONS :: nat where
  "MAX_CONCURRENT_OPERATIONS = 32"

section \<open>Operations and replies\<close>

record authenticated_operation =
  authorization :: ustr
  envelope :: operation_envelope

record operation_reply =
  reply_operation_id :: "ustr option"
  reply_result :: "json option"
  reply_error :: "ustr option"

definition reply_ok :: "ustr \<Rightarrow> json \<Rightarrow> operation_reply" where
  "reply_ok op v = \<lparr>reply_operation_id = Some op, reply_result = Some v, reply_error = None\<rparr>"

definition reply_err :: "ustr option \<Rightarrow> ustr \<Rightarrow> operation_reply" where
  "reply_err op code = \<lparr>reply_operation_id = op, reply_result = None, reply_error = Some code\<rparr>"

text \<open>The JSON codecs the transports call.\<close>

record serde =
  envelope_to_vec :: "operation_envelope \<Rightarrow> u8 list option"
  operation_from_slice :: "u8 list \<Rightarrow> authenticated_operation option"
  operation_from_str :: "ustr \<Rightarrow> authenticated_operation option"
  reply_to_vec :: "operation_reply \<Rightarrow> u8 list option"
  value_from_str :: "ustr \<Rightarrow> json option"

section \<open>Validation\<close>

definition validate_authorization :: "ustr \<Rightarrow> (transport_error, unit) result" where
  "validate_authorization value =
     and_then (ok_or Unauthorized (strip_prefix value (lit ''Bearer ''))) (\<lambda>token.
       if str_len value > MAX_AUTHORIZATION_BYTES \<or> token = [] \<or> trim token \<noteq> token
          \<or> list_ex is_whitespace token
       then Err Unauthorized else Ok ())"

definition validate_operation ::
  "serde \<Rightarrow> u64 \<Rightarrow> authenticated_operation \<Rightarrow> web_api_mode \<Rightarrow> (transport_error, unit) result" where
  "validate_operation sd now r mode =
     and_then (case mode of
                 JetStreamAsync \<Rightarrow> validate_operation_attestation_shape (authorization r)
               | _ \<Rightarrow> validate_authorization (authorization r)) (\<lambda>_.
       map_err (\<lambda>_. InvalidRequest) (validate_for (envelope_to_vec sd) now (envelope r) mode))"

lemma validate_authorization_Ok_iff [result_simps]:
  "validate_authorization v = Ok u \<longleftrightarrow>
     (\<exists>token. v = lit ''Bearer '' @ token \<and> str_len v \<le> MAX_AUTHORIZATION_BYTES \<and>
        token \<noteq> [] \<and> \<not> list_ex is_whitespace token)"
proof (cases "strip_prefix v (lit ''Bearer '')")
  case None
  then show ?thesis by (auto simp: validate_authorization_def)
next
  case (Some token)
  then have "v = lit ''Bearer '' @ token" by (simp add: strip_prefix_Some_iff)
  with Some show ?thesis
    by (auto simp: validate_authorization_def no_whitespace_trim)
qed

lemma validate_authorization_error: "validate_authorization v = Err e \<Longrightarrow> e = Unauthorized"
  by (auto simp: validate_authorization_def result_simps split: if_splits)

lemma validate_operation_Ok_iff:
  "validate_operation sd now r mode = Ok u \<longleftrightarrow>
     (if mode = JetStreamAsync
      then is_ok (validate_operation_attestation_shape (authorization r))
      else is_ok (validate_authorization (authorization r))) \<and>
     is_ok (validate_for (envelope_to_vec sd) now (envelope r) mode)"
  by (cases mode) (auto simp: validate_operation_def result_simps is_ok_iff)

lemma validate_operation_error:
  "validate_operation sd now r mode = Err e \<Longrightarrow> e = Unauthorized \<or> e = InvalidRequest"
  by (cases mode)
    (auto simp: validate_operation_def result_simps
      dest: validate_authorization_error attestation_shape_error)

section \<open>Processing one payload\<close>

text \<open>
  \<open>process_payload\<close>. The service call is raced against \<open>OPERATION_TIMEOUT\<close>;
  whether the timer wins is the argument \<open>timed_out\<close>.
\<close>

type_synonym service = "authenticated_operation \<Rightarrow> web_api_mode \<Rightarrow> (transport_error, json) result"

definition process_payload ::
  "serde \<Rightarrow> service \<Rightarrow> u64 \<Rightarrow> bool \<Rightarrow> u8 list \<Rightarrow> web_api_mode \<Rightarrow> operation_reply" where
  "process_payload sd execute now timed_out bytes mode =
     (if length bytes > MAX_TRANSPORT_BYTES then reply_err None (lit ''invalid_request'')
      else case operation_from_slice sd bytes of
        None \<Rightarrow> reply_err None (lit ''invalid_request'')
      | Some request \<Rightarrow>
          let op = operation_id (envelope request) in
          (case validate_operation sd now request mode of
             Err error \<Rightarrow> reply_err (Some op) (transport_error_code error)
           | Ok _ \<Rightarrow>
               if timed_out then reply_err (Some op) (transport_error_code Timeout)
               else (case execute request mode of
                       Ok result \<Rightarrow> reply_ok op result
                     | Err error \<Rightarrow> reply_err (Some op) (transport_error_code error))))"

text \<open>
  The contract of the trait: a result is returned only after the request was
  authenticated for its mode. \<open>authentic\<close> is the provider's notion of that.
\<close>

locale operation_service =
  fixes execute :: service
    and authentic :: "authenticated_operation \<Rightarrow> web_api_mode \<Rightarrow> bool"
  assumes execute_authentic: "execute r mode = Ok v \<Longrightarrow> authentic r mode"
begin

lemma process_payload_result:
  assumes "reply_result (process_payload sd execute now timed_out bytes mode) = Some v"
  obtains r where "operation_from_slice sd bytes = Some r" "length bytes \<le> MAX_TRANSPORT_BYTES"
    "validate_operation sd now r mode = Ok ()" "\<not> timed_out" "execute r mode = Ok v"
    "authentic r mode"
    "process_payload sd execute now timed_out bytes mode = reply_ok (operation_id (envelope r)) v"
  using assms execute_authentic
  by (auto simp: process_payload_def reply_err_def reply_ok_def Let_def
      split: if_splits option.splits sum.splits)

lemma process_payload_authentic:
  assumes "reply_error (process_payload sd execute now timed_out bytes mode) = None"
  shows "\<exists>r. operation_from_slice sd bytes = Some r \<and> authentic r mode \<and>
    is_ok (validate_operation sd now r mode)"
  using assms execute_authentic
  by (auto simp: process_payload_def reply_err_def reply_ok_def Let_def
      split: if_splits option.splits sum.splits)

end

lemma process_payload_shape:
  "(reply_result (process_payload sd execute now t bytes mode) = None) \<noteq>
   (reply_error (process_payload sd execute now t bytes mode) = None)"
  by (auto simp: process_payload_def reply_err_def reply_ok_def Let_def
      split: option.splits sum.splits)

definition reply_codes :: "ustr list" where
  "reply_codes = map lit [''invalid_request'', ''unauthorized'', ''auth_unavailable'',
     ''unsupported_operation'', ''operation_timeout'', ''temporarily_unavailable'']"

lemma transport_error_code_in: "transport_error_code e \<in> set reply_codes"
  by (cases e) (simp_all add: reply_codes_def)

lemma process_payload_code:
  "reply_error (process_payload sd execute now t bytes mode) = Some c \<Longrightarrow> c \<in> set reply_codes"
  using transport_error_code_in
  by (auto simp: process_payload_def reply_err_def reply_ok_def Let_def reply_codes_def
      simp del: transport_error_code.simps split: if_splits option.splits sum.splits)

section \<open>The connection loop of the mTLS listener\<close>

text \<open>
  One item per turn of the loop: the frame the codec yields (or its error), the clock and
  timer for its processing, and the fate of the send. The loop ends with the stream, or at
  the first reply that cannot be encoded, is too large or cannot be sent.
\<close>

datatype frame_item = Frame "u8 list" | FrameError

datatype send_outcome = Sent | SendTimedOut | SendFailed

record connection_turn =
  turn_item :: frame_item
  turn_now :: u64
  turn_timed_out :: bool
  turn_send :: send_outcome

definition turn_reply :: "serde \<Rightarrow> service \<Rightarrow> connection_turn \<Rightarrow> operation_reply" where
  "turn_reply sd execute t =
     (case turn_item t of
        Frame bytes \<Rightarrow> process_payload sd execute (turn_now t) (turn_timed_out t) bytes StatefulMtlsTcp
      | FrameError \<Rightarrow> reply_err None (lit ''invalid_request''))"

fun serve_tls_connection ::
  "serde \<Rightarrow> service \<Rightarrow> connection_turn list \<Rightarrow> (transport_error, unit) result \<times> u8 list list" where
  "serve_tls_connection sd execute [] = (Ok (), [])"
| "serve_tls_connection sd execute (t # ts) =
     (case reply_to_vec sd (turn_reply sd execute t) of
        None \<Rightarrow> (Err Transport, [])
      | Some encoded \<Rightarrow>
          if length encoded > MAX_TRANSPORT_BYTES then (Err Transport, [])
          else (case turn_send t of
                  SendTimedOut \<Rightarrow> (Err Timeout, [])
                | SendFailed \<Rightarrow> (Err Transport, [])
                | Sent \<Rightarrow>
                    let (r, sent) = serve_tls_connection sd execute ts in (r, encoded # sent)))"

lemma serve_tls_connection_sent:
  "encoded \<in> set (snd (serve_tls_connection sd execute ts)) \<Longrightarrow>
   length encoded \<le> MAX_TRANSPORT_BYTES \<and>
   (\<exists>t \<in> set ts. reply_to_vec sd (turn_reply sd execute t) = Some encoded)"
  by (induction ts)
    (auto simp: not_less split: option.splits if_splits send_outcome.splits prod.splits)

lemma serve_tls_connection_prefix:
  "snd (serve_tls_connection sd execute ts) =
   map (\<lambda>t. the (reply_to_vec sd (turn_reply sd execute t)))
     (take (length (snd (serve_tls_connection sd execute ts))) ts)"
  by (induction ts) (auto split: option.splits send_outcome.splits prod.splits)

end
