(* ===== verification/Journal.thy ===== *)
theory Journal
  imports Transport
begin

text \<open>
  The durable journal of \<open>src/transport_runtime.rs\<close> over the schema of
  \<open>migrations/0001_durable_operations.sql\<close>: three tables, one definition per SQL
  statement, and the five operations of \<open>SeaOrmOperationJournal\<close> as transactions over
  them. A fault of the database is an argument: a transaction that cannot begin, a
  statement that fails, a commit that is refused or whose acknowledgement is lost.

  One point of the SQL engine matters to the code and is a parameter: whether the NOT NULL
  and CHECK constraints of a row proposed by INSERT ... ON CONFLICT are checked before the
  conflict is looked for (\<open>ChecksFirst\<close>, what PostgreSQL does) or only for a row that
  is really inserted (\<open>ConflictFirst\<close>).
\<close>

section \<open>Tables\<close>

record inbox_row =
  in_subject :: ustr
  in_request_hash :: ustr
  in_status :: ustr
  in_result_json :: "ustr option"
  in_received_at :: nat
  in_completed_at :: "nat option"

record status_row =
  st_subject :: ustr
  st_status :: ustr
  st_result_json :: "ustr option"
  st_updated_at :: nat

record outbox_row =
  ob_operation_id :: ustr
  ob_subject :: ustr
  ob_payload_json :: ustr
  ob_created_at :: nat
  ob_delivered_at :: "nat option"

record database =
  inbox :: "ustr \<Rightarrow> inbox_row option"
  status_table :: "ustr \<Rightarrow> status_row option"
  outbox :: "ustr \<Rightarrow> outbox_row option"

definition empty_database :: database where
  "empty_database = \<lparr>inbox = Map.empty, status_table = Map.empty, outbox = Map.empty\<rparr>"

definition PROCESSING :: ustr where
  "PROCESSING = lit ''processing''"

definition COMPLETED :: ustr where
  "COMPLETED = lit ''completed''"

lemma PROCESSING_COMPLETED [simp]: "PROCESSING \<noteq> COMPLETED" "COMPLETED \<noteq> PROCESSING"
  by (simp_all add: PROCESSING_def COMPLETED_def)

subsection \<open>Constraints of the schema\<close>

definition id_check :: "ustr \<Rightarrow> bool" where
  "id_check s \<longleftrightarrow> in_range 1 128 (length s)"

definition subject_check :: "ustr \<Rightarrow> bool" where
  "subject_check s \<longleftrightarrow> in_range 1 256 (length s)"

definition hash_check :: "ustr \<Rightarrow> bool" where
  "hash_check s \<longleftrightarrow>
     length s = 64 \<and> list_all (\<lambda>c. 48 \<le> c \<and> c \<le> 57 \<or> 97 \<le> c \<and> c \<le> 102) s"

definition status_check :: "ustr \<Rightarrow> bool" where
  "status_check s \<longleftrightarrow> s = PROCESSING \<or> s = COMPLETED"

definition result_check :: "ustr option \<Rightarrow> bool" where
  "result_check r \<longleftrightarrow> (case r of None \<Rightarrow> True | Some s \<Rightarrow> str_len s \<le> 65536)"

definition inbox_row_ok :: "ustr \<Rightarrow> inbox_row \<Rightarrow> bool" where
  "inbox_row_ok op r \<longleftrightarrow>
     id_check op \<and> subject_check (in_subject r) \<and> hash_check (in_request_hash r) \<and>
     status_check (in_status r) \<and> result_check (in_result_json r) \<and>
     (in_status r = PROCESSING \<and> in_completed_at r = None \<or>
      in_status r = COMPLETED \<and> in_completed_at r \<noteq> None)"

text \<open>A status row as an INSERT proposes it: a column it does not list is NULL.\<close>

definition status_row_ok :: "ustr \<Rightarrow> ustr option \<Rightarrow> ustr \<Rightarrow> ustr option \<Rightarrow> bool" where
  "status_row_ok op subj st res \<longleftrightarrow>
     id_check op \<and> (case subj of None \<Rightarrow> False | Some s \<Rightarrow> subject_check s) \<and>
     status_check st \<and> result_check res"

definition outbox_row_ok :: "database \<Rightarrow> ustr \<Rightarrow> outbox_row \<Rightarrow> bool" where
  "outbox_row_ok db ev r \<longleftrightarrow>
     id_check ev \<and> inbox db (ob_operation_id r) \<noteq> None \<and>
     ob_subject r = lit ''act.results.api.v1'' \<and> str_len (ob_payload_json r) \<le> 65536"

section \<open>Statements\<close>

datatype engine = ChecksFirst | ConflictFirst

text \<open>
  INSERT ... ON CONFLICT: the row's constraints, whether its key is taken, what the
  conflict clause does, and the insertion. The result is the number of affected rows and
  the new tables, or an error.
\<close>

definition insert_on_conflict ::
  "engine \<Rightarrow> bool \<Rightarrow> bool \<Rightarrow> (unit, nat \<times> database) result \<Rightarrow> database \<Rightarrow>
   (unit, nat \<times> database) result" where
  "insert_on_conflict eng row_ok taken on_conflict inserted =
     (case eng of
        ChecksFirst \<Rightarrow>
          if \<not> row_ok then Err ()
          else if taken then on_conflict else Ok (1, inserted)
      | ConflictFirst \<Rightarrow>
          if taken then on_conflict
          else if row_ok then Ok (1, inserted) else Err ())"

definition claim_inbox_sql ::
  "engine \<Rightarrow> nat \<Rightarrow> ustr \<Rightarrow> ustr \<Rightarrow> ustr \<Rightarrow> database \<Rightarrow> (unit, nat \<times> database) result" where
  "claim_inbox_sql eng now op subj hash db =
     (let row = \<lparr>in_subject = subj, in_request_hash = hash, in_status = PROCESSING,
                 in_result_json = None, in_received_at = now, in_completed_at = None\<rparr>
      in insert_on_conflict eng (inbox_row_ok op row) (inbox db op \<noteq> None) (Ok (0, db))
           (db\<lparr>inbox := (inbox db)(op \<mapsto> row)\<rparr>))"

definition upsert_processing_status_sql ::
  "engine \<Rightarrow> nat \<Rightarrow> ustr \<Rightarrow> ustr \<Rightarrow> database \<Rightarrow> (unit, nat \<times> database) result" where
  "upsert_processing_status_sql eng now op subj db =
     (let row = \<lparr>st_subject = subj, st_status = PROCESSING, st_result_json = None,
                 st_updated_at = now\<rparr>
      in insert_on_conflict eng (status_row_ok op (Some subj) PROCESSING None)
           (status_table db op \<noteq> None) (Ok (0, db))
           (db\<lparr>status_table := (status_table db)(op \<mapsto> row)\<rparr>))"

definition complete_inbox_sql ::
  "nat \<Rightarrow> ustr \<Rightarrow> ustr \<Rightarrow> database \<Rightarrow> (unit, nat \<times> database) result" where
  "complete_inbox_sql now op res db =
     (case inbox db op of
        None \<Rightarrow> Ok (0, db)
      | Some r \<Rightarrow>
          if in_status r \<noteq> PROCESSING then Ok (0, db)
          else
            let row = r\<lparr>in_status := COMPLETED, in_result_json := Some res,
                        in_completed_at := Some now\<rparr>
            in if inbox_row_ok op row
               then Ok (1, db\<lparr>inbox := (inbox db)(op \<mapsto> row)\<rparr>) else Err ())"

text \<open>The column list of this INSERT has no \<open>subject\<close>, so it proposes NULL for it.\<close>

definition upsert_completed_status_sql ::
  "engine \<Rightarrow> nat \<Rightarrow> ustr \<Rightarrow> ustr \<Rightarrow> database \<Rightarrow> (unit, nat \<times> database) result" where
  "upsert_completed_status_sql eng now op res db =
     insert_on_conflict eng (status_row_ok op None COMPLETED (Some res))
       (status_table db op \<noteq> None)
       (case status_table db op of
          None \<Rightarrow> Err ()
        | Some r \<Rightarrow>
            if status_row_ok op (Some (st_subject r)) COMPLETED (Some res)
            then Ok (1, db\<lparr>status_table := (status_table db)(op \<mapsto>
                   r\<lparr>st_status := COMPLETED, st_result_json := Some res,
                     st_updated_at := now\<rparr>)\<rparr>)
            else Err ())
       db"

definition insert_outbox_sql ::
  "engine \<Rightarrow> nat \<Rightarrow> ustr \<Rightarrow> ustr \<Rightarrow> ustr \<Rightarrow> database \<Rightarrow> (unit, nat \<times> database) result" where
  "insert_outbox_sql eng now op subj body db =
     (let row = \<lparr>ob_operation_id = op, ob_subject = subj, ob_payload_json = body,
                 ob_created_at = now, ob_delivered_at = None\<rparr>
      in insert_on_conflict eng (outbox_row_ok db op row) (outbox db op \<noteq> None) (Ok (0, db))
           (db\<lparr>outbox := (outbox db)(op \<mapsto> row)\<rparr>))"

definition read_outbox_sql :: "ustr \<Rightarrow> database \<Rightarrow> (ustr \<times> ustr) option" where
  "read_outbox_sql op db =
     (case outbox db op of
        None \<Rightarrow> None
      | Some r \<Rightarrow> if ob_delivered_at r = None then Some (ob_subject r, ob_payload_json r) else None)"

definition mark_outbox_sql :: "nat \<Rightarrow> ustr \<Rightarrow> database \<Rightarrow> database" where
  "mark_outbox_sql now op db =
     (case outbox db op of
        None \<Rightarrow> db
      | Some r \<Rightarrow>
          if ob_delivered_at r = None
          then db\<lparr>outbox := (outbox db)(op \<mapsto> r\<lparr>ob_delivered_at := Some now\<rparr>)\<rparr> else db)"

definition read_status_sql :: "ustr \<Rightarrow> ustr \<Rightarrow> database \<Rightarrow> (ustr \<times> ustr option) option" where
  "read_status_sql op subj db =
     (case status_table db op of
        None \<Rightarrow> None
      | Some r \<Rightarrow> if st_subject r = subj then Some (st_status r, st_result_json r) else None)"

section \<open>Transactions and their faults\<close>

datatype commit_outcome = Committed | CommitRefused | AcknowledgementLost

record db_env =
  db_now :: nat
  begins :: bool
  statement_ok :: "nat \<Rightarrow> bool"
  commits :: commit_outcome

text \<open>The \<open>i\<close>-th statement of a call, run on the tables the transaction sees.\<close>

definition run_statement ::
  "db_env \<Rightarrow> nat \<Rightarrow> (unit, 'a) result \<Rightarrow> (transport_error, 'a) result" where
  "run_statement env i r =
     (if statement_ok env i then map_err (\<lambda>_. Database) r else Err Database)"

text \<open>The end of a transaction: the call's value, and the tables before and after it.\<close>

definition commit_transaction ::
  "db_env \<Rightarrow> database \<Rightarrow> (transport_error, 'a) result \<Rightarrow> database \<Rightarrow>
   (transport_error, 'a) result \<times> database" where
  "commit_transaction env before r after =
     (case commits env of
        Committed \<Rightarrow> (r, after)
      | CommitRefused \<Rightarrow> (Err Database, before)
      | AcknowledgementLost \<Rightarrow> (Err Database, after))"

section \<open>The journal's operations\<close>

datatype journal_claim = New | Replay "u8 list" | Processing | Conflict

record operation_status =
  os_operation_id :: ustr
  os_status :: ustr
  os_result :: "json option"

text \<open>Reading back the row another claim has left.\<close>

definition classify_claim ::
  "ustr \<Rightarrow> ustr \<Rightarrow> inbox_row \<Rightarrow> (transport_error, journal_claim) result" where
  "classify_claim hash subj row =
     (if in_request_hash row \<noteq> hash \<or> in_subject row \<noteq> subj then Ok Conflict
      else if in_status row = PROCESSING then Ok Processing
      else if in_status row = COMPLETED
      then (case in_result_json row of
              Some res \<Rightarrow> Ok (Replay (str_bytes res))
            | None \<Rightarrow> Err InvalidState)
      else Err InvalidState)"

definition claim ::
  "engine \<Rightarrow> (u8 list \<Rightarrow> u8 list) \<Rightarrow> db_env \<Rightarrow> ustr \<Rightarrow> ustr \<Rightarrow> ustr \<Rightarrow> database \<Rightarrow>
   (transport_error, journal_claim) result \<times> database" where
  "claim eng digest env op subj request_json db =
     (let hash = request_fingerprint digest (str_bytes request_json) in
      if \<not> begins env then (Err Database, db)
      else case run_statement env 0 (claim_inbox_sql eng (db_now env) op subj hash db) of
        Err e \<Rightarrow> (Err e, db)
      | Ok (rows, db1) \<Rightarrow>
          if rows = 1
          then (case run_statement env 1
                       (upsert_processing_status_sql eng (db_now env) op subj db1) of
                  Err e \<Rightarrow> (Err e, db)
                | Ok (_, db2) \<Rightarrow> commit_transaction env db (Ok New) db2)
          else (case run_statement env 1 (Ok (inbox db1 op)) of
                  Err e \<Rightarrow> (Err e, db)
                | Ok None \<Rightarrow> (Err InvalidState, db)
                | Ok (Some row) \<Rightarrow>
                    commit_transaction env db (classify_claim hash subj row) db1))"

definition complete ::
  "engine \<Rightarrow> db_env \<Rightarrow> ustr \<Rightarrow> u8 list \<Rightarrow> database \<Rightarrow>
   (transport_error, unit) result \<times> database" where
  "complete eng env op result_json db =
     (case from_utf8 result_json of
        None \<Rightarrow> (Err InvalidState, db)
      | Some res \<Rightarrow>
          if \<not> begins env then (Err Database, db)
          else case run_statement env 0 (complete_inbox_sql (db_now env) op res db) of
            Err e \<Rightarrow> (Err e, db)
          | Ok (rows, db1) \<Rightarrow>
              if rows \<noteq> 1 then (Err InvalidState, db)
              else case run_statement env 1
                          (upsert_completed_status_sql eng (db_now env) op res db1) of
                Err e \<Rightarrow> (Err e, db)
              | Ok (_, db2) \<Rightarrow>
                  (case run_statement env 2
                          (insert_outbox_sql eng (db_now env) op
                             (lit ''act.results.api.v1'') res db2) of
                     Err e \<Rightarrow> (Err e, db)
                   | Ok (_, db3) \<Rightarrow> commit_transaction env db (Ok ()) db3))"

definition pending_result ::
  "db_env \<Rightarrow> ustr \<Rightarrow> database \<Rightarrow> (transport_error, (ustr \<times> u8 list) option) result" where
  "pending_result env op db =
     run_statement env 0
       (Ok (map_option (\<lambda>(subj, body). (subj, str_bytes body)) (read_outbox_sql op db)))"

definition mark_result_published ::
  "db_env \<Rightarrow> ustr \<Rightarrow> database \<Rightarrow> (transport_error, unit) result \<times> database" where
  "mark_result_published env op db =
     (if \<not> statement_ok env 0 then (Err Database, db)
      else commit_transaction env db (Ok ()) (mark_outbox_sql (db_now env) op db))"

definition journal_status ::
  "serde \<Rightarrow> db_env \<Rightarrow> ustr \<Rightarrow> ustr \<Rightarrow> database \<Rightarrow>
   (transport_error, operation_status option) result" where
  "journal_status sd env op subj db =
     and_then (run_statement env 0 (Ok (read_status_sql op subj db))) (\<lambda>row.
       case row of
         None \<Rightarrow> Ok None
       | Some (st, None) \<Rightarrow>
           Ok (Some \<lparr>os_operation_id = op, os_status = st, os_result = None\<rparr>)
       | Some (st, Some text) \<Rightarrow>
           and_then (ok_or InvalidState (value_from_str sd text)) (\<lambda>v.
           Ok (Some \<lparr>os_operation_id = op, os_status = st, os_result = Some v\<rparr>)))"

section \<open>The invariant of the three tables\<close>

text \<open>
  Every operation is in one of three states: unknown to all tables; claimed, with a
  processing inbox row and its status; or completed, with the same result in the inbox, the
  status and the outbox. Nothing else is ever committed.
\<close>

definition status_agrees :: "inbox_row \<Rightarrow> status_row \<Rightarrow> bool" where
  "status_agrees r s \<longleftrightarrow>
     st_subject s = in_subject r \<and> st_status s = in_status r \<and> st_result_json s = in_result_json r"

definition outbox_agrees :: "ustr \<Rightarrow> ustr \<Rightarrow> outbox_row \<Rightarrow> bool" where
  "outbox_agrees op res b \<longleftrightarrow>
     ob_operation_id b = op \<and> ob_subject b = lit ''act.results.api.v1'' \<and> ob_payload_json b = res"

definition op_consistent :: "database \<Rightarrow> ustr \<Rightarrow> bool" where
  "op_consistent db op =
     (case inbox db op of
        None \<Rightarrow> status_table db op = None \<and> outbox db op = None
      | Some r \<Rightarrow>
          inbox_row_ok op r \<and>
          (case status_table db op of None \<Rightarrow> False | Some s \<Rightarrow> status_agrees r s) \<and>
          (if in_status r = PROCESSING then in_result_json r = None \<and> outbox db op = None
           else case (in_result_json r, outbox db op) of
                  (Some res, Some b) \<Rightarrow> str_ok res \<and> outbox_agrees op res b
                | _ \<Rightarrow> False))"

definition journal_wf :: "database \<Rightarrow> bool" where
  "journal_wf db \<longleftrightarrow> (\<forall>op. op_consistent db op)"

definition same_elsewhere :: "ustr \<Rightarrow> database \<Rightarrow> database \<Rightarrow> bool" where
  "same_elsewhere op db db' \<longleftrightarrow>
     (\<forall>o'. o' \<noteq> op \<longrightarrow> inbox db' o' = inbox db o' \<and> status_table db' o' = status_table db o' \<and>
        outbox db' o' = outbox db o')"

lemma journal_wf_empty: "journal_wf empty_database"
  by (simp add: journal_wf_def op_consistent_def empty_database_def)

lemma journal_wf_D: "journal_wf db \<Longrightarrow> op_consistent db op"
  by (simp add: journal_wf_def)

lemma unknown_everywhere:
  "journal_wf db \<Longrightarrow> inbox db op = None \<Longrightarrow> status_table db op = None \<and> outbox db op = None"
  using journal_wf_D [of db op] by (simp add: op_consistent_def)

lemma journal_wf_update:
  "journal_wf db \<Longrightarrow> same_elsewhere op db db' \<Longrightarrow> op_consistent db' op \<Longrightarrow> journal_wf db'"
  unfolding journal_wf_def
proof
  fix o'
  assume wf: "\<forall>o'. op_consistent db o'" and same: "same_elsewhere op db db'"
    and op: "op_consistent db' op"
  show "op_consistent db' o'"
  proof (cases "o' = op")
    case False
    with same have "inbox db' o' = inbox db o'" "status_table db' o' = status_table db o'"
      "outbox db' o' = outbox db o'" by (auto simp: same_elsewhere_def)
    then have "op_consistent db' o' = op_consistent db o'" by (simp only: op_consistent_def)
    with wf show ?thesis by simp
  qed (simp add: op)
qed

subsection \<open>What a claim commits\<close>

definition claimed :: "nat \<Rightarrow> ustr \<Rightarrow> ustr \<Rightarrow> ustr \<Rightarrow> database \<Rightarrow> database" where
  "claimed now op subj hash db =
     db\<lparr>inbox := (inbox db)(op \<mapsto>
          \<lparr>in_subject = subj, in_request_hash = hash, in_status = PROCESSING,
           in_result_json = None, in_received_at = now, in_completed_at = None\<rparr>),
        status_table := (status_table db)(op \<mapsto>
          \<lparr>st_subject = subj, st_status = PROCESSING, st_result_json = None,
           st_updated_at = now\<rparr>)\<rparr>"

lemma claimed_simps [simp]:
  "inbox (claimed now op subj hash db) = (inbox db)(op \<mapsto>
     \<lparr>in_subject = subj, in_request_hash = hash, in_status = PROCESSING,
      in_result_json = None, in_received_at = now, in_completed_at = None\<rparr>)"
  "status_table (claimed now op subj hash db) = (status_table db)(op \<mapsto>
     \<lparr>st_subject = subj, st_status = PROCESSING, st_result_json = None,
      st_updated_at = now\<rparr>)"
  "outbox (claimed now op subj hash db) = outbox db"
  by (simp_all add: claimed_def)

definition claim_checks :: "ustr \<Rightarrow> ustr \<Rightarrow> ustr \<Rightarrow> bool" where
  "claim_checks op subj hash \<longleftrightarrow> id_check op \<and> subject_check subj \<and> hash_check hash"

lemma claim_inbox_sql_fresh:
  "inbox db op = None \<Longrightarrow>
   claim_inbox_sql eng now op subj hash db =
     (if claim_checks op subj hash
      then Ok (1, db\<lparr>inbox := (inbox db)(op \<mapsto>
          \<lparr>in_subject = subj, in_request_hash = hash, in_status = PROCESSING,
           in_result_json = None, in_received_at = now, in_completed_at = None\<rparr>)\<rparr>)
      else Err ())"
  by (cases eng)
    (auto simp: claim_inbox_sql_def insert_on_conflict_def inbox_row_ok_def claim_checks_def
      status_check_def result_check_def)

lemma claim_inbox_sql_taken:
  "inbox db op \<noteq> None \<Longrightarrow> claim_inbox_sql eng now op subj hash db \<in> {Ok (0, db), Err ()}"
  by (cases eng) (auto simp: claim_inbox_sql_def insert_on_conflict_def Let_def)

lemma upsert_processing_status_fresh:
  "status_table db op = None \<Longrightarrow> claim_checks op subj hash \<Longrightarrow>
   upsert_processing_status_sql eng now op subj db =
     Ok (1, db\<lparr>status_table := (status_table db)(op \<mapsto>
          \<lparr>st_subject = subj, st_status = PROCESSING, st_result_json = None,
           st_updated_at = now\<rparr>)\<rparr>)"
  by (cases eng)
    (auto simp: upsert_processing_status_sql_def insert_on_conflict_def status_row_ok_def
      claim_checks_def status_check_def result_check_def)

lemma run_statement_Ok_iff [result_simps]:
  "run_statement env i r = Ok x \<longleftrightarrow> statement_ok env i \<and> r = Ok x"
  by (auto simp: run_statement_def result_simps)

lemma run_statement_Err: "run_statement env i r = Err e \<Longrightarrow> e = Database"
  by (auto simp: run_statement_def result_simps split: if_splits)

lemma commit_transaction_same: "snd (commit_transaction env db r db) = db"
  by (simp add: commit_transaction_def split: commit_outcome.splits)

lemma commit_transaction_cases:
  "commit_transaction env db r db1 = (r', db') \<Longrightarrow>
   (r' = r \<and> db' = db1 \<and> commits env = Committed) \<or> (r' = Err Database \<and> db' \<in> {db, db1})"
  by (auto simp: commit_transaction_def split: commit_outcome.splits)

lemma claim_fresh:
  fixes digest :: "u8 list \<Rightarrow> u8 list" and req :: ustr
  assumes "inbox db op = None" and "status_table db op = None"
  defines "hash \<equiv> request_fingerprint digest (str_bytes req)"
  shows "claim eng digest env op subj req db =
    (if begins env \<and> statement_ok env 0 \<and> statement_ok env 1 \<and> claim_checks op subj hash
     then commit_transaction env db (Ok New) (claimed (db_now env) op subj hash db)
     else (Err Database, db))"
proof -
  let ?now = "db_now env"
  let ?db1 = "db\<lparr>inbox := (inbox db)(op \<mapsto>
      \<lparr>in_subject = subj, in_request_hash = hash, in_status = PROCESSING,
       in_result_json = None, in_received_at = ?now, in_completed_at = None\<rparr>)\<rparr>"
  have 1: "claim_inbox_sql eng ?now op subj hash db =
      (if claim_checks op subj hash then Ok (1, ?db1) else Err ())"
    by (rule claim_inbox_sql_fresh [OF assms(1)])
  have "status_table ?db1 op = None" using assms(2) by simp
  then have 2: "claim_checks op subj hash \<Longrightarrow>
      upsert_processing_status_sql eng ?now op subj ?db1 = Ok (1, claimed ?now op subj hash db)"
    by (subst upsert_processing_status_fresh) (simp_all add: claimed_def)
  show ?thesis
    unfolding claim_def Let_def hash_def [symmetric]
    by (cases "begins env"; cases "statement_ok env 0"; cases "statement_ok env 1";
        cases "claim_checks op subj hash")
      (simp_all add: run_statement_def 1 2 del: claimed_simps)
qed

lemma claim_seen:
  fixes digest :: "u8 list \<Rightarrow> u8 list" and req :: ustr
  assumes "inbox db op = Some row"
  defines "hash \<equiv> request_fingerprint digest (str_bytes req)"
  shows "claim eng digest env op subj req db = (Err Database, db) \<or>
    claim eng digest env op subj req db = commit_transaction env db (classify_claim hash subj row) db"
proof -
  have "claim_inbox_sql eng (db_now env) op subj hash db \<in> {Ok (0, db), Err ()}"
    using assms(1) by (intro claim_inbox_sql_taken) simp
  then show ?thesis
    using assms(1) unfolding claim_def Let_def hash_def [symmetric]
    by (cases "begins env"; cases "statement_ok env 0"; cases "statement_ok env 1")
      (auto simp: run_statement_def)
qed

text \<open>All a claim can do: leave the tables, or commit a fresh claim.\<close>

lemma claim_cases:
  assumes wf: "journal_wf db" and c: "claim eng digest env op subj req db = (r, db')"
  defines "hash \<equiv> request_fingerprint digest (str_bytes req)"
  obtains (failed) "r = Err Database" "db' = db"
  | (seen) row where "inbox db op = Some row" "r = classify_claim hash subj row" "db' = db"
  | (fresh) "inbox db op = None" "claim_checks op subj hash" "db' = claimed (db_now env) op subj hash db"
      "r = Ok New \<or> r = Err Database"
proof (cases "inbox db op")
  case None
  with wf have st: "status_table db op = None" by (simp add: unknown_everywhere)
  note v = claim_fresh [OF None st, of eng digest env subj req, folded hash_def]
  show thesis
  proof (cases "begins env \<and> statement_ok env 0 \<and> statement_ok env 1 \<and> claim_checks op subj hash")
    case True
    with v c have "commit_transaction env db (Ok New) (claimed (db_now env) op subj hash db) = (r, db')"
      by simp
    from commit_transaction_cases [OF this] show thesis
      using True None failed fresh by blast
  next
    case False
    with v c have "r = Err Database" "db' = db" by (simp_all split: if_splits)
    then show thesis by (rule failed)
  qed
next
  case (Some row)
  from claim_seen [OF this, of eng digest env subj req, folded hash_def] c
  consider "(r, db') = (Err Database, db)"
    | "commit_transaction env db (classify_claim hash subj row) db = (r, db')" by auto
  then show thesis
  proof cases
    case 1
    then show thesis using failed by simp
  next
    case 2
    from commit_transaction_cases [OF this] show thesis using Some failed seen by blast
  qed
qed

lemma same_elsewhere_refl [simp]: "same_elsewhere op db db"
  by (simp add: same_elsewhere_def)

lemma same_elsewhere_claimed: "same_elsewhere op db (claimed now op subj hash db)"
  by (simp add: same_elsewhere_def)

lemma claimed_row_ok:
  "claim_checks op subj hash \<Longrightarrow>
   inbox_row_ok op \<lparr>in_subject = subj, in_request_hash = hash, in_status = PROCESSING,
     in_result_json = None, in_received_at = now, in_completed_at = None\<rparr>"
  by (simp add: inbox_row_ok_def claim_checks_def status_check_def result_check_def)

lemma claimed_consistent:
  "claim_checks op subj hash \<Longrightarrow> outbox db op = None \<Longrightarrow>
   op_consistent (claimed now op subj hash db) op"
  by (simp add: op_consistent_def claimed_row_ok status_agrees_def)

lemma claim_wf:
  assumes wf: "journal_wf db" and c: "claim eng digest env op subj req db = (r, db')"
  shows "journal_wf db' \<and> same_elsewhere op db db'"
  using wf c
proof (cases rule: claim_cases)
  case fresh
  have "outbox db op = None" using wf fresh(1) by (simp add: unknown_everywhere)
  with fresh(2) have "op_consistent db' op" unfolding fresh(3) by (rule claimed_consistent)
  moreover have "same_elsewhere op db db'" unfolding fresh(3) by (rule same_elsewhere_claimed)
  ultimately show ?thesis using journal_wf_update [OF wf] by blast
qed (simp_all add: wf)

subsection \<open>What a completion commits\<close>

definition completed_inbox_row :: "nat \<Rightarrow> ustr \<Rightarrow> inbox_row \<Rightarrow> inbox_row" where
  "completed_inbox_row now res r =
     r\<lparr>in_status := COMPLETED, in_result_json := Some res, in_completed_at := Some now\<rparr>"

definition completed_status_row :: "nat \<Rightarrow> ustr \<Rightarrow> status_row \<Rightarrow> status_row" where
  "completed_status_row now res s =
     s\<lparr>st_status := COMPLETED, st_result_json := Some res, st_updated_at := now\<rparr>"

definition completed_outbox_row :: "nat \<Rightarrow> ustr \<Rightarrow> ustr \<Rightarrow> outbox_row" where
  "completed_outbox_row now op res =
     \<lparr>ob_operation_id = op, ob_subject = lit ''act.results.api.v1'', ob_payload_json = res,
      ob_created_at = now, ob_delivered_at = None\<rparr>"

definition completed ::
  "nat \<Rightarrow> ustr \<Rightarrow> ustr \<Rightarrow> inbox_row \<Rightarrow> status_row \<Rightarrow> database \<Rightarrow> database" where
  "completed now op res r s db =
     db\<lparr>inbox := (inbox db)(op \<mapsto> completed_inbox_row now res r),
        status_table := (status_table db)(op \<mapsto> completed_status_row now res s),
        outbox := (outbox db)(op \<mapsto> completed_outbox_row now op res)\<rparr>"

lemma completed_simps [simp]:
  "inbox (completed now op res r s db) = (inbox db)(op \<mapsto> completed_inbox_row now res r)"
  "status_table (completed now op res r s db) =
     (status_table db)(op \<mapsto> completed_status_row now res s)"
  "outbox (completed now op res r s db) = (outbox db)(op \<mapsto> completed_outbox_row now op res)"
  by (simp_all add: completed_def)

lemma same_elsewhere_completed: "same_elsewhere op db (completed now op res r s db)"
  by (simp add: same_elsewhere_def)

lemma completed_row_ok:
  "inbox_row_ok op r \<Longrightarrow> str_len res \<le> 65536 \<Longrightarrow> inbox_row_ok op (completed_inbox_row now res r)"
  by (simp add: inbox_row_ok_def completed_inbox_row_def status_check_def result_check_def)

lemma complete_inbox_processing:
  assumes "inbox db op = Some r" and "in_status r = PROCESSING" and "inbox_row_ok op r"
  shows "complete_inbox_sql now op res db =
    (if str_len res \<le> 65536
     then Ok (1, db\<lparr>inbox := (inbox db)(op \<mapsto> completed_inbox_row now res r)\<rparr>) else Err ())"
proof (cases "str_len res \<le> 65536")
  case True
  with assms show ?thesis
    using completed_row_ok [OF assms(3) True, of now]
    by (simp add: complete_inbox_sql_def Let_def completed_inbox_row_def)
next
  case False
  then have "\<not> inbox_row_ok op (completed_inbox_row now res r)"
    by (simp add: inbox_row_ok_def completed_inbox_row_def result_check_def)
  with assms False show ?thesis
    by (simp add: complete_inbox_sql_def Let_def completed_inbox_row_def)
qed

lemma complete_inbox_other:
  "\<forall>r. inbox db op = Some r \<longrightarrow> in_status r \<noteq> PROCESSING \<Longrightarrow>
   complete_inbox_sql now op res db = Ok (0, db)"
  by (simp add: complete_inbox_sql_def split: option.split)

text \<open>
  The status statement proposes a row without a subject, which an engine that checks the
  proposed row first refuses, whatever the table holds.
\<close>

lemma upsert_completed_checks_first [simp]:
  "upsert_completed_status_sql ChecksFirst now op res db = Err ()"
  by (simp add: upsert_completed_status_sql_def insert_on_conflict_def status_row_ok_def)

lemma upsert_completed_conflict_first:
  assumes "status_table db op = Some s" and "id_check op" and "subject_check (st_subject s)"
    and "str_len res \<le> 65536"
  shows "upsert_completed_status_sql ConflictFirst now op res db =
    Ok (1, db\<lparr>status_table := (status_table db)(op \<mapsto> completed_status_row now res s)\<rparr>)"
  using assms
  by (simp add: upsert_completed_status_sql_def insert_on_conflict_def status_row_ok_def
      status_check_def result_check_def completed_status_row_def)

lemma insert_outbox_fresh:
  assumes "outbox db op = None" and "id_check op" and "inbox db op \<noteq> None"
    and "str_len res \<le> 65536"
  shows "insert_outbox_sql eng now op (lit ''act.results.api.v1'') res db =
    Ok (1, db\<lparr>outbox := (outbox db)(op \<mapsto> completed_outbox_row now op res)\<rparr>)"
  using assms
  by (cases eng)
    (simp_all add: insert_outbox_sql_def insert_on_conflict_def outbox_row_ok_def
      completed_outbox_row_def)

lemma complete_checks_first:
  "\<exists>e. complete ChecksFirst env op bytes db = (Err e, db)"
  by (cases "from_utf8 bytes"; cases "begins env"; cases "statement_ok env 0";
      cases "statement_ok env 1"; cases "complete_inbox_sql (db_now env) op (the (from_utf8 bytes)) db")
    (auto simp: complete_def run_statement_def split: prod.split)

lemma complete_not_processing:
  "\<forall>r. inbox db op = Some r \<longrightarrow> in_status r \<noteq> PROCESSING \<Longrightarrow>
   \<exists>e. complete eng env op bytes db = (Err e, db)"
  by (cases "from_utf8 bytes"; cases "begins env"; cases "statement_ok env 0")
    (simp_all add: complete_def run_statement_def complete_inbox_other)

lemma processing_entry:
  assumes "journal_wf db" and "inbox db op = Some r" and "in_status r = PROCESSING"
  obtains s where "status_table db op = Some s" "status_agrees r s" "outbox db op = None"
    "in_result_json r = None" "inbox_row_ok op r"
  using journal_wf_D [OF assms(1), of op] assms(2,3)
  by (auto simp: op_consistent_def split: option.splits)

lemma finished_entry:
  assumes "journal_wf db" and "inbox db op = Some r" and "in_status r \<noteq> PROCESSING"
  obtains s res b where "status_table db op = Some s" "status_agrees r s"
    "in_result_json r = Some res" "outbox db op = Some b" "outbox_agrees op res b" "str_ok res"
    "inbox_row_ok op r"
  using journal_wf_D [OF assms(1), of op] assms(2,3)
  by (auto simp: op_consistent_def split: option.splits)

lemma complete_processing:
  assumes wf: "journal_wf db" and r: "inbox db op = Some r" "in_status r = PROCESSING"
    and s: "status_table db op = Some s" and res: "from_utf8 bytes = Some res"
  shows "complete ConflictFirst env op bytes db =
    (if begins env \<and> statement_ok env 0 \<and> statement_ok env 1 \<and> statement_ok env 2 \<and>
        str_len res \<le> 65536
     then commit_transaction env db (Ok ()) (completed (db_now env) op res r s db)
     else (Err Database, db))"
proof -
  obtain s' where entry: "status_table db op = Some s'" "status_agrees r s'" "outbox db op = None"
    "inbox_row_ok op r"
    using wf r by (rule processing_entry)
  then have s': "status_agrees r s" using s by simp
  have checks: "id_check op" "subject_check (st_subject s)"
    using entry(4) s' by (simp_all add: inbox_row_ok_def status_agrees_def)
  let ?now = "db_now env"
  let ?db1 = "db\<lparr>inbox := (inbox db)(op \<mapsto> completed_inbox_row ?now res r)\<rparr>"
  let ?db2 = "?db1\<lparr>status_table := (status_table db)(op \<mapsto> completed_status_row ?now res s)\<rparr>"
  have 1: "complete_inbox_sql ?now op res db = (if str_len res \<le> 65536 then Ok (1, ?db1) else Err ())"
    by (rule complete_inbox_processing [OF r entry(4)])
  have 2: "str_len res \<le> 65536 \<Longrightarrow>
      upsert_completed_status_sql ConflictFirst ?now op res ?db1 = Ok (1, ?db2)"
    using s checks by (subst upsert_completed_conflict_first) simp_all
  have 3: "str_len res \<le> 65536 \<Longrightarrow>
      insert_outbox_sql ConflictFirst ?now op (lit ''act.results.api.v1'') res ?db2 =
      Ok (1, completed ?now op res r s db)"
    using entry(3) checks by (subst insert_outbox_fresh) (simp_all add: completed_def)
  show ?thesis
    unfolding complete_def
    by (cases "begins env"; cases "statement_ok env 0"; cases "statement_ok env 1";
        cases "statement_ok env 2"; cases "str_len res \<le> 65536")
      (simp_all add: res run_statement_def 1 2 3 del: completed_simps)
qed

text \<open>All a completion can do: leave the tables, or commit a whole result.\<close>

lemma complete_cases:
  assumes wf: "journal_wf db" and c: "complete eng env op bytes db = (v, db')"
  obtains (failed) e where "v = Err e" "db' = db"
  | (finished) r s res where "eng = ConflictFirst" "inbox db op = Some r" "in_status r = PROCESSING"
      "status_table db op = Some s" "status_agrees r s" "from_utf8 bytes = Some res"
      "str_len res \<le> 65536"
      "db' = completed (db_now env) op res r s db" "v = Ok () \<or> v = Err Database"
proof (cases "eng = ChecksFirst \<or> from_utf8 bytes = None \<or>
    (\<forall>r. inbox db op = Some r \<longrightarrow> in_status r \<noteq> PROCESSING)")
  case True
  have "\<exists>e. complete eng env op bytes db = (Err e, db)"
    using True complete_checks_first [of env op bytes db]
      complete_not_processing [of db op eng env bytes] by (auto simp: complete_def)
  with c show thesis using failed by auto
next
  case False
  then obtain r res where eng: "eng = ConflictFirst" and r: "inbox db op = Some r" "in_status r = PROCESSING"
    and res: "from_utf8 bytes = Some res" by (cases eng) auto
  obtain s where s: "status_table db op = Some s" "status_agrees r s"
    using wf r by (rule processing_entry)
  note v = complete_processing [OF wf r s(1) res, of env]
  show thesis
  proof (cases "begins env \<and> statement_ok env 0 \<and> statement_ok env 1 \<and> statement_ok env 2 \<and>
        str_len res \<le> 65536")
    case True
    with v c eng have "commit_transaction env db (Ok ()) (completed (db_now env) op res r s db) = (v, db')"
      by simp
    from commit_transaction_cases [OF this] show thesis
      using True eng r s res failed finished by blast
  next
    case False
    with v c eng have "v = Err Database" "db' = db" by (simp_all split: if_splits)
    then show thesis by (rule failed)
  qed
qed

lemma completed_consistent:
  assumes "inbox_row_ok op r" and "status_agrees r s" and "str_len res \<le> 65536" and "str_ok res"
  shows "op_consistent (completed now op res r s db) op"
proof -
  have "in_status (completed_inbox_row now res r) \<noteq> PROCESSING"
    "in_result_json (completed_inbox_row now res r) = Some res"
    by (simp_all add: completed_inbox_row_def)
  moreover have "status_agrees (completed_inbox_row now res r) (completed_status_row now res s)"
    using assms(2) by (simp add: status_agrees_def completed_inbox_row_def completed_status_row_def)
  moreover have "outbox_agrees op res (completed_outbox_row now op res)"
    by (simp add: outbox_agrees_def completed_outbox_row_def)
  ultimately show ?thesis
    using completed_row_ok [OF assms(1,3), of now] assms(4) by (simp add: op_consistent_def)
qed

lemma complete_wf:
  assumes wf: "journal_wf db" and c: "complete eng env op bytes db = (v, db')"
  shows "journal_wf db' \<and> same_elsewhere op db db'"
  using wf c
proof (cases rule: complete_cases)
  case (finished r s res)
  have "inbox_row_ok op r" using wf finished(2,3) by (rule processing_entry)
  moreover have "str_ok res" using finished(6) by (simp add: from_utf8_Some_iff)
  ultimately have "op_consistent db' op"
    unfolding finished(8) using finished(5,7) by (intro completed_consistent)
  moreover have "same_elsewhere op db db'" unfolding finished(8) by (rule same_elsewhere_completed)
  ultimately show ?thesis using journal_wf_update [OF wf] by blast
qed (simp_all add: wf)

subsection \<open>What a published mark commits\<close>

lemma mark_outbox_sql_tables [simp]:
  "inbox (mark_outbox_sql now op db) = inbox db"
  "status_table (mark_outbox_sql now op db) = status_table db"
  by (simp_all add: mark_outbox_sql_def split: option.split)

lemma mark_outbox_sql_outbox:
  "outbox (mark_outbox_sql now op db) =
     (case outbox db op of
        None \<Rightarrow> outbox db
      | Some b \<Rightarrow> if ob_delivered_at b = None
                then (outbox db)(op \<mapsto> b\<lparr>ob_delivered_at := Some now\<rparr>) else outbox db)"
  by (simp add: mark_outbox_sql_def split: option.split)

lemma mark_outbox_sql_wf:
  assumes wf: "journal_wf db"
  shows "journal_wf (mark_outbox_sql now op db) \<and> same_elsewhere op db (mark_outbox_sql now op db)"
proof -
  have same: "same_elsewhere op db (mark_outbox_sql now op db)"
    by (simp add: same_elsewhere_def mark_outbox_sql_outbox split: option.split)
  have "op_consistent (mark_outbox_sql now op db) op"
    using journal_wf_D [OF wf, of op]
    by (auto simp: op_consistent_def mark_outbox_sql_outbox outbox_agrees_def
        split: option.splits if_splits)
  with same show ?thesis using journal_wf_update [OF wf] by blast
qed

lemma mark_cases:
  assumes "mark_result_published env op db = (v, db')"
  obtains (failed) "v = Err Database" "db' = db"
  | (marked) "db' = mark_outbox_sql (db_now env) op db" "v = Ok () \<or> v = Err Database"
  using assms commit_transaction_cases [of env db "Ok ()" "mark_outbox_sql (db_now env) op db" v db']
  by (auto simp: mark_result_published_def split: if_splits)

lemma mark_wf:
  assumes wf: "journal_wf db" and c: "mark_result_published env op db = (v, db')"
  shows "journal_wf db' \<and> same_elsewhere op db db'"
  using c by (cases rule: mark_cases) (simp_all add: wf mark_outbox_sql_wf)

section \<open>The abstract journal\<close>

text \<open>
  What the tables say of one operation, and the journal as it is meant: one entry per
  operation that only moves forward, from unknown over claimed to finished, and whose owner,
  request and result never change once they are set.
\<close>

datatype journal_entry =
    Unknown
  | Claimed ustr ustr
  | Finished ustr ustr ustr bool

definition entry :: "database \<Rightarrow> ustr \<Rightarrow> journal_entry" where
  "entry db op =
     (case inbox db op of
        None \<Rightarrow> Unknown
      | Some r \<Rightarrow>
          (case in_result_json r of
             None \<Rightarrow> Claimed (in_subject r) (in_request_hash r)
           | Some res \<Rightarrow> Finished (in_subject r) (in_request_hash r) res
               (case outbox db op of None \<Rightarrow> False | Some b \<Rightarrow> ob_delivered_at b \<noteq> None)))"

fun owner :: "journal_entry \<Rightarrow> ustr option" where
  "owner Unknown = None"
| "owner (Claimed subj _) = Some subj"
| "owner (Finished subj _ _ _) = Some subj"

fun spec_claim :: "ustr \<Rightarrow> ustr \<Rightarrow> journal_entry \<Rightarrow> journal_claim \<times> journal_entry" where
  "spec_claim subj hash Unknown = (New, Claimed subj hash)"
| "spec_claim subj hash (Claimed s h) =
     (if h = hash \<and> s = subj then Processing else Conflict, Claimed s h)"
| "spec_claim subj hash (Finished s h res d) =
     (if h = hash \<and> s = subj then Replay (str_bytes res) else Conflict, Finished s h res d)"

fun spec_complete :: "ustr \<Rightarrow> journal_entry \<Rightarrow> journal_entry option" where
  "spec_complete res (Claimed s h) = Some (Finished s h res False)"
| "spec_complete res _ = None"

fun spec_pending :: "journal_entry \<Rightarrow> (ustr \<times> u8 list) option" where
  "spec_pending (Finished s h res False) = Some (lit ''act.results.api.v1'', str_bytes res)"
| "spec_pending _ = None"

fun spec_mark :: "journal_entry \<Rightarrow> journal_entry" where
  "spec_mark (Finished s h res _) = Finished s h res True"
| "spec_mark e = e"

fun spec_status :: "ustr \<Rightarrow> journal_entry \<Rightarrow> (ustr \<times> ustr option) option" where
  "spec_status subj Unknown = None"
| "spec_status subj (Claimed s h) = (if s = subj then Some (PROCESSING, None) else None)"
| "spec_status subj (Finished s h res d) = (if s = subj then Some (COMPLETED, Some res) else None)"

lemma entry_elsewhere:
  "same_elsewhere op db db' \<Longrightarrow> o' \<noteq> op \<Longrightarrow> entry db' o' = entry db o'"
  by (simp add: entry_def same_elsewhere_def cong: option.case_cong)

lemma entry_cases:
  assumes wf: "journal_wf db"
  obtains (unknown) "entry db op = Unknown" "inbox db op = None"
  | (claimed) r s where "entry db op = Claimed (in_subject r) (in_request_hash r)"
      "inbox db op = Some r" "in_status r = PROCESSING" "in_result_json r = None"
      "status_table db op = Some s" "status_agrees r s" "outbox db op = None"
  | (finished) r s res b where
      "entry db op = Finished (in_subject r) (in_request_hash r) res (ob_delivered_at b \<noteq> None)"
      "inbox db op = Some r" "in_status r = COMPLETED" "in_result_json r = Some res"
      "status_table db op = Some s" "status_agrees r s"
      "outbox db op = Some b" "outbox_agrees op res b"
proof (cases "inbox db op")
  case None
  then show thesis by (intro unknown) (simp_all add: entry_def)
next
  case (Some r)
  show thesis
  proof (cases "in_status r = PROCESSING")
    case True
    obtain s where "status_table db op = Some s" "status_agrees r s" "outbox db op = None"
      "in_result_json r = None"
      using wf Some True by (rule processing_entry)
    with Some True show thesis by (intro claimed [of r s]) (simp_all add: entry_def)
  next
    case False
    obtain s res b where e: "status_table db op = Some s" "status_agrees r s"
      "in_result_json r = Some res" "outbox db op = Some b" "outbox_agrees op res b"
      "inbox_row_ok op r"
      using wf Some False by (rule finished_entry)
    from e(6) False have "in_status r = COMPLETED" by (auto simp: inbox_row_ok_def)
    with e Some show thesis by (intro finished [of r res b s]) (simp_all add: entry_def)
  qed
qed

subsection \<open>The operations refine it\<close>

lemma entry_claimed [simp]: "entry (claimed now op subj hash db) op = Claimed subj hash"
  by (simp add: entry_def)

lemma entry_completed:
  "entry (completed now op res r s db) op = Finished (in_subject r) (in_request_hash r) res False"
  by (simp add: entry_def completed_inbox_row_def completed_outbox_row_def)

lemma entry_marked:
  assumes "journal_wf db"
  shows "entry (mark_outbox_sql now op db) op = spec_mark (entry db op)"
  using assms
  by (cases rule: entry_cases [of db op])
    (auto simp: entry_def mark_outbox_sql_outbox split: option.split)

lemma classify_claim_spec:
  assumes wf: "journal_wf db" and r: "inbox db op = Some row"
  shows "classify_claim hash subj row = Ok (fst (spec_claim subj hash (entry db op)))
    \<and> snd (spec_claim subj hash (entry db op)) = entry db op"
  using wf
proof (cases rule: entry_cases [of db op])
  case unknown
  with r show ?thesis by simp
next
  case (claimed r s)
  with \<open>inbox db op = Some row\<close> show ?thesis by (simp add: classify_claim_def)
next
  case (finished r s res b)
  with \<open>inbox db op = Some row\<close> show ?thesis by (simp add: classify_claim_def)
qed

section \<open>The interface of the worker\<close>

text \<open>
  The trait \<open>OperationJournal\<close>, with the faults of one call as its first argument, and
  the contract its clients rely on, over any state: every call keeps the invariant, touches
  the entry of its own operation only, moves that entry as the abstract journal does or not
  at all, and reports success only when it did move.
\<close>

record ('f, 's) operation_journal =
  api_claim :: "'f \<Rightarrow> ustr \<Rightarrow> ustr \<Rightarrow> ustr \<Rightarrow> 's \<Rightarrow> (transport_error, journal_claim) result \<times> 's"
  api_complete :: "'f \<Rightarrow> ustr \<Rightarrow> u8 list \<Rightarrow> 's \<Rightarrow> (transport_error, unit) result \<times> 's"
  api_pending_result :: "'f \<Rightarrow> ustr \<Rightarrow> 's \<Rightarrow> (transport_error, (ustr \<times> u8 list) option) result"
  api_mark_result_published :: "'f \<Rightarrow> ustr \<Rightarrow> 's \<Rightarrow> (transport_error, unit) result \<times> 's"
  api_status :: "'f \<Rightarrow> ustr \<Rightarrow> ustr \<Rightarrow> 's \<Rightarrow> (transport_error, operation_status option) result"

definition sea_orm_journal ::
  "engine \<Rightarrow> (u8 list \<Rightarrow> u8 list) \<Rightarrow> serde \<Rightarrow> (db_env, database) operation_journal" where
  "sea_orm_journal eng digest sd =
     \<lparr>api_claim = claim eng digest, api_complete = complete eng,
      api_pending_result = pending_result, api_mark_result_published = mark_result_published,
      api_status = journal_status sd\<rparr>"

locale operation_journal_contract =
  fixes J :: "('f, 's) operation_journal"
    and wf :: "'s \<Rightarrow> bool"
    and entry :: "'s \<Rightarrow> ustr \<Rightarrow> journal_entry"
    and fingerprint :: "ustr \<Rightarrow> ustr"
  assumes claim_law: "wf s \<Longrightarrow> api_claim J f op subj req s = (r, s') \<Longrightarrow>
      wf s' \<and> (\<forall>o'. o' \<noteq> op \<longrightarrow> entry s' o' = entry s o') \<and>
      entry s' op \<in> {entry s op, snd (spec_claim subj (fingerprint req) (entry s op))} \<and>
      (\<forall>c. r = Ok c \<longrightarrow> (c, entry s' op) = spec_claim subj (fingerprint req) (entry s op))"
    and complete_law: "wf s \<Longrightarrow> api_complete J f op bytes s = (v, s') \<Longrightarrow>
      wf s' \<and> (\<forall>o'. o' \<noteq> op \<longrightarrow> entry s' o' = entry s o') \<and>
      (entry s' op = entry s op \<and> v \<noteq> Ok () \<or>
       (\<exists>res. from_utf8 bytes = Some res \<and> spec_complete res (entry s op) = Some (entry s' op)))"
    and pending_law: "wf s \<Longrightarrow> api_pending_result J f op s = Ok p \<Longrightarrow> p = spec_pending (entry s op)"
    and mark_law: "wf s \<Longrightarrow> api_mark_result_published J f op s = (v, s') \<Longrightarrow>
      wf s' \<and> (\<forall>o'. o' \<noteq> op \<longrightarrow> entry s' o' = entry s o') \<and>
      (entry s' op = entry s op \<and> v \<noteq> Ok () \<or> entry s' op = spec_mark (entry s op))"
begin

lemma claim_keeps_owner:
  "wf s \<Longrightarrow> api_claim J f op subj req s = (r, s') \<Longrightarrow> owner (entry s o') = Some u \<Longrightarrow>
   owner (entry s' o') = Some u"
  using claim_law [of s f op subj req r s']
  by (cases "o' = op"; cases "entry s o'") (auto split: if_splits)

lemma claim_New_iff_unknown:
  "wf s \<Longrightarrow> api_claim J f op subj req s = (Ok c, s') \<Longrightarrow> c = New \<longleftrightarrow> entry s op = Unknown"
  using claim_law [of s f op subj req "Ok c" s']
  by (cases "entry s op") (auto split: if_splits)

lemma claim_twice:
  assumes "wf s" and "api_claim J f op subj req s = (Ok c, s')"
    and "api_claim J f' op subj' req' s' = (Ok c', s'')"
  shows "c' \<noteq> New"
proof -
  have s': "wf s'" "(c, entry s' op) = spec_claim subj (fingerprint req) (entry s op)"
    using claim_law [OF assms(1,2)] by auto
  then have "entry s' op \<noteq> Unknown" by (cases "entry s op") (auto split: if_splits)
  then show ?thesis using claim_New_iff_unknown [OF s'(1) assms(3)] by simp
qed

lemma pending_after_complete:
  assumes "wf s" and "api_complete J f op bytes s = (Ok (), s')"
    and "api_pending_result J f' op s' = Ok p"
  shows "p = Some (lit ''act.results.api.v1'', bytes)"
proof -
  obtain res where res: "wf s'" "from_utf8 bytes = Some res" "spec_complete res (entry s op) = Some (entry s' op)"
    using complete_law [OF assms(1,2)] by auto
  then obtain u h where "entry s' op = Finished u h res False"
    by (cases "entry s op") (auto dest: sym)
  moreover have "str_bytes res = bytes" using res(2) by (simp add: from_utf8_Some_iff)
  ultimately show ?thesis using pending_law [OF res(1) assms(3)] by simp
qed

end

lemma sea_orm_journal_sel [simp]:
  "api_claim (sea_orm_journal eng digest sd) = claim eng digest"
  "api_complete (sea_orm_journal eng digest sd) = complete eng"
  "api_pending_result (sea_orm_journal eng digest sd) = pending_result"
  "api_mark_result_published (sea_orm_journal eng digest sd) = mark_result_published"
  "api_status (sea_orm_journal eng digest sd) = journal_status sd"
  by (simp_all add: sea_orm_journal_def)

lemma claim_refines:
  assumes wf: "journal_wf db" and c: "claim eng digest f op subj req db = (r, db')"
  defines "hash \<equiv> request_fingerprint digest (str_bytes req)"
  shows "entry db' op \<in> {entry db op, snd (spec_claim subj hash (entry db op))} \<and>
    (\<forall>x. r = Ok x \<longrightarrow> (x, entry db' op) = spec_claim subj hash (entry db op))"
  using wf c
proof (cases rule: claim_cases)
  case (seen row)
  with classify_claim_spec [OF wf seen(1), of hash subj] show ?thesis
    by (auto simp: hash_def prod_eq_iff)
next
  case fresh
  then have "entry db op = Unknown" by (simp add: entry_def)
  with fresh show ?thesis by (auto simp: hash_def)
qed auto

lemma complete_refines:
  assumes wf: "journal_wf db" and c: "complete eng f op bytes db = (v, db')"
  shows "entry db' op = entry db op \<and> v \<noteq> Ok () \<or>
    (\<exists>res. from_utf8 bytes = Some res \<and> spec_complete res (entry db op) = Some (entry db' op))"
  using wf c
proof (cases rule: complete_cases)
  case (finished r s res)
  have "in_result_json r = None" using wf finished(2,3) by (rule processing_entry)
  then have "entry db op = Claimed (in_subject r) (in_request_hash r)"
    using finished(2) by (simp add: entry_def)
  with finished show ?thesis by (simp add: entry_completed)
qed auto

lemma pending_refines:
  assumes "journal_wf db"
  shows "map_option (\<lambda>(u, b). (u, str_bytes b)) (read_outbox_sql op db) = spec_pending (entry db op)"
  using assms
proof (cases rule: entry_cases [of db op])
  case unknown
  then show ?thesis using unknown_everywhere [OF assms] by (simp add: read_outbox_sql_def)
next
  case (finished r s res b)
  then show ?thesis
    by (cases "ob_delivered_at b") (simp_all add: read_outbox_sql_def outbox_agrees_def)
qed (simp add: read_outbox_sql_def)

lemma mark_refines:
  assumes wf: "journal_wf db" and c: "mark_result_published f op db = (v, db')"
  shows "entry db' op = entry db op \<and> v \<noteq> Ok () \<or> entry db' op = spec_mark (entry db op)"
  using c by (cases rule: mark_cases) (simp_all add: entry_marked [OF wf])

interpretation soj: operation_journal_contract "sea_orm_journal eng digest sd" journal_wf entry
    "\<lambda>req. request_fingerprint digest (str_bytes req)" for eng digest sd
proof (unfold_locales, unfold sea_orm_journal_sel)
  fix db :: database and f op subj req r db'
  assume "journal_wf db" "claim eng digest f op subj req db = (r, db')"
  note c = claim_wf [OF this] claim_refines [OF this]
  then show "journal_wf db' \<and> (\<forall>o'. o' \<noteq> op \<longrightarrow> entry db' o' = entry db o') \<and>
      entry db' op \<in> {entry db op, snd (spec_claim subj (request_fingerprint digest (str_bytes req)) (entry db op))} \<and>
      (\<forall>c. r = Ok c \<longrightarrow>
        (c, entry db' op) = spec_claim subj (request_fingerprint digest (str_bytes req)) (entry db op))"
    using entry_elsewhere by blast
next
  fix db :: database and f op bytes v db'
  assume "journal_wf db" "complete eng f op bytes db = (v, db')"
  note c = complete_wf [OF this] complete_refines [OF this]
  then show "journal_wf db' \<and> (\<forall>o'. o' \<noteq> op \<longrightarrow> entry db' o' = entry db o') \<and>
      (entry db' op = entry db op \<and> v \<noteq> Ok () \<or>
       (\<exists>res. from_utf8 bytes = Some res \<and> spec_complete res (entry db op) = Some (entry db' op)))"
    using entry_elsewhere by blast
next
  fix db :: database and f op p
  assume "journal_wf db" "pending_result f op db = Ok p"
  then show "p = spec_pending (entry db op)"
    using pending_refines [of db op] by (simp add: pending_result_def result_simps)
next
  fix db :: database and f op v db'
  assume "journal_wf db" "mark_result_published f op db = (v, db')"
  note c = mark_wf [OF this] mark_refines [OF this]
  then show "journal_wf db' \<and> (\<forall>o'. o' \<noteq> op \<longrightarrow> entry db' o' = entry db o') \<and>
      (entry db' op = entry db op \<and> v \<noteq> Ok () \<or> entry db' op = spec_mark (entry db op))"
    using entry_elsewhere by blast
qed

section \<open>Entries only move forward\<close>

text \<open>
  The order of progress on entries: a claim fixes owner and request, a completion fixes the
  result, delivery is set once.
\<close>

fun progress :: "journal_entry \<Rightarrow> journal_entry \<Rightarrow> bool" where
  "progress Unknown _ = True"
| "progress (Claimed s h) (Claimed s' h') = (s' = s \<and> h' = h)"
| "progress (Claimed s h) (Finished s' h' _ _) = (s' = s \<and> h' = h)"
| "progress (Finished s h r d) (Finished s' h' r' d') = (s' = s \<and> h' = h \<and> r' = r \<and> (d \<longrightarrow> d'))"
| "progress _ _ = False"

instantiation journal_entry :: order
begin

definition less_eq_journal_entry :: "journal_entry \<Rightarrow> journal_entry \<Rightarrow> bool" where
  "less_eq_journal_entry = progress"

definition less_journal_entry :: "journal_entry \<Rightarrow> journal_entry \<Rightarrow> bool" where
  "less_journal_entry a b \<longleftrightarrow> a \<le> b \<and> \<not> b \<le> a"

instance
proof
  fix a b c :: journal_entry
  show "a \<le> a" by (cases a) (simp_all add: less_eq_journal_entry_def)
  show "a \<le> c" if "a \<le> b" "b \<le> c"
    using that by (cases a; cases b; cases c) (auto simp: less_eq_journal_entry_def)
  show "a = b" if "a \<le> b" "b \<le> a"
    using that by (cases a; cases b) (auto simp: less_eq_journal_entry_def)
qed (simp add: less_journal_entry_def)

end

lemma claim_progress: "e \<le> snd (spec_claim subj hash e)"
  by (cases e) (simp_all add: less_eq_journal_entry_def)

lemma complete_progress: "spec_complete res e = Some e' \<Longrightarrow> e \<le> e'"
  by (cases e) (auto simp: less_eq_journal_entry_def)

lemma mark_progress: "e \<le> spec_mark e"
  by (cases e) (simp_all add: less_eq_journal_entry_def)

lemma owner_mono: "e \<le> e' \<Longrightarrow> owner e = Some u \<Longrightarrow> owner e' = Some u"
  by (cases e; cases e') (auto simp: less_eq_journal_entry_def)

lemma finished_mono: "Finished s h r d \<le> e' \<Longrightarrow> \<exists>d'. e' = Finished s h r d'"
  by (cases e') (auto simp: less_eq_journal_entry_def)

section \<open>The journal as a machine\<close>

datatype journal_call =
    CallClaim db_env ustr ustr ustr
  | CallComplete db_env ustr "u8 list"
  | CallMark db_env ustr

inductive journal_step ::
  "engine \<Rightarrow> (u8 list \<Rightarrow> u8 list) \<Rightarrow> database \<Rightarrow> journal_call \<Rightarrow> database \<Rightarrow> bool"
  for eng digest where
  step_claim: "claim eng digest f op subj req db = (r, db') \<Longrightarrow>
    journal_step eng digest db (CallClaim f op subj req) db'"
| step_complete: "complete eng f op bytes db = (v, db') \<Longrightarrow>
    journal_step eng digest db (CallComplete f op bytes) db'"
| step_mark: "mark_result_published f op db = (v, db') \<Longrightarrow>
    journal_step eng digest db (CallMark f op) db'"

inductive_cases journal_stepE: "journal_step eng digest db c db'"

lemma journal_step_wf:
  "journal_wf db \<Longrightarrow> journal_step eng digest db c db' \<Longrightarrow> journal_wf db'"
  by (elim journal_stepE) (auto dest: claim_wf complete_wf mark_wf)

interpretation journal_machine: invariant_system "\<lambda>db. db = empty_database"
    "journal_step eng digest" journal_wf for eng digest
  by unfold_locales (auto simp: journal_wf_empty intro: journal_step_wf)

lemma journal_step_progress:
  assumes wf: "journal_wf db" and step: "journal_step eng digest db c db'"
  shows "entry db op \<le> entry db' op"
  using step
proof cases
  case (step_claim f o' subj req r)
  from claim_wf [OF wf step_claim(2)] claim_refines [OF wf step_claim(2)] show ?thesis
    by (cases "op = o'") (auto simp: entry_elsewhere claim_progress)
next
  case (step_complete f o' bytes v)
  from complete_wf [OF wf step_complete(2)] complete_refines [OF wf step_complete(2)] show ?thesis
    by (cases "op = o'") (auto simp: entry_elsewhere dest: complete_progress)
next
  case (step_mark f o' v)
  from mark_wf [OF wf step_mark(2)] mark_refines [OF wf step_mark(2)] show ?thesis
    by (cases "op = o'") (auto simp: entry_elsewhere mark_progress)
qed

lemma journal_steps_progress:
  "steps (journal_step eng digest) db calls db' \<Longrightarrow> journal_wf db \<Longrightarrow> entry db op \<le> entry db' op"
proof (induction rule: steps.induct)
  case (steps_snoc db calls db1 c db2)
  from steps_snoc.hyps(1) steps_snoc.prems have "journal_wf db1"
    by (rule journal_machine.steps_inv)
  from journal_step_progress [OF this steps_snoc.hyps(2)] steps_snoc.IH [OF steps_snoc.prems]
  show ?case by (rule order_trans [rotated])
qed simp

section \<open>Calls without a fault\<close>

definition healthy :: "db_env \<Rightarrow> bool" where
  "healthy env \<longleftrightarrow>
     begins env \<and> statement_ok env 0 \<and> statement_ok env 1 \<and> statement_ok env 2 \<and> commits env = Committed"

definition calm :: "nat \<Rightarrow> db_env" where
  "calm t = \<lparr>db_now = t, begins = True, statement_ok = \<lambda>_. True, commits = Committed\<rparr>"

lemma healthy_calm [simp]: "healthy (calm t)"
  by (simp add: healthy_def calm_def)

lemma commit_healthy: "healthy env \<Longrightarrow> commit_transaction env db r db' = (r, db')"
  by (simp add: commit_transaction_def healthy_def)

lemma claim_inbox_sql_taken_ok:
  assumes "inbox db op \<noteq> None" and "claim_checks op subj hash"
  shows "claim_inbox_sql eng now op subj hash db = Ok (0, db)"
  using assms claimed_row_ok [OF assms(2), of now]
  by (cases eng) (simp_all add: claim_inbox_sql_def insert_on_conflict_def Let_def)

lemma claim_healthy:
  fixes digest :: "u8 list \<Rightarrow> u8 list" and req :: ustr
  defines "hash \<equiv> request_fingerprint digest (str_bytes req)"
  assumes wf: "journal_wf db" and env: "healthy env" and checks: "claim_checks op subj hash"
  shows "fst (claim eng digest env op subj req db) = Ok (fst (spec_claim subj hash (entry db op)))"
proof (cases "inbox db op")
  case None
  then have "entry db op = Unknown" by (simp add: entry_def)
  moreover have "status_table db op = None" using unknown_everywhere [OF wf None] by simp
  from claim_fresh [OF None this, of eng digest env subj req, folded hash_def]
  have "fst (claim eng digest env op subj req db) = Ok New"
    using env checks by (simp add: commit_healthy) (simp add: healthy_def)
  ultimately show ?thesis by simp
next
  case (Some row)
  then have "claim eng digest env op subj req db = (classify_claim hash subj row, db)"
    using env checks
    by (simp add: claim_def hash_def [symmetric] run_statement_def commit_healthy
        claim_inbox_sql_taken_ok) (simp add: healthy_def)
  then show ?thesis using classify_claim_spec [OF wf Some, of hash subj] by simp
qed

lemma complete_healthy:
  assumes wf: "journal_wf db" and env: "healthy env"
  shows "fst (complete ConflictFirst env op bytes db) = Ok () \<longleftrightarrow>
    (\<exists>res subj hash. from_utf8 bytes = Some res \<and> length bytes \<le> 65536 \<and>
       entry db op = Claimed subj hash)"
  using wf
proof (cases rule: entry_cases [of db op])
  case (claimed r s)
  have len: "str_len res = length bytes" if "from_utf8 bytes = Some res" for res
    using that by (auto simp: from_utf8_Some_iff str_len_def)
  show ?thesis
  proof (cases "from_utf8 bytes")
    case None
    then show ?thesis by (simp add: complete_def)
  next
    case (Some res)
    then show ?thesis
      using complete_processing [OF wf claimed(2,3,5) Some, of env] env claimed(1) len [OF Some]
      by (simp add: commit_healthy) (simp add: healthy_def)
  qed
next
  case unknown
  then obtain e where "complete ConflictFirst env op bytes db = (Err e, db)"
    using complete_not_processing [of db op ConflictFirst env bytes] by auto
  with unknown show ?thesis by simp
next
  case (finished r s res b)
  then obtain e where "complete ConflictFirst env op bytes db = (Err e, db)"
    using complete_not_processing [of db op ConflictFirst env bytes] by auto
  with finished show ?thesis by simp
qed

lemma fingerprint_hash_check: "length (digest p) = 32 \<Longrightarrow> hash_check (request_fingerprint digest p)"
  using encode_hex_lowercase [of "digest p"] by (simp add: hash_check_def request_fingerprint_def)

section \<open>Status\<close>

lemma read_status_refines:
  assumes "journal_wf db"
  shows "read_status_sql op subj db = spec_status subj (entry db op)"
  using assms
proof (cases rule: entry_cases [of db op])
  case unknown
  then show ?thesis using unknown_everywhere [OF assms, of op] by (simp add: read_status_sql_def)
qed (auto simp: read_status_sql_def status_agrees_def)

section \<open>Properties\<close>

text \<open>
  C3: Whatever the calls, their order and the faults of the database (a transaction that
  cannot begin, a statement that fails, a commit that is refused or whose acknowledgement is
  lost), the three tables agree on every operation: unknown to all, claimed with its
  processing status and no result, or completed with one and the same result in the inbox,
  the status and the outbox.
\<close>

theorem journal_tables_agree:
  assumes "reachable (\<lambda>db. db = empty_database) (journal_step eng digest) db"
  shows "op_consistent db op"
  using journal_machine.reachable_inv [OF assms] by (rule journal_wf_D)

text \<open>
  C5: A claim of a request the tables accept, without a database fault, answers as the
  abstract journal: new for an unknown operation, processing or the replayed result for the
  same request of the same subject, conflict for any other; and it commits exactly that
  entry, for that operation only. With a fault it commits that entry or nothing.
\<close>

theorem claim_refines_journal:
  assumes "journal_wf db"
  shows "let hash = request_fingerprint digest (str_bytes req);
             (r, db') = claim eng digest env op subj req db;
             (c, e') = spec_claim subj hash (entry db op)
         in (\<forall>o'. entry db' o' = entry db o' \<or> (o' = op \<and> entry db' o' = e')) \<and>
            (\<forall>x. r = Ok x \<longrightarrow> x = c \<and> entry db' op = e') \<and>
            (healthy env \<and> claim_checks op subj hash \<longrightarrow> r = Ok c)"
proof (cases "claim eng digest env op subj req db")
  case (Pair r db')
  let ?hash = "request_fingerprint digest (str_bytes req)"
  obtain c e' where spec: "spec_claim subj ?hash (entry db op) = (c, e')" by fastforce
  have 1: "healthy env \<and> claim_checks op subj ?hash \<longrightarrow> r = Ok c"
    using claim_healthy [OF assms, of env op subj digest req eng] Pair spec by simp
  have 2: "entry db' op \<in> {entry db op, e'}" "\<forall>x. r = Ok x \<longrightarrow> x = c \<and> entry db' op = e'"
    using claim_refines [OF assms Pair] unfolding spec by simp_all
  have 3: "\<forall>o'. entry db' o' = entry db o' \<or> (o' = op \<and> entry db' o' = e')"
  proof
    fix o'
    have "entry db' o' = entry db o'" if "o' \<noteq> op"
      using claim_wf [OF assms Pair] that entry_elsewhere by blast
    then show "entry db' o' = entry db o' \<or> (o' = op \<and> entry db' o' = e')"
      using 2(1) by (cases "o' = op") auto
  qed
  show ?thesis unfolding Pair spec Let_def prod.case using 1 2(2) 3 by blast
qed

text \<open>
  C2: On an engine that checks the constraints of a proposed row before it looks for the
  conflict, as PostgreSQL does, no completion ever succeeds: the statement that completes the
  status row proposes one without its mandatory subject. Every call of \<open>complete\<close> is an
  error that leaves the tables, so no operation of any reachable journal is ever finished.
\<close>

theorem completion_never_succeeds:
  "is_ok (fst (complete ChecksFirst env op bytes db)) = False \<and>
   snd (complete ChecksFirst env op bytes db) = db \<and>
   (reachable (\<lambda>db. db = empty_database) (journal_step ChecksFirst digest) db \<longrightarrow>
      (\<forall>s h r d. entry db o' \<noteq> Finished s h r d))"
proof (intro conjI impI)
  assume "reachable (\<lambda>db. db = empty_database) (journal_step ChecksFirst digest) db"
  then have "journal_wf db \<and> (\<forall>o'. \<forall>s h r d. entry db o' \<noteq> Finished s h r d)"
  proof (induction rule: reachable.induct)
    case (reachable_init db)
    moreover have "entry empty_database o' = Unknown" for o'
      by (simp add: entry_def empty_database_def)
    ultimately show ?case by (simp add: journal_wf_empty)
  next
    case (reachable_step db c db')
    then have wf: "journal_wf db" and none: "entry db o' \<noteq> Finished s h r d" for o' s h r d
      by auto
    from reachable_step.hyps(2) have "entry db' o' \<noteq> Finished s h r d" for o' s h r d
    proof cases
      case (step_claim f op subj req v)
      from claim_wf [OF wf this(2)] claim_refines [OF wf this(2)] none [of op] none [of o']
      show ?thesis by (cases "o' = op"; cases "entry db op") (auto simp: entry_elsewhere)
    next
      case (step_complete f op bytes v)
      then show ?thesis using complete_checks_first [of f op bytes db] none by auto
    next
      case (step_mark f op v)
      from mark_wf [OF wf this(2)] mark_refines [OF wf this(2)] none [of op] none [of o']
      show ?thesis by (cases "o' = op"; cases "entry db op") (auto simp: entry_elsewhere)
    qed
    with journal_step_wf [OF wf reachable_step.hyps(2)] show ?case by blast
  qed
  then show "\<forall>s h r d. entry db o' \<noteq> Finished s h r d" by blast
qed (use complete_checks_first [of env op bytes db] in auto)

text \<open>
  C19: The entry of an operation only moves forward, over any further calls and faults: its
  subject and request hash never change once claimed, its result never changes once
  completed, and a delivered result stays delivered.
\<close>

theorem journal_only_moves_forward:
  assumes "reachable (\<lambda>db. db = empty_database) (journal_step eng digest) db"
    and "steps (journal_step eng digest) db calls db'"
  shows "entry db op \<le> entry db' op"
  by (rule journal_steps_progress [OF assms(2) journal_machine.reachable_inv [OF assms(1)]])

text \<open>
  The status query answers another subject's operation exactly as an operation that
  does not exist, and answers its owner with the entry's state.
\<close>

lemma status_owner_isolation:
  assumes "journal_wf db"
  shows "journal_status sd env op subj db =
    (if owner (entry db op) \<noteq> Some subj then journal_status sd env op subj empty_database
     else and_then (run_statement env 0 (Ok ())) (\<lambda>_.
       case entry db op of
         Finished s h res d \<Rightarrow>
           (case value_from_str sd res of
              None \<Rightarrow> Err InvalidState
            | Some v \<Rightarrow> Ok (Some \<lparr>os_operation_id = op, os_status = COMPLETED, os_result = Some v\<rparr>))
       | _ \<Rightarrow> Ok (Some \<lparr>os_operation_id = op, os_status = PROCESSING, os_result = None\<rparr>)))"
proof -
  have none: "read_status_sql op subj empty_database = None"
    by (simp add: read_status_sql_def empty_database_def)
  show ?thesis
    unfolding journal_status_def read_status_refines [OF assms] none
    by (cases "statement_ok env 0"; cases "entry db op")
      (auto simp: run_statement_def ok_or_def split: option.split)
qed

section \<open>A run of the journal\<close>

definition sample_digest :: "u8 list \<Rightarrow> u8 list" where
  "sample_digest _ = replicate 32 7"

definition sample_op :: ustr where
  "sample_op = lit ''op-1''"

definition sample_subject :: ustr where
  "sample_subject = lit ''user-1''"

definition sample_hash :: ustr where
  "sample_hash = request_fingerprint sample_digest []"

definition sample_claimed :: database where
  "sample_claimed = claimed 5 sample_op sample_subject sample_hash empty_database"

lemma sample_fingerprint [simp]: "request_fingerprint sample_digest p = sample_hash"
  by (simp add: sample_hash_def request_fingerprint_def sample_digest_def)

lemma sample_checks: "claim_checks sample_op sample_subject sample_hash"
  using fingerprint_hash_check [of sample_digest "[]"]
  by (simp add: claim_checks_def id_check_def subject_check_def in_range_def sample_op_def
      sample_subject_def sample_digest_def)

lemma sample_claim:
  "claim eng sample_digest (calm 5) sample_op sample_subject req empty_database = (Ok New, sample_claimed)"
proof -
  have "inbox empty_database sample_op = None" "status_table empty_database sample_op = None"
    by (simp_all add: empty_database_def)
  from claim_fresh [OF this, of eng sample_digest "calm 5" sample_subject req]
  show ?thesis
    by (simp add: sample_checks commit_healthy sample_claimed_def) (simp add: calm_def)
qed

lemma sample_step:
  "journal_step eng sample_digest empty_database
     (CallClaim (calm 5) sample_op sample_subject []) sample_claimed"
  using sample_claim by (rule step_claim)

lemma sample_reachable:
  "reachable (\<lambda>db. db = empty_database) (journal_step eng sample_digest) sample_claimed"
proof -
  have "reachable (\<lambda>db. db = empty_database) (journal_step eng sample_digest) empty_database"
    by (rule reachable_init) simp
  then show ?thesis using sample_step by (rule reachable_step)
qed

lemma sample_wf: "journal_wf sample_claimed"
  using sample_reachable by (rule journal_machine.reachable_inv)

lemma sample_entry [simp]: "entry sample_claimed sample_op = Claimed sample_subject sample_hash"
  by (simp add: sample_claimed_def)

theorem journal_tables_agree_witness: "op_consistent sample_claimed sample_op"
  by (rule journal_tables_agree [OF sample_reachable])

theorem claim_refines_journal_witness:
  "fst (claim ChecksFirst sample_digest (calm 6) sample_op sample_subject [] sample_claimed) = Ok Processing"
  using claim_refines_journal [OF sample_wf, of sample_digest "[]" ChecksFirst "calm 6" sample_op
      sample_subject]
  by (simp add: sample_checks split: prod.splits)

theorem completion_never_succeeds_witness:
  "\<forall>s h r d. entry sample_claimed sample_op \<noteq> Finished s h r d"
  using completion_never_succeeds [of "calm 6" sample_op "[]" sample_claimed sample_digest sample_op]
    sample_reachable by blast

theorem journal_only_moves_forward_witness:
  "entry empty_database sample_op \<le> entry sample_claimed sample_op"
proof (rule journal_only_moves_forward [of ChecksFirst sample_digest])
  show "steps (journal_step ChecksFirst sample_digest) empty_database
      ([] @ [CallClaim (calm 5) sample_op sample_subject []]) sample_claimed"
    by (rule steps_snoc) (rule steps_refl, rule sample_step)
qed (simp add: reachable_init)

end
