(* ===== verification/Workers.thy ===== *)
theory Workers
  imports Transport
begin

text \<open>
  Admission of work in \<open>src/transport_runtime.rs\<close>: the accept loop of
  \<open>serve_mtls_tcp\<close>, which rejects connections when its semaphore is empty, and the
  pull loop of \<open>serve_jetstream\<close>, which waits for a permit instead. Both are step
  relations over the permits of a semaphore and the tasks that hold one; that no permit is
  lost or made is their common interface.
\<close>

section \<open>The interface: a pool of permits\<close>

locale permit_pool = invariant_system init step "\<lambda>s. free s + held s = capacity"
  for init :: "'s \<Rightarrow> bool" and step :: "'s \<Rightarrow> 'l \<Rightarrow> 's \<Rightarrow> bool"
    and free :: "'s \<Rightarrow> nat" and held :: "'s \<Rightarrow> nat" and capacity :: nat +
  assumes init_idle: "init s \<Longrightarrow> held s = 0"
begin

lemma conserved: "reachable init step s \<Longrightarrow> free s + held s = capacity"
  by (rule reachable_inv)

lemma held_bounded: "reachable init step s \<Longrightarrow> held s \<le> capacity"
  using reachable_inv [of s] by simp

lemma full_iff: "reachable init step s \<Longrightarrow> free s = 0 \<longleftrightarrow> held s = capacity"
  using reachable_inv [of s] by auto

end

section \<open>The mTLS listener\<close>

record listener =
  permits :: nat
  connections :: nat
  rejected :: nat
  listening :: bool

datatype listener_event = Accepted | AcceptFailed | ConnectionEnded

definition start_listener :: "nat \<Rightarrow> listener" where
  "start_listener max_connections =
     \<lparr>permits = max_connections, connections = 0, rejected = 0, listening = True\<rparr>"

definition serve_mtls_tcp :: "nat \<Rightarrow> (ustr, listener) result" where
  "serve_mtls_tcp max_connections =
     (if \<not> in_range 1 MAX_TCP_CONNECTIONS max_connections
      then Err (lit ''max_connections is outside the reviewed bound'')
      else Ok (start_listener max_connections))"

inductive listener_step :: "listener \<Rightarrow> listener_event \<Rightarrow> listener \<Rightarrow> bool" where
  accept: "listening s \<Longrightarrow> 0 < permits s \<Longrightarrow>
    listener_step s Accepted (s\<lparr>permits := permits s - 1, connections := connections s + 1\<rparr>)"
| backpressure: "listening s \<Longrightarrow> permits s = 0 \<Longrightarrow>
    listener_step s Accepted (s\<lparr>rejected := rejected s + 1\<rparr>)"
| accept_failed: "listening s \<Longrightarrow> listener_step s AcceptFailed (s\<lparr>listening := False\<rparr>)"
| connection_ended: "0 < connections s \<Longrightarrow>
    listener_step s ConnectionEnded
      (s\<lparr>permits := permits s + 1, connections := connections s - 1\<rparr>)"

inductive_cases listener_stepE: "listener_step s l t"

inductive_simps listener_accepted: "listener_step s Accepted t"

interpretation listener_pool: permit_pool "\<lambda>s. s = start_listener n" listener_step
    permits connections n for n
  by unfold_locales (auto simp: start_listener_def elim!: listener_stepE)

section \<open>The JetStream pull loop\<close>

record puller =
  js_permits :: nat
  js_handlers :: nat
  js_waiting :: bool
  js_running :: bool

datatype puller_event = Pulled | PermitAcquired | StreamFailed | StreamEnded | HandlerEnded

definition start_puller :: "nat \<Rightarrow> puller" where
  "start_puller max_concurrency =
     \<lparr>js_permits = max_concurrency, js_handlers = 0, js_waiting = False, js_running = True\<rparr>"

text \<open>
  The configuration of the worker, and the streams and the consumer it asks the broker for
  before it pulls; whether the broker grants them is an argument.
\<close>

record jet_stream_config =
  cfg_request_subject :: ustr
  cfg_result_subject :: ustr
  cfg_request_stream :: ustr
  cfg_result_stream :: ustr
  cfg_durable_consumer :: ustr
  cfg_max_concurrency :: nat

definition JETSTREAM_REQUEST_SUBJECT :: ustr where
  "JETSTREAM_REQUEST_SUBJECT = lit ''act.operations.api.v1''"

definition JETSTREAM_RESULT_SUBJECT :: ustr where
  "JETSTREAM_RESULT_SUBJECT = lit ''act.results.api.v1''"

definition default_jet_stream_config :: jet_stream_config where
  "default_jet_stream_config =
     \<lparr>cfg_request_subject = JETSTREAM_REQUEST_SUBJECT,
      cfg_result_subject = JETSTREAM_RESULT_SUBJECT,
      cfg_request_stream = lit ''ACT_API_OPERATIONS'',
      cfg_result_stream = lit ''ACT_API_OPERATION_RESULTS'',
      cfg_durable_consumer = lit ''act-api-server-v1'',
      cfg_max_concurrency = MAX_CONCURRENT_OPERATIONS\<rparr>"

datatype retention = WorkQueue | Limits

record stream_config =
  stream_name :: ustr
  stream_subjects :: "ustr list"
  stream_retention :: retention
  stream_max_age_secs :: nat
  stream_max_message_size :: int
  stream_duplicate_window_secs :: nat

record consumer_config =
  durable_name :: ustr
  filter_subject :: ustr
  ack_explicit :: bool
  ack_wait_secs :: nat
  max_deliver :: int

text \<open>\<open>i32::try_from(MAX_TRANSPORT_BYTES).unwrap_or(i32::MAX)\<close>.\<close>

definition max_message_size :: int where
  "max_message_size =
     (if int MAX_TRANSPORT_BYTES < 2 ^ 31 then int MAX_TRANSPORT_BYTES else 2 ^ 31 - 1)"

definition request_stream_config :: "jet_stream_config \<Rightarrow> stream_config" where
  "request_stream_config c =
     \<lparr>stream_name = cfg_request_stream c, stream_subjects = [cfg_request_subject c],
      stream_retention = WorkQueue, stream_max_age_secs = 7 * 24 * 60 * 60,
      stream_max_message_size = max_message_size, stream_duplicate_window_secs = 120\<rparr>"

definition result_stream_config :: "jet_stream_config \<Rightarrow> stream_config" where
  "result_stream_config c =
     \<lparr>stream_name = cfg_result_stream c, stream_subjects = [cfg_result_subject c],
      stream_retention = Limits, stream_max_age_secs = 7 * 24 * 60 * 60,
      stream_max_message_size = max_message_size, stream_duplicate_window_secs = 120\<rparr>"

definition operation_consumer_config :: "jet_stream_config \<Rightarrow> consumer_config" where
  "operation_consumer_config c =
     \<lparr>durable_name = cfg_durable_consumer c, filter_subject = cfg_request_subject c,
      ack_explicit = True, ack_wait_secs = 30, max_deliver = 8\<rparr>"

record broker =
  get_or_create_stream :: "stream_config \<Rightarrow> (ustr, unit) result"
  get_stream :: "ustr \<Rightarrow> (ustr, unit) result"
  get_or_create_consumer :: "consumer_config \<Rightarrow> (ustr, unit) result"
  consumer_messages :: "(ustr, unit) result"

definition serve_jetstream :: "broker \<Rightarrow> jet_stream_config \<Rightarrow> (ustr, puller) result" where
  "serve_jetstream b c =
     (if \<not> in_range 1 MAX_CONCURRENT_OPERATIONS (cfg_max_concurrency c)
      then Err (lit ''JetStream max_concurrency is outside the reviewed bound'')
      else
        and_then (get_or_create_stream b (request_stream_config c)) (\<lambda>_.
        and_then (get_or_create_stream b (result_stream_config c)) (\<lambda>_.
        and_then (get_stream b (cfg_request_stream c)) (\<lambda>_.
        and_then (get_or_create_consumer b (operation_consumer_config c)) (\<lambda>_.
        and_then (consumer_messages b) (\<lambda>_.
        Ok (start_puller (cfg_max_concurrency c))))))))"

lemma serve_jetstream_Ok:
  "serve_jetstream b c = Ok s \<Longrightarrow> s = start_puller (cfg_max_concurrency c) \<and> cfg_max_concurrency c \<le> 32"
  by (auto simp: serve_jetstream_def result_simps in_range_def MAX_CONCURRENT_OPERATIONS_def
      split: if_splits)

inductive puller_step :: "puller \<Rightarrow> puller_event \<Rightarrow> puller \<Rightarrow> bool" where
  pulled: "js_running s \<Longrightarrow> \<not> js_waiting s \<Longrightarrow> puller_step s Pulled (s\<lparr>js_waiting := True\<rparr>)"
| permit_acquired: "js_running s \<Longrightarrow> js_waiting s \<Longrightarrow> 0 < js_permits s \<Longrightarrow>
    puller_step s PermitAcquired
      (s\<lparr>js_permits := js_permits s - 1, js_handlers := js_handlers s + 1, js_waiting := False\<rparr>)"
| stream_failed: "js_running s \<Longrightarrow> \<not> js_waiting s \<Longrightarrow>
    puller_step s StreamFailed (s\<lparr>js_running := False\<rparr>)"
| stream_ended: "js_running s \<Longrightarrow> \<not> js_waiting s \<Longrightarrow>
    puller_step s StreamEnded (s\<lparr>js_running := False\<rparr>)"
| handler_ended: "0 < js_handlers s \<Longrightarrow>
    puller_step s HandlerEnded
      (s\<lparr>js_permits := js_permits s + 1, js_handlers := js_handlers s - 1\<rparr>)"

inductive_cases puller_stepE: "puller_step s l t"

interpretation puller_pool: permit_pool "\<lambda>s. s = start_puller n" puller_step
    js_permits js_handlers n for n
  by unfold_locales (auto simp: start_puller_def elim!: puller_stepE)

text \<open>
  The durable worker never has more than the reviewed 32 handlers in flight, and a
  pulled message is started only while a permit is free.
\<close>

lemma puller_bounded:
  assumes "serve_jetstream b c = Ok s0" and "reachable (\<lambda>s. s = s0) puller_step s"
  shows "js_handlers s \<le> cfg_max_concurrency c \<and> cfg_max_concurrency c \<le> 32 \<and>
    (\<forall>t. puller_step s PermitAcquired t \<longrightarrow>
       js_handlers s < cfg_max_concurrency c \<and> js_handlers t \<le> cfg_max_concurrency c)"
proof -
  let ?n = "cfg_max_concurrency c"
  from serve_jetstream_Ok [OF assms(1)] have s0: "s0 = start_puller ?n" and n: "?n \<le> 32"
    by auto
  from assms(2) have r: "reachable (\<lambda>s. s = start_puller ?n) puller_step s" by (simp add: s0)
  have "js_permits s + js_handlers s = ?n" using r by (rule puller_pool.conserved)
  then show ?thesis using n by (auto elim!: puller_stepE)
qed

text \<open>
  However connections come and go, a started listener never runs more than the
  reviewed 128 connections, and it turns a connection away exactly when that many permits
  are in use.
\<close>

lemma listener_backpressure:
  assumes "serve_mtls_tcp n = Ok s0" and "reachable (\<lambda>s. s = s0) listener_step s"
  shows "connections s \<le> n \<and> n \<le> 128 \<and>
    (\<forall>t. listening s \<and> listener_step s Accepted t \<longrightarrow>
       (rejected t = rejected s + 1 \<and> connections t = connections s \<longleftrightarrow> connections s = n))"
proof -
  from assms(1) have s0: "s0 = start_listener n" and n: "n \<le> 128"
    by (auto simp: serve_mtls_tcp_def in_range_def MAX_TCP_CONNECTIONS_def split: if_splits)
  from assms(2) have r: "reachable (\<lambda>s. s = start_listener n) listener_step s" by (simp add: s0)
  have "permits s = 0 \<longleftrightarrow> connections s = n" using r by (rule listener_pool.full_iff)
  moreover have "connections s \<le> n" using r by (rule listener_pool.held_bounded)
  ultimately show ?thesis using n by (auto simp: listener_accepted)
qed

end
