(* ===== verification/JetStream.thy ===== *)
theory JetStream
  imports Journal Workers
begin

text \<open>
  The handler of one durable message, \<open>handle_jetstream_message\<close> of
  \<open>src/transport_runtime.rs\<close>: first as the code has it, from the admission of the
  payload to its acknowledgement, then cut at its await points into stages, so that the
  handlers of many messages and redeliveries interleave between their journal calls, as the
  tasks of the worker do. The journal is any implementation of the trait; what the worker
  guarantees is proved from its contract and then read off for the SeaORM journal.
\<close>

section \<open>What a handler does to the outside\<close>

datatype settlement = Ack | Nak nat | Term

text \<open>
  The calls a handler makes, in order: the processing of a payload for an operation, the
  publication of a result (operation, subject, message id, body), and the settlement of the
  message, with the operation it was admitted for, if any.
\<close>

datatype effect =
    Process ustr "u8 list"
  | Publish ustr ustr ustr "u8 list"
  | Settle "ustr option" settlement

datatype handler_error =
    JournalFailed transport_error
  | EncodingFailed
  | PublishTimedOut
  | PublishFailed
  | SettleFailed
  | Crashed

datatype publish_outcome = PublishAcknowledged | PublishTimeout | PublishRefused

text \<open>What the environment decides at one await point.\<close>

record 'f moment =
  at_now :: u64
  at_timed_out :: bool
  at_fault :: 'f
  at_publish :: publish_outcome
  at_settled :: bool

datatype await_point =
  AtAdmission | AtClaim | AtProcess | AtComplete | AtPublish | AtMark | AtSettle

record worker =
  w_serde :: serde
  w_mac :: "u8 list \<Rightarrow> u8 list \<Rightarrow> u8 list option"
  w_key :: "u8 list"
  w_service :: service

section \<open>The handler\<close>

text \<open>Size, UTF-8, JSON, validation and attestation, in this order.\<close>

definition admit_message ::
  "worker \<Rightarrow> u64 \<Rightarrow> u8 list \<Rightarrow> (ustr \<times> authenticated_operation) option" where
  "admit_message w now bytes =
     (if length bytes > MAX_TRANSPORT_BYTES then None
      else case from_utf8 bytes of
        None \<Rightarrow> None
      | Some request_json \<Rightarrow>
          (case operation_from_str (w_serde w) request_json of
             None \<Rightarrow> None
           | Some request \<Rightarrow>
               if \<not> is_ok (validate_operation (w_serde w) now request JetStreamAsync) then None
               else if \<not> is_ok (verify_operation_attestation (w_mac w) (envelope_to_vec (w_serde w))
                                  (w_key w) (envelope request) (authorization request)) then None
               else Some (request_json, request)))"

definition result_dedupe_id :: "ustr \<Rightarrow> ustr" where
  "result_dedupe_id op = lit ''act-operation-result:'' @ op"

definition settle_with ::
  "'f moment \<Rightarrow> ustr option \<Rightarrow> settlement \<Rightarrow> (handler_error, unit) result \<times> effect list" where
  "settle_with t op k = (if at_settled t then Ok () else Err SettleFailed, [Settle op k])"

definition publish_message ::
  "'f moment \<Rightarrow> ustr \<Rightarrow> (ustr \<times> u8 list) option \<Rightarrow> u8 list \<Rightarrow>
   (handler_error, unit) result \<times> effect list" where
  "publish_message t op pending result_bytes =
     (let (subj, body) = (case pending of
            None \<Rightarrow> (JETSTREAM_RESULT_SUBJECT, result_bytes) | Some p \<Rightarrow> p)
      in (case at_publish t of
            PublishAcknowledged \<Rightarrow> Ok ()
          | PublishTimeout \<Rightarrow> Err PublishTimedOut
          | PublishRefused \<Rightarrow> Err PublishFailed,
          [Publish op subj (result_dedupe_id op) body]))"

text \<open>The tail of the handler, once it has a result: publish, mark, acknowledge.\<close>

definition publish_result ::
  "('f, 's) operation_journal \<Rightarrow> (await_point \<Rightarrow> 'f moment) \<Rightarrow> ustr \<Rightarrow> u8 list \<Rightarrow> 's \<Rightarrow>
   (handler_error, unit) result \<times> effect list \<times> 's" where
  "publish_result J env op result_bytes s =
     (case api_pending_result J (at_fault (env AtPublish)) op s of
        Err e \<Rightarrow> (Err (JournalFailed e), [], s)
      | Ok pending \<Rightarrow>
          (case publish_message (env AtPublish) op pending result_bytes of
             (Err e, published) \<Rightarrow> (Err e, published, s)
           | (Ok _, published) \<Rightarrow>
               (case api_mark_result_published J (at_fault (env AtMark)) op s of
                  (Err e, s1) \<Rightarrow> (Err (JournalFailed e), published, s1)
                | (Ok _, s1) \<Rightarrow>
                    let (r, settled) = settle_with (env AtSettle) (Some op) Ack
                    in (r, published @ settled, s1))))"

definition handle_jetstream_message ::
  "worker \<Rightarrow> ('f, 's) operation_journal \<Rightarrow> (await_point \<Rightarrow> 'f moment) \<Rightarrow> u8 list \<Rightarrow> 's \<Rightarrow>
   (handler_error, unit) result \<times> effect list \<times> 's" where
  "handle_jetstream_message w J env bytes s =
     (case admit_message w (at_now (env AtAdmission)) bytes of
        None \<Rightarrow> let (r, settled) = settle_with (env AtSettle) None Term in (r, settled, s)
      | Some (request_json, request) \<Rightarrow>
          let op = operation_id (envelope request) in
          (case api_claim J (at_fault (env AtClaim)) op (subject (envelope request)) request_json s of
             (Err e, s1) \<Rightarrow> (Err (JournalFailed e), [], s1)
           | (Ok New, s1) \<Rightarrow>
               let reply = process_payload (w_serde w) (w_service w) (at_now (env AtProcess))
                             (at_timed_out (env AtProcess)) bytes JetStreamAsync in
               (case reply_to_vec (w_serde w) reply of
                  None \<Rightarrow> (Err EncodingFailed, [Process op bytes], s1)
                | Some result_bytes \<Rightarrow>
                    (case api_complete J (at_fault (env AtComplete)) op result_bytes s1 of
                       (Err e, s2) \<Rightarrow> (Err (JournalFailed e), [Process op bytes], s2)
                     | (Ok _, s2) \<Rightarrow>
                         let (r, effects, s3) = publish_result J env op result_bytes s2
                         in (r, Process op bytes # effects, s3)))
           | (Ok (Replay result_bytes), s1) \<Rightarrow> publish_result J env op result_bytes s1
           | (Ok Processing, s1) \<Rightarrow>
               let (r, settled) = settle_with (env AtSettle) (Some op) (Nak 1) in (r, settled, s1)
           | (Ok Conflict, s1) \<Rightarrow>
               let (r, settled) = settle_with (env AtSettle) (Some op) Term in (r, settled, s1)))"

section \<open>The handler in stages\<close>

datatype stage =
    Received "u8 list"
  | Claiming "u8 list" ustr authenticated_operation
  | Executing ustr "u8 list"
  | Completing ustr "u8 list"
  | Publishing ustr "u8 list"
  | Marking ustr
  | Settling "ustr option" settlement
  | Done "(handler_error, unit) result"

fun stage_step ::
  "worker \<Rightarrow> ('f, 's) operation_journal \<Rightarrow> 'f moment \<Rightarrow> stage \<Rightarrow> 's \<Rightarrow> stage \<times> effect list \<times> 's" where
  "stage_step w J t (Received bytes) s =
     (case admit_message w (at_now t) bytes of
        None \<Rightarrow> (Settling None Term, [], s)
      | Some (request_json, request) \<Rightarrow> (Claiming bytes request_json request, [], s))"
| "stage_step w J t (Claiming bytes request_json request) s =
     (let op = operation_id (envelope request) in
      case api_claim J (at_fault t) op (subject (envelope request)) request_json s of
        (r, s1) \<Rightarrow>
          (case r of
             Err e \<Rightarrow> Done (Err (JournalFailed e))
           | Ok New \<Rightarrow> Executing op bytes
           | Ok (Replay result_bytes) \<Rightarrow> Publishing op result_bytes
           | Ok Processing \<Rightarrow> Settling (Some op) (Nak 1)
           | Ok Conflict \<Rightarrow> Settling (Some op) Term, [], s1))"
| "stage_step w J t (Executing op bytes) s =
     (case reply_to_vec (w_serde w)
             (process_payload (w_serde w) (w_service w) (at_now t) (at_timed_out t) bytes JetStreamAsync) of
        None \<Rightarrow> Done (Err EncodingFailed)
      | Some result_bytes \<Rightarrow> Completing op result_bytes, [Process op bytes], s)"
| "stage_step w J t (Completing op result_bytes) s =
     (case api_complete J (at_fault t) op result_bytes s of
        (r, s1) \<Rightarrow>
          (case r of Err e \<Rightarrow> Done (Err (JournalFailed e)) | Ok _ \<Rightarrow> Publishing op result_bytes, [], s1))"
| "stage_step w J t (Publishing op result_bytes) s =
     (case api_pending_result J (at_fault t) op s of
        Err e \<Rightarrow> (Done (Err (JournalFailed e)), [], s)
      | Ok pending \<Rightarrow>
          (case publish_message t op pending result_bytes of
             (r, published) \<Rightarrow>
               (case r of Err e \<Rightarrow> Done (Err e) | Ok _ \<Rightarrow> Marking op, published, s)))"
| "stage_step w J t (Marking op) s =
     (case api_mark_result_published J (at_fault t) op s of
        (r, s1) \<Rightarrow>
          (case r of Err e \<Rightarrow> Done (Err (JournalFailed e)) | Ok _ \<Rightarrow> Settling (Some op) Ack, [], s1))"
| "stage_step w J t (Settling op k) s =
     (let (r, settled) = settle_with t op k in (Done r, settled, s))"
| "stage_step w J t (Done r) s = (Done r, [], s)"

fun point_of :: "stage \<Rightarrow> await_point" where
  "point_of (Received _) = AtAdmission"
| "point_of (Claiming _ _ _) = AtClaim"
| "point_of (Executing _ _) = AtProcess"
| "point_of (Completing _ _) = AtComplete"
| "point_of (Publishing _ _) = AtPublish"
| "point_of (Marking _) = AtMark"
| "point_of (Settling _ _) = AtSettle"
| "point_of (Done _) = AtSettle"

text \<open>The stages run one after the other, without another task between them.\<close>

fun run_stages ::
  "nat \<Rightarrow> worker \<Rightarrow> ('f, 's) operation_journal \<Rightarrow> (await_point \<Rightarrow> 'f moment) \<Rightarrow> stage \<Rightarrow> 's \<Rightarrow>
   stage \<times> effect list \<times> 's" where
  "run_stages 0 w J env g s = (g, [], s)"
| "run_stages (Suc n) w J env g s =
     (let (g1, e1, s1) = stage_step w J (env (point_of g)) g s;
          (g2, e2, s2) = run_stages n w J env g1 s1
      in (g2, e1 @ e2, s2))"

fun stage_rank :: "stage \<Rightarrow> nat" where
  "stage_rank (Received _) = 7"
| "stage_rank (Claiming _ _ _) = 6"
| "stage_rank (Executing _ _) = 5"
| "stage_rank (Completing _ _) = 4"
| "stage_rank (Publishing _ _) = 3"
| "stage_rank (Marking _) = 2"
| "stage_rank (Settling _ _) = 1"
| "stage_rank (Done _) = 0"

lemma stage_step_rank:
  "stage_rank g \<noteq> 0 \<Longrightarrow> stage_rank (fst (stage_step w J t g s)) < stage_rank g"
  by (cases g) (auto simp: settle_with_def Let_def split: option.splits prod.splits sum.splits
      journal_claim.splits)

lemma stage_rank_0_iff: "stage_rank g = 0 \<longleftrightarrow> (\<exists>r. g = Done r)"
  by (cases g) auto

lemma run_stages_Done [simp]: "run_stages n w J env (Done r) s = (Done r, [], s)"
  by (induction n) simp_all

lemma run_stages_ends:
  "stage_rank g \<le> n \<Longrightarrow> \<exists>r es s'. run_stages n w J env g s = (Done r, es, s')"
proof (induction n arbitrary: g s)
  case 0
  then show ?case by (simp add: stage_rank_0_iff)
next
  case (Suc n)
  obtain g1 e1 s1 where st: "stage_step w J (env (point_of g)) g s = (g1, e1, s1)"
    by (cases "stage_step w J (env (point_of g)) g s")
  have "stage_rank g1 \<le> n"
  proof (cases "stage_rank g = 0")
    case True
    then show ?thesis using st by (auto simp: stage_rank_0_iff)
  next
    case False
    from stage_step_rank [OF this, of w J "env (point_of g)" s] st Suc.prems show ?thesis by simp
  qed
  from Suc.IH [OF this, of s1] st show ?case by auto
qed

lemma run_settling:
  "run_stages (Suc n) w J env (Settling op k) s =
     (case settle_with (env AtSettle) op k of (r, es) \<Rightarrow> (Done r, es, s))"
  by (simp split: prod.split)

lemma run_publishing:
  "run_stages (Suc (Suc (Suc n))) w J env (Publishing op res) s =
     (case publish_result J env op res s of (r, es, s') \<Rightarrow> (Done r, es, s'))"
  by (auto simp: publish_result_def run_settling simp del: run_stages.simps
      simp: run_stages.simps(2) [of "Suc (Suc n)"] run_stages.simps(2) [of "Suc n"]
      split: sum.splits prod.splits)

text \<open>Left alone, the stages are the handler.\<close>

lemma handler_runs_stages:
  "run_stages 7 w J env (Received bytes) s =
     (case handle_jetstream_message w J env bytes s of (r, es, s') \<Rightarrow> (Done r, es, s'))"
proof -
  have seven: "7 = Suc (Suc (Suc (Suc (Suc (Suc (Suc 0))))))" by simp
  show ?thesis
  proof (cases "admit_message w (at_now (env AtAdmission)) bytes")
    case None
    then show ?thesis
      by (simp add: handle_jetstream_message_def seven run_settling run_stages.simps(2) [of "Suc n" for n]
          del: run_stages.simps split: prod.split)
  next
    case (Some p)
    obtain req_json request where p: "p = (req_json, request)" by (cases p)
    let ?op = "operation_id (envelope request)"
    obtain r1 s1 where c: "api_claim J (at_fault (env AtClaim)) ?op (subject (envelope request)) req_json s = (r1, s1)"
      by (cases "api_claim J (at_fault (env AtClaim)) ?op (subject (envelope request)) req_json s")
    have two: "run_stages 7 w J env (Received bytes) s = (case stage_step w J (env AtClaim) (Claiming bytes req_json request) s of
        (g, e, s') \<Rightarrow> case run_stages (Suc (Suc (Suc (Suc (Suc 0))))) w J env g s' of (g2, e2, s2) \<Rightarrow> (g2, e @ e2, s2))"
      using Some p by (simp add: seven run_stages.simps(2) [of "Suc n" for n] del: run_stages.simps split: prod.split)
    show ?thesis
    proof (cases r1)
      case (Inl e)
      then show ?thesis using Some p c by (simp add: two handle_jetstream_message_def)
    next
      case r1: (Inr x)
      show ?thesis
      proof (cases x)
        case New
        let ?reply = "reply_to_vec (w_serde w) (process_payload (w_serde w) (w_service w)
          (at_now (env AtProcess)) (at_timed_out (env AtProcess)) bytes JetStreamAsync)"
        show ?thesis
        proof (cases ?reply)
          case None
          then show ?thesis using Some p c r1 New
            by (simp add: two handle_jetstream_message_def run_stages.simps(2) [of "Suc n" for n]
                del: run_stages.simps)
        next
          case (Some res)
          then show ?thesis
            using \<open>admit_message w (at_now (env AtAdmission)) bytes = Some p\<close> p c r1 New
            by (simp add: two handle_jetstream_message_def run_stages.simps(2) [of "Suc (Suc (Suc n))" for n]
                run_publishing del: run_stages.simps split: prod.split sum.split)
        qed
      qed (use Some p c r1 in \<open>simp_all add: two handle_jetstream_message_def run_publishing
            run_settling del: run_stages.simps split: prod.split\<close>)
    qed
  qed
qed

section \<open>Many handlers over one journal\<close>

text \<open>
  The worker's tasks: any payload may be delivered, again too, at any time; any handler may
  advance by one stage, whatever the environment does at that moment; any may die.
\<close>

record 's system =
  store :: 's
  handlers :: "stage list"
  trace :: "effect list"

datatype 'f system_event = Deliver "u8 list" | Advance nat "'f moment" | Crash nat

inductive system_step ::
  "worker \<Rightarrow> ('f, 's) operation_journal \<Rightarrow> 's system \<Rightarrow> 'f system_event \<Rightarrow> 's system \<Rightarrow> bool"
  for w J where
  deliver: "system_step w J y (Deliver bytes) (y\<lparr>handlers := handlers y @ [Received bytes]\<rparr>)"
| advance: "i < length (handlers y) \<Longrightarrow>
    stage_step w J t (handlers y ! i) (store y) = (g, es, s') \<Longrightarrow>
    system_step w J y (Advance i t)
      (y\<lparr>store := s', handlers := (handlers y)[i := g], trace := trace y @ es\<rparr>)"
| crash: "i < length (handlers y) \<Longrightarrow>
    system_step w J y (Crash i) (y\<lparr>handlers := (handlers y)[i := Done (Err Crashed)]\<rparr>)"

definition start_system :: "'s \<Rightarrow> 's system" where
  "start_system s = \<lparr>store = s, handlers = [], trace = []\<rparr>"

text \<open>A payload that was admitted for an operation, at some time, with its subject and text.\<close>

definition attested :: "worker \<Rightarrow> ustr \<Rightarrow> ustr \<Rightarrow> ustr \<Rightarrow> bool" where
  "attested w op subj request_json \<longleftrightarrow>
     (\<exists>now request. admit_message w now (str_bytes request_json) = Some (request_json, request) \<and>
        operation_id (envelope request) = op \<and> subject (envelope request) = subj)"

text \<open>Bytes that are the encoded reply to this payload, processed at some time.\<close>

definition reply_to :: "worker \<Rightarrow> ustr \<Rightarrow> u8 list \<Rightarrow> bool" where
  "reply_to w request_json result_bytes \<longleftrightarrow>
     (\<exists>now late. reply_to_vec (w_serde w) (process_payload (w_serde w) (w_service w) now late
          (str_bytes request_json) JetStreamAsync) = Some result_bytes)"

text \<open>Whose claim an entry is: the subject and the fingerprint it was claimed with.\<close>

fun claimant :: "journal_entry \<Rightarrow> (ustr \<times> ustr) option" where
  "claimant Unknown = None"
| "claimant (Claimed subj hash) = Some (subj, hash)"
| "claimant (Finished subj hash _ _) = Some (subj, hash)"

lemma claimant_mono: "claimant e = Some c \<Longrightarrow> e \<le> e' \<Longrightarrow> claimant e' = Some c"
  by (cases e; cases e') (auto simp: less_eq_journal_entry_def)

fun is_executing :: "ustr \<Rightarrow> stage \<Rightarrow> bool" where
  "is_executing op (Executing o' _) = (o' = op)"
| "is_executing op _ = False"

fun is_process :: "ustr \<Rightarrow> effect \<Rightarrow> bool" where
  "is_process op (Process o' _) = (o' = op)"
| "is_process op _ = False"

definition tokens :: "ustr \<Rightarrow> stage list \<Rightarrow> effect list \<Rightarrow> nat" where
  "tokens op gs es = length (filter (is_executing op) gs) + length (filter (is_process op) es)"

lemma admit_message_bytes:
  "admit_message w now bytes = Some (request_json, request) \<Longrightarrow> str_bytes request_json = bytes"
  by (auto simp: admit_message_def from_utf8_Some_iff split: if_splits option.splits)

lemma attestedI:
  "admit_message w now bytes = Some (request_json, request) \<Longrightarrow>
   attested w (operation_id (envelope request)) (subject (envelope request)) request_json"
  unfolding attested_def by (metis admit_message_bytes)

lemma reply_toI:
  "reply_to_vec (w_serde w) (process_payload (w_serde w) (w_service w) now late
     (str_bytes request_json) JetStreamAsync) = Some b \<Longrightarrow> reply_to w request_json b"
  unfolding reply_to_def by blast

section \<open>What the worker guarantees, over any journal\<close>

locale durable_worker = operation_journal_contract J wf entry fingerprint
  for J :: "('f, 's) operation_journal" and wf :: "'s \<Rightarrow> bool"
    and entry :: "'s \<Rightarrow> ustr \<Rightarrow> journal_entry" and fingerprint :: "ustr \<Rightarrow> ustr" +
  fixes w :: worker and s0 :: 's
  assumes start_wf: "wf s0" and start_unknown: "entry s0 op = Unknown"
begin

definition finished_with :: "'s \<Rightarrow> ustr \<Rightarrow> u8 list \<Rightarrow> bool" where
  "finished_with s op b \<longleftrightarrow> (\<exists>u h r d. entry s op = Finished u h r d \<and> str_bytes r = b)"

definition published :: "'s \<Rightarrow> effect list \<Rightarrow> ustr \<Rightarrow> bool" where
  "published s tr op \<longleftrightarrow>
     (\<exists>b. finished_with s op b \<and> Publish op JETSTREAM_RESULT_SUBJECT (result_dedupe_id op) b \<in> set tr)"

text \<open>The claim of the operation is the one of this attested payload.\<close>

definition claimed_by :: "'s \<Rightarrow> ustr \<Rightarrow> ustr \<Rightarrow> bool" where
  "claimed_by s op request_json \<longleftrightarrow>
     (\<exists>subj. attested w op subj request_json \<and>
        claimant (entry s op) = Some (subj, fingerprint request_json))"

fun stage_ok :: "'s \<Rightarrow> effect list \<Rightarrow> stage \<Rightarrow> bool" where
  "stage_ok s tr (Claiming bytes request_json request) =
     (attested w (operation_id (envelope request)) (subject (envelope request)) request_json \<and>
      str_bytes request_json = bytes)"
| "stage_ok s tr (Executing op bytes) =
     (\<exists>request_json. claimed_by s op request_json \<and> str_bytes request_json = bytes)"
| "stage_ok s tr (Completing op b) =
     (\<exists>request_json. claimed_by s op request_json \<and> reply_to w request_json b)"
| "stage_ok s tr (Publishing op b) = finished_with s op b"
| "stage_ok s tr (Marking op) = published s tr op"
| "stage_ok s tr (Settling u Ack) =
     (\<exists>op. u = Some op \<and> published s tr op \<and> (\<exists>u h r. entry s op = Finished u h r True))"
| "stage_ok s tr _ = True"

fun effect_ok :: "'s \<Rightarrow> effect list \<Rightarrow> effect \<Rightarrow> bool" where
  "effect_ok s tr (Publish op subj i b) =
     (subj = JETSTREAM_RESULT_SUBJECT \<and> i = result_dedupe_id op \<and> finished_with s op b)"
| "effect_ok s tr (Settle u Ack) =
     (\<exists>op. u = Some op \<and> published s tr op \<and> (\<exists>u h r. entry s op = Finished u h r True))"
| "effect_ok s tr _ = True"

definition entry_ok :: "ustr \<Rightarrow> journal_entry \<Rightarrow> bool" where
  "entry_ok op e \<longleftrightarrow>
     (case e of
        Unknown \<Rightarrow> True
      | Claimed u h \<Rightarrow> \<exists>j. attested w op u j \<and> fingerprint j = h
      | Finished u h r d \<Rightarrow>
          \<exists>j. attested w op u j \<and> fingerprint j = h \<and> reply_to w j (str_bytes r))"

definition system_ok :: "'s system \<Rightarrow> bool" where
  "system_ok y \<longleftrightarrow>
     wf (store y) \<and>
     (\<forall>op. entry_ok op (entry (store y) op)) \<and>
     (\<forall>op. tokens op (handlers y) (trace y) \<le> (if entry (store y) op = Unknown then 0 else 1)) \<and>
     (\<forall>g \<in> set (handlers y). stage_ok (store y) (trace y) g) \<and>
     (\<forall>e \<in> set (trace y). effect_ok (store y) (trace y) e)"

lemma finished_with_mono: "finished_with s op b \<Longrightarrow> entry s op \<le> entry s' op \<Longrightarrow> finished_with s' op b"
  unfolding finished_with_def using finished_mono by metis

lemma published_mono:
  "published s tr op \<Longrightarrow> entry s op \<le> entry s' op \<Longrightarrow> published s' (tr @ es) op"
  unfolding published_def using finished_with_mono by fastforce

lemma claimed_by_mono: "claimed_by s op j \<Longrightarrow> entry s op \<le> entry s' op \<Longrightarrow> claimed_by s' op j"
  unfolding claimed_by_def using claimant_mono by metis

lemma delivered_mono:
  "entry s op = Finished u h r True \<Longrightarrow> entry s op \<le> entry s' op \<Longrightarrow> entry s' op = Finished u h r True"
  by (cases "entry s' op") (auto simp: less_eq_journal_entry_def)

lemma acknowledged_mono:
  "published s tr op \<and> (\<exists>u h r. entry s op = Finished u h r True) \<Longrightarrow> entry s op \<le> entry s' op \<Longrightarrow>
   published s' (tr @ es) op \<and> (\<exists>u h r. entry s' op = Finished u h r True)"
  using published_mono delivered_mono by blast

lemma stage_ok_mono:
  assumes ok: "stage_ok s tr g" and le: "\<And>op. entry s op \<le> entry s' op"
  shows "stage_ok s' (tr @ es) g"
proof (cases g)
  case (Settling u k)
  with ok show ?thesis using acknowledged_mono [OF _ le] by (cases k) (auto simp del: ex_simps)
next
  case (Executing op bytes)
  with ok show ?thesis using claimed_by_mono [OF _ le] by auto
next
  case (Completing op b)
  with ok show ?thesis using claimed_by_mono [OF _ le] by auto
qed (use ok finished_with_mono [OF _ le] published_mono [OF _ le] in auto)

lemma effect_ok_mono:
  assumes ok: "effect_ok s tr e" and le: "\<And>op. entry s op \<le> entry s' op"
  shows "effect_ok s' (tr @ es) e"
proof (cases e)
  case (Settle u k)
  with ok show ?thesis using acknowledged_mono [OF _ le] by (cases k) (auto simp del: ex_simps)
qed (use ok finished_with_mono [OF _ le] in auto)

end

context durable_worker
begin

lemma claim_forward:
  assumes "wf s" and "api_claim J f op subj req s = (r, s')"
  shows "wf s' \<and> (\<forall>o'. entry s o' \<le> entry s' o')"
proof -
  note law = claim_law [OF assms]
  have "entry s o' \<le> entry s' o'" for o'
    using law claim_progress [of "entry s op"] by (cases "o' = op") auto
  with law show ?thesis by blast
qed

lemma complete_forward:
  assumes "wf s" and "api_complete J f op b s = (v, s')"
  shows "wf s' \<and> (\<forall>o'. entry s o' \<le> entry s' o')"
proof -
  note law = complete_law [OF assms]
  have "entry s o' \<le> entry s' o'" for o'
    using law by (cases "o' = op") (auto dest: complete_progress)
  with law show ?thesis by blast
qed

lemma mark_forward:
  assumes "wf s" and "api_mark_result_published J f op s = (v, s')"
  shows "wf s' \<and> (\<forall>o'. entry s o' \<le> entry s' o')"
proof -
  note law = mark_law [OF assms]
  have "entry s o' \<le> entry s' o'" for o'
    using law mark_progress [of "entry s op"] by (cases "o' = op") auto
  with law show ?thesis by blast
qed

lemma stage_forward:
  assumes "wf s" and "stage_step w J t g s = (g', es, s')"
  shows "wf s' \<and> (\<forall>o'. entry s o' \<le> entry s' o')"
proof (cases g)
  case (Claiming bytes req_json request)
  with assms(2) obtain r where
    "api_claim J (at_fault t) (operation_id (envelope request)) (subject (envelope request)) req_json s = (r, s')"
    by (auto simp: Let_def split: prod.splits)
  with assms(1) show ?thesis by (rule claim_forward)
next
  case (Completing op b)
  with assms(2) obtain r where "api_complete J (at_fault t) op b s = (r, s')"
    by (auto split: prod.splits)
  with assms(1) show ?thesis by (rule complete_forward)
next
  case (Marking op)
  with assms(2) obtain r where "api_mark_result_published J (at_fault t) op s = (r, s')"
    by (auto split: prod.splits)
  with assms(1) show ?thesis by (rule mark_forward)
qed (use assms in \<open>auto split: option.splits prod.splits sum.splits\<close>)

lemma claim_ok_entry:
  assumes "wf s" and "api_claim J f op subj req s = (Ok c, s')"
  shows "case c of
      New \<Rightarrow> entry s op = Unknown \<and> entry s' op = Claimed subj (fingerprint req)
    | Replay b \<Rightarrow> finished_with s' op b
    | _ \<Rightarrow> True"
  using claim_law [OF assms]
  by (cases "entry s op") (auto simp: finished_with_def split: if_splits)

lemma complete_ok_entry:
  assumes "wf s" and "api_complete J f op b s = (Ok v, s')"
  shows "finished_with s' op b"
proof -
  from complete_law [OF assms] obtain res where res: "from_utf8 b = Some res"
    "spec_complete res (entry s op) = Some (entry s' op)" by auto
  then obtain u h where "entry s' op = Finished u h res False"
    by (cases "entry s op") (auto dest: sym)
  moreover have "str_bytes res = b" using res(1) by (simp add: from_utf8_Some_iff)
  ultimately show ?thesis unfolding finished_with_def by blast
qed

lemma pending_ok_entry:
  assumes "wf s" and "api_pending_result J f op s = Ok p" and "finished_with s op b"
  shows "p = None \<or> p = Some (JETSTREAM_RESULT_SUBJECT, b)"
proof -
  obtain u h r d where "entry s op = Finished u h r d" "str_bytes r = b"
    using assms(3) by (auto simp: finished_with_def)
  then show ?thesis
    using pending_law [OF assms(1,2)] by (cases d) (simp_all add: JETSTREAM_RESULT_SUBJECT_def)
qed

lemma stage_keeps_claiming:
  assumes "stage_step w J t (Received bytes) s = (g', es, s')"
  shows "stage_ok s' tr g' \<and> es = []"
  using assms by (auto dest: attestedI admit_message_bytes split: option.splits prod.splits)

lemma stage_keeps_claimed:
  assumes wf: "wf s" and ok: "stage_ok s tr (Claiming bytes req_json request)"
    and st: "stage_step w J t (Claiming bytes req_json request) s = (g', es, s')"
  shows "stage_ok s' tr g' \<and> es = []"
proof -
  let ?op = "operation_id (envelope request)"
  obtain r where c: "api_claim J (at_fault t) ?op (subject (envelope request)) req_json s = (r, s')"
    using st by (auto simp: Let_def split: prod.splits)
  show ?thesis
  proof (cases r)
    case (Inl e)
    with st c show ?thesis by auto
  next
    case (Inr x)
    have "case x of New \<Rightarrow> entry s ?op = Unknown \<and>
          entry s' ?op = Claimed (subject (envelope request)) (fingerprint req_json)
        | Replay b \<Rightarrow> finished_with s' ?op b | _ \<Rightarrow> True"
      using wf c unfolding Inr by (rule claim_ok_entry)
    moreover have "attested w ?op (subject (envelope request)) req_json" "str_bytes req_json = bytes"
      using ok by auto
    ultimately show ?thesis using st [symmetric] c Inr
      by (cases x) (auto simp: claimed_by_def)
  qed
qed

lemma stage_keeps_executed:
  assumes ok: "stage_ok s tr (Executing op bytes)"
    and st: "stage_step w J t (Executing op bytes) s = (g', es, s')"
  shows "stage_ok s' tr g' \<and> es = [Process op bytes]"
  using st ok by (auto split: option.splits) (blast intro: reply_toI)

lemma stage_keeps_completed:
  assumes wf: "wf s" and st: "stage_step w J t (Completing op b) s = (g', es, s')"
  shows "stage_ok s' tr g' \<and> es = []"
proof -
  obtain r where c: "api_complete J (at_fault t) op b s = (r, s')"
    using st by (auto split: prod.splits)
  then have "finished_with s' op b" if "r = Ok v" for v
    using complete_ok_entry [OF wf, of "at_fault t" op b v s'] that by simp
  with st c show ?thesis by (cases r) auto
qed

lemma stage_keeps_published:
  assumes wf: "wf s" and ok: "stage_ok s tr (Publishing op b)"
    and st: "stage_step w J t (Publishing op b) s = (g', es, s')"
  shows "stage_ok s' (tr @ es) g' \<and> (\<forall>e \<in> set es. effect_ok s' (tr @ es) e)"
proof (cases "api_pending_result J (at_fault t) op s")
  case (Inl e)
  with st show ?thesis by auto
next
  case (Inr p)
  have f: "finished_with s op b" using ok by simp
  have p: "publish_message t op p b =
      (case at_publish t of PublishAcknowledged \<Rightarrow> Ok () | PublishTimeout \<Rightarrow> Err PublishTimedOut
         | PublishRefused \<Rightarrow> Err PublishFailed,
       [Publish op JETSTREAM_RESULT_SUBJECT (result_dedupe_id op) b])"
    using pending_ok_entry [OF wf Inr f] by (auto simp: publish_message_def)
  show ?thesis
    using st Inr f p by (auto simp: published_def split: sum.splits)
qed

lemma stage_keeps_marked:
  assumes wf: "wf s" and ok: "stage_ok s tr (Marking op)"
    and st: "stage_step w J t (Marking op) s = (g', es, s')"
  shows "stage_ok s' tr g' \<and> es = []"
proof -
  obtain r where c: "api_mark_result_published J (at_fault t) op s = (r, s')"
    using st by (auto split: prod.splits)
  have le: "entry s op \<le> entry s' op" using mark_forward [OF wf c] by blast
  have "published s' (tr @ []) op" using ok le by (intro published_mono [of s]) simp_all
  then have p: "published s' tr op" by simp
  show ?thesis
  proof (cases r)
    case (Inl e)
    with st c show ?thesis by auto
  next
    case (Inr v)
    have "entry s' op = spec_mark (entry s op)" using mark_law [OF wf c] Inr by simp
    moreover obtain u h x d where "entry s op = Finished u h x d"
      using ok by (auto simp: published_def finished_with_def)
    ultimately show ?thesis using st c Inr p by auto
  qed
qed

lemma stage_keeps_settled:
  assumes ok: "stage_ok s tr (Settling u k)"
    and st: "stage_step w J t (Settling u k) s = (g', es, s')"
  shows "stage_ok s' tr g' \<and> (\<forall>e \<in> set es. effect_ok s' (tr @ es) e)"
proof -
  have "g' = Done (fst (settle_with t u k))" "es = [Settle u k]" "s' = s"
    using st by (auto simp: settle_with_def)
  moreover have "effect_ok s (tr @ [Settle u k]) (Settle u k)"
    using effect_ok_mono [of s tr "Settle u k" s] ok by (cases k) auto
  ultimately show ?thesis by simp
qed

lemma stage_keeps:
  assumes wf: "wf s" and ok: "stage_ok s tr g" and st: "stage_step w J t g s = (g', es, s')"
  shows "stage_ok s' (tr @ es) g' \<and> (\<forall>e \<in> set es. effect_ok s' (tr @ es) e)"
proof (cases g)
  case (Received bytes)
  with stage_keeps_claiming [of t bytes s g' es s' tr] st show ?thesis by simp
next
  case (Claiming bytes req_json request)
  with stage_keeps_claimed [OF wf, of tr bytes req_json request t g' es s'] ok st show ?thesis by simp
next
  case (Executing op bytes)
  have e: "stage_ok s' tr g'" "es = [Process op bytes]"
    using stage_keeps_executed [of s tr op bytes t g' es s'] ok st Executing by simp_all
  have "stage_ok s' (tr @ es) g'" using e(1) by (rule stage_ok_mono) simp
  with e(2) show ?thesis by simp
next
  case (Completing op b)
  with stage_keeps_completed [OF wf, of t op b g' es s' tr] st show ?thesis by simp
next
  case (Publishing op b)
  with stage_keeps_published [OF wf, of tr op b t g' es s'] ok st show ?thesis by simp
next
  case (Marking op)
  with stage_keeps_marked [OF wf, of tr op t g' es s'] ok st show ?thesis by simp
next
  case (Settling u k)
  have e: "stage_ok s' tr g'" "\<forall>e \<in> set es. effect_ok s' (tr @ es) e"
    using stage_keeps_settled [of s tr u k t g' es s'] ok st Settling by simp_all
  have "stage_ok s' (tr @ es) g'" using e(1) by (rule stage_ok_mono) simp
  with e(2) show ?thesis by simp
next
  case (Done r)
  with st show ?thesis by auto
qed

end

context durable_worker
begin

lemma entry_ok_claim:
  "entry_ok op e \<Longrightarrow> attested w op u j \<Longrightarrow> entry_ok op (snd (spec_claim u (fingerprint j) e))"
  by (cases e) (auto simp: entry_ok_def)

lemma entry_ok_complete:
  "claimed_by s op j \<Longrightarrow> reply_to w j (str_bytes r) \<Longrightarrow> spec_complete r (entry s op) = Some e' \<Longrightarrow>
   entry_ok op e'"
  by (cases "entry s op") (auto simp: entry_ok_def claimed_by_def)

lemma entry_ok_mark: "entry_ok op e \<Longrightarrow> entry_ok op (spec_mark e)"
  by (cases e) (auto simp: entry_ok_def)

lemma stage_keeps_entries:
  assumes wf: "wf s" and ok: "stage_ok s tr g" and st: "stage_step w J t g s = (g', es, s')"
    and e: "\<And>op. entry_ok op (entry s op)"
  shows "entry_ok o' (entry s' o')"
proof (cases g)
  case (Claiming bytes req_json request)
  let ?op = "operation_id (envelope request)" and ?u = "subject (envelope request)"
  obtain r where c: "api_claim J (at_fault t) ?op ?u req_json s = (r, s')"
    using st Claiming by (auto simp: Let_def split: prod.splits)
  have "attested w ?op ?u req_json" using ok Claiming by simp
  then have "entry_ok ?op (snd (spec_claim ?u (fingerprint req_json) (entry s ?op)))"
    by (rule entry_ok_claim [OF e])
  then show ?thesis using claim_law [OF wf c] e by (cases "o' = ?op") auto
next
  case (Completing op b)
  obtain r where c: "api_complete J (at_fault t) op b s = (r, s')"
    using st Completing by (auto split: prod.splits)
  obtain j where j: "claimed_by s op j" "reply_to w j b" using ok Completing by auto
  then have new: "entry_ok op e'" if "from_utf8 b = Some x" "spec_complete x (entry s op) = Some e'" for x e'
    using that(1) j(2) by (intro entry_ok_complete [OF j(1) _ that(2)]) (simp add: from_utf8_Some_iff)
  from complete_law [OF wf c] have "entry s' op = entry s op \<or> entry_ok op (entry s' op)"
    "o' \<noteq> op \<longrightarrow> entry s' o' = entry s o'" using new by blast+
  then show ?thesis using e [of op] e [of o'] by (cases "o' = op") auto
next
  case (Marking op)
  obtain r where c: "api_mark_result_published J (at_fault t) op s = (r, s')"
    using st Marking by (auto split: prod.splits)
  show ?thesis using mark_law [OF wf c] e [of o'] e [of op] entry_ok_mark [OF e, of op]
    by (cases "o' = op") auto
qed (use st e [of o'] in \<open>auto split: option.splits prod.splits sum.splits\<close>)

lemma stage_tokens:
  assumes wf: "wf s" and st: "stage_step w J t g s = (g', es, s')"
  shows "(if is_executing op g' then 1 else 0) + length (filter (is_process op) es)
      \<le> (if is_executing op g then 1 else 0) \<or>
    entry s op = Unknown \<and> entry s' op \<noteq> Unknown \<and> es = []"
proof (cases g)
  case (Claiming bytes req_json request)
  let ?op = "operation_id (envelope request)"
  obtain r where c: "api_claim J (at_fault t) ?op (subject (envelope request)) req_json s = (r, s')"
    using st Claiming by (auto simp: Let_def split: prod.splits)
  show ?thesis
  proof (cases "r = Ok New")
    case True
    have "entry s ?op = Unknown \<and> entry s' ?op \<noteq> Unknown"
      using claim_ok_entry [OF wf c [unfolded True]] by simp
    then show ?thesis using st Claiming c True by (cases "op = ?op") auto
  next
    case False
    then show ?thesis using st Claiming c
      by (auto simp: Let_def split: sum.splits journal_claim.splits)
  qed
next
  case (Publishing o' b)
  with st show ?thesis
    by (auto simp: publish_message_def Let_def split: sum.splits prod.splits)
qed (use st in \<open>auto simp: settle_with_def Let_def split: option.splits prod.splits sum.splits\<close>)

lemma start_ok: "system_ok (start_system s0)"
  by (simp add: system_ok_def start_system_def start_wf start_unknown tokens_def entry_ok_def)

lemma deliver_ok:
  "system_ok y \<Longrightarrow> system_ok (y\<lparr>handlers := handlers y @ [Received bytes]\<rparr>)"
  by (simp add: system_ok_def tokens_def)

lemma crash_ok:
  assumes ok: "system_ok y" and i: "i < length (handlers y)"
  shows "system_ok (y\<lparr>handlers := (handlers y)[i := Done (Err Crashed)]\<rparr>)"
proof -
  have "tokens op ((handlers y)[i := Done (Err Crashed)]) (trace y) \<le> tokens op (handlers y) (trace y)" for op
    using length_filter_update [OF i, of "is_executing op" "Done (Err Crashed)"]
    by (simp add: tokens_def split: if_splits)
  then have "tokens op ((handlers y)[i := Done (Err Crashed)]) (trace y)
      \<le> (if entry (store y) op = Unknown then 0 else 1)" for op
    using ok order_trans unfolding system_ok_def by blast
  moreover have "\<forall>g \<in> set ((handlers y)[i := Done (Err Crashed)]). stage_ok (store y) (trace y) g"
    using ok by (auto simp: system_ok_def dest: set_update_cases)
  ultimately show ?thesis using ok by (simp add: system_ok_def)
qed

lemma advance_tokens:
  assumes ok: "system_ok y" and i: "i < length (handlers y)"
    and st: "stage_step w J t (handlers y ! i) (store y) = (g, es, s')"
  shows "tokens op ((handlers y)[i := g]) (trace y @ es) \<le> (if entry s' op = Unknown then 0 else 1)"
proof -
  have wf: "wf (store y)" using ok by (simp add: system_ok_def)
  have bound: "tokens op (handlers y) (trace y) \<le> (if entry (store y) op = Unknown then 0 else 1)"
    using ok by (simp add: system_ok_def)
  have le: "entry (store y) op \<le> entry s' op" using stage_forward [OF wf st] by blast
  then have known: "entry (store y) op \<noteq> Unknown \<Longrightarrow> entry s' op \<noteq> Unknown"
    by (cases "entry (store y) op") (auto simp: less_eq_journal_entry_def)
  note upd = length_filter_update [OF i, of "is_executing op" g]
  from stage_tokens [OF wf st, of op] show ?thesis
  proof (elim disjE)
    assume "(if is_executing op g then 1 else 0) + length (filter (is_process op) es)
        \<le> (if is_executing op (handlers y ! i) then 1 else (0 :: nat))"
    then have "tokens op ((handlers y)[i := g]) (trace y @ es) \<le> tokens op (handlers y) (trace y)"
      using upd by (simp add: tokens_def split: if_splits)
    with bound known show ?thesis by (auto split: if_splits)
  next
    assume new: "entry (store y) op = Unknown \<and> entry s' op \<noteq> Unknown \<and> es = []"
    with bound have "tokens op (handlers y) (trace y) = 0" by simp
    with new upd show ?thesis by (simp add: tokens_def split: if_splits)
  qed
qed

lemma advance_ok:
  assumes ok: "system_ok y" and i: "i < length (handlers y)"
    and st: "stage_step w J t (handlers y ! i) (store y) = (g, es, s')"
  shows "system_ok (y\<lparr>store := s', handlers := (handlers y)[i := g], trace := trace y @ es\<rparr>)"
proof -
  have wf: "wf (store y)" and g0: "stage_ok (store y) (trace y) (handlers y ! i)"
    using ok i by (simp_all add: system_ok_def)
  have fwd: "wf s'" "\<And>op. entry (store y) op \<le> entry s' op" using stage_forward [OF wf st] by auto
  note new = stage_keeps [OF wf g0 st]
  have "stage_ok s' (trace y @ es) h" if "h \<in> set ((handlers y)[i := g])" for h
    using set_update_cases [OF that] new ok stage_ok_mono [OF _ fwd(2)]
    by (auto simp: system_ok_def)
  moreover have "effect_ok s' (trace y @ es) e" if "e \<in> set (trace y @ es)" for e
    using that new ok effect_ok_mono [OF _ fwd(2)] by (auto simp: system_ok_def)
  moreover have "entry_ok op (entry s' op)" for op
    using ok by (intro stage_keeps_entries [OF wf g0 st]) (simp add: system_ok_def)
  ultimately show ?thesis
    using fwd(1) advance_tokens [OF ok i st] by (simp add: system_ok_def)
qed

lemma system_step_ok: "system_ok y \<Longrightarrow> system_step w J y l y' \<Longrightarrow> system_ok y'"
  by (erule system_step.cases) (auto intro: deliver_ok crash_ok advance_ok)

end

sublocale durable_worker \<subseteq> tasks: invariant_system "\<lambda>y. y = start_system s0"
    "system_step w J" system_ok
  by unfold_locales (auto simp: start_ok intro: system_step_ok)

context durable_worker
begin

lemma processed_once:
  assumes "reachable (\<lambda>y. y = start_system s0) (system_step w J) y"
  shows "length (filter (is_process op) (trace y)) \<le> 1"
proof -
  have "tokens op (handlers y) (trace y) \<le> (if entry (store y) op = Unknown then 0 else 1)"
    using tasks.reachable_inv [OF assms] by (simp add: system_ok_def)
  then show ?thesis by (simp add: tokens_def split: if_splits)
qed

lemma trace_ok:
  "reachable (\<lambda>y. y = start_system s0) (system_step w J) y \<Longrightarrow> e \<in> set (trace y) \<Longrightarrow>
   effect_ok (store y) (trace y) e"
  using tasks.reachable_inv [of y] by (simp add: system_ok_def)

lemma entries_ok:
  "reachable (\<lambda>y. y = start_system s0) (system_step w J) y \<Longrightarrow> entry_ok op (entry (store y) op)"
  using tasks.reachable_inv [of y] by (simp add: system_ok_def)

end

section \<open>Operations whose handler died\<close>

fun completes :: "ustr \<Rightarrow> stage \<Rightarrow> bool" where
  "completes op (Executing o' _) = (o' = op)"
| "completes op (Completing o' _) = (o' = op)"
| "completes op _ = False"

context durable_worker
begin

lemma claimed_spec_claim:
  "e = Claimed u h \<Longrightarrow> snd (spec_claim subj hash e) = e \<and> fst (spec_claim subj hash e) \<noteq> New"
  by simp

lemma stage_leaves_stranded:
  assumes wf: "wf s" and st: "stage_step w J t g s = (g', es, s')"
    and e: "entry s op = Claimed u h" and g: "\<not> completes op g"
  shows "entry s' op = Claimed u h \<and> \<not> completes op g'"
proof (cases g)
  case (Claiming bytes req_json request)
  let ?o = "operation_id (envelope request)"
  obtain r where c: "api_claim J (at_fault t) ?o (subject (envelope request)) req_json s = (r, s')"
    using st Claiming by (auto simp: Let_def split: prod.splits)
  note law = claim_law [OF wf c]
  have e': "entry s' op = Claimed u h" using law e by (cases "?o = op") auto
  have "r = Ok New \<longrightarrow> ?o \<noteq> op" using claim_New_iff_unknown [OF wf, of "at_fault t" ?o _ _ New s'] c e
    by auto
  then have "\<not> completes op g'"
    using st Claiming c by (auto simp: Let_def split: sum.splits journal_claim.splits)
  with e' show ?thesis by simp
next
  case (Executing o' b)
  with st g e show ?thesis by (auto split: option.splits)
next
  case (Completing o' b)
  obtain r where c: "api_complete J (at_fault t) o' b s = (r, s')"
    using st Completing by (auto split: prod.splits)
  have "entry s' op = entry s op" using complete_law [OF wf c] g Completing by simp
  with st c Completing e show ?thesis by (auto split: sum.splits)
next
  case (Marking o')
  obtain r where c: "api_mark_result_published J (at_fault t) o' s = (r, s')"
    using st Marking by (auto split: prod.splits)
  have "entry s' op = Claimed u h" using mark_law [OF wf c] e by (cases "o' = op") auto
  with st c Marking show ?thesis by (auto split: sum.splits)
qed (use st e in \<open>auto simp: settle_with_def split: option.splits prod.splits sum.splits\<close>)

definition stranded :: "ustr \<Rightarrow> ustr \<Rightarrow> ustr \<Rightarrow> 's system \<Rightarrow> bool" where
  "stranded op u h y \<longleftrightarrow> wf (store y) \<and> entry (store y) op = Claimed u h \<and>
     (\<forall>g \<in> set (handlers y). \<not> completes op g)"

lemma stranded_step: "stranded op u h y \<Longrightarrow> system_step w J y l y' \<Longrightarrow> stranded op u h y'"
proof (erule system_step.cases)
  fix i yy t g es s'
  assume y: "stranded op u h y" and eq: "y = yy"
    "y' = yy\<lparr>store := s', handlers := (handlers yy)[i := g], trace := trace yy @ es\<rparr>"
    and i: "i < length (handlers yy)"
    and st: "stage_step w J t (handlers yy ! i) (store yy) = (g, es, s')"
  have wf: "wf (store yy)" "entry (store yy) op = Claimed u h" "\<not> completes op (handlers yy ! i)"
    using y eq(1) i by (simp_all add: stranded_def)
  have "entry s' op = Claimed u h \<and> \<not> completes op g"
    using wf st by (intro stage_leaves_stranded)
  moreover have "wf s'" using stage_forward [OF wf(1) st] by blast
  ultimately show "stranded op u h y'"
    using y eq by (auto simp: stranded_def dest: set_update_cases)
qed (auto simp: stranded_def dest: set_update_cases)

lemma stranded_forever: "steps (system_step w J) y ls y' \<Longrightarrow> stranded op u h y \<Longrightarrow> stranded op u h y'"
  by (induction rule: steps.induct) (auto intro: stranded_step)

end

section \<open>The worker on the SeaORM journal\<close>

interpretation sow: durable_worker "sea_orm_journal eng digest sd" journal_wf entry
    "\<lambda>req. request_fingerprint digest (str_bytes req)" w empty_database for eng digest sd w
proof unfold_locales
  show "entry empty_database op = Unknown" for op by (simp add: entry_def empty_database_def)
qed (rule journal_wf_empty)

section \<open>Admission\<close>

lemma admit_message_Some_iff:
  "admit_message w now bytes = Some (request_json, request) \<longleftrightarrow>
     length bytes \<le> MAX_TRANSPORT_BYTES \<and> from_utf8 bytes = Some request_json \<and>
     operation_from_str (w_serde w) request_json = Some request \<and>
     is_ok (validate_operation (w_serde w) now request JetStreamAsync) \<and>
     is_ok (verify_operation_attestation (w_mac w) (envelope_to_vec (w_serde w)) (w_key w)
       (envelope request) (authorization request))"
  by (auto simp: admit_message_def split: if_splits option.splits)

lemma admitted_valid:
  "admit_message w now bytes = Some (request_json, request) \<Longrightarrow>
   validate_for (envelope_to_vec (w_serde w)) now (envelope request) JetStreamAsync = Ok ()"
  by (auto simp: admit_message_Some_iff is_ok_iff validate_operation_Ok_iff)

lemma admission_expires:
  assumes "admit_message w t0 bytes = Some p" and "unat t0 + 30000 \<le> unat t1"
  shows "admit_message w t1 bytes = None"
proof (rule ccontr)
  assume "admit_message w t1 bytes \<noteq> None"
  then obtain q where q: "admit_message w t1 bytes = Some q" by blast
  obtain j r where p: "p = (j, r)" by (cases p)
  obtain j' r' where q': "q = (j', r')" by (cases q)
  have same: "r' = r" using assms(1) q p q' by (auto simp: admit_message_Some_iff)
  have "validate_for (envelope_to_vec (w_serde w)) t0 (envelope r) JetStreamAsync = Ok ()"
    using assms(1) p by (auto intro: admitted_valid)
  then have "validate_for (envelope_to_vec (w_serde w)) t1 (envelope r) JetStreamAsync = Err DeadlineExpired"
    using assms(2) by (intro validate_for_window) (simp_all add: MAX_OPERATION_DEADLINE_MS_def)
  moreover have "validate_for (envelope_to_vec (w_serde w)) t1 (envelope r) JetStreamAsync = Ok ()"
    using q q' same by (auto intro: admitted_valid)
  ultimately show False by simp
qed

text \<open>What is admitted satisfies the constraints of the tables.\<close>

lemma admitted_claim_checks:
  assumes "admit_message w now bytes = Some (request_json, request)" and "\<And>p. length (digest p) = 32"
  shows "claim_checks (operation_id (envelope request)) (subject (envelope request))
    (request_fingerprint digest (str_bytes request_json))"
proof -
  have "validate_for (envelope_to_vec (w_serde w)) now (envelope request) JetStreamAsync = Ok ()"
    using assms(1) by (rule admitted_valid)
  then have "validate_identifier (operation_id (envelope request)) 128 = Ok ()"
    "validate_identifier (subject (envelope request)) 256 = Ok ()"
    by (auto simp: validate_for_Ok_iff admissible_for_def is_ok_iff)
  then have "id_check (operation_id (envelope request))" "subject_check (subject (envelope request))"
    by (auto simp: id_check_def subject_check_def in_range_def dest: validate_identifier_chars)
  then show ?thesis
    using fingerprint_hash_check [of digest "str_bytes request_json"] assms(2)
    by (simp add: claim_checks_def)
qed

section \<open>A message nobody has claimed\<close>

definition untroubled :: "(await_point \<Rightarrow> db_env moment) \<Rightarrow> bool" where
  "untroubled env \<longleftrightarrow>
     (\<forall>p. healthy (at_fault (env p)) \<and> at_publish (env p) = PublishAcknowledged \<and> at_settled (env p))"

lemma claim_healthy_forward:
  fixes digest :: "u8 list \<Rightarrow> u8 list" and req :: ustr
  assumes wf: "journal_wf db" and new: "entry db op = Unknown" and env: "healthy env"
    and checks: "claim_checks op subj (request_fingerprint digest (str_bytes req))"
  obtains db1 where "claim eng digest env op subj req db = (Ok New, db1)" "journal_wf db1"
    "entry db1 op = Claimed subj (request_fingerprint digest (str_bytes req))"
proof -
  obtain r db1 where c: "claim eng digest env op subj req db = (r, db1)"
    by (cases "claim eng digest env op subj req db")
  have r: "r = Ok New" using claim_healthy [OF wf env checks, of eng] c new by simp
  have "journal_wf db1" using claim_wf [OF wf c] by blast
  moreover have "entry db1 op = Claimed subj (request_fingerprint digest (str_bytes req))"
    using claim_refines [OF wf c] r new by simp
  ultimately show thesis using that c r by blast
qed

lemma complete_healthy_forward:
  assumes wf: "journal_wf db" and claimed: "entry db op = Claimed u h" and env: "healthy env"
    and bytes: "from_utf8 bytes = Some res" "length bytes \<le> 65536"
  obtains db1 where "complete ConflictFirst env op bytes db = (Ok (), db1)" "journal_wf db1"
    "entry db1 op = Finished u h res False"
proof -
  obtain v db1 where c: "complete ConflictFirst env op bytes db = (v, db1)"
    by (cases "complete ConflictFirst env op bytes db")
  have v: "v = Ok ()" using complete_healthy [OF wf env, of op bytes] c claimed bytes by simp
  have "journal_wf db1" using complete_wf [OF wf c] by blast
  moreover have "entry db1 op = Finished u h res False"
    using complete_refines [OF wf c] v claimed bytes(1) by simp
  ultimately show thesis using that c v by blast
qed

lemma mark_healthy_forward:
  assumes wf: "journal_wf db" and e: "entry db op = Finished u h res d" and env: "healthy env"
  obtains db1 where "mark_result_published env op db = (Ok (), db1)" "journal_wf db1"
    "entry db1 op = Finished u h res True"
proof -
  have c: "mark_result_published env op db = (Ok (), mark_outbox_sql (db_now env) op db)"
    using env by (simp add: mark_result_published_def commit_healthy) (simp add: healthy_def)
  show thesis
    using that [OF c] mark_outbox_sql_wf [OF wf] entry_marked [OF wf, of "db_now env" op] e by simp
qed

lemma pending_healthy:
  assumes "journal_wf db" and "healthy env"
  shows "pending_result env op db = Ok (spec_pending (entry db op))"
  using pending_refines [OF assms(1), of op] assms(2)
  by (simp add: pending_result_def run_statement_def healthy_def)

lemma publish_result_healthy:
  assumes wf: "journal_wf db" and e: "entry db op = Finished u h res d" and env: "untroubled env"
    and b: "str_bytes res = b"
  shows "\<exists>db'. publish_result (sea_orm_journal eng digest sd) env op b db =
      (Ok (), [Publish op JETSTREAM_RESULT_SUBJECT (result_dedupe_id op) b, Settle (Some op) Ack], db') \<and>
    entry db' op = Finished u h res True"
proof -
  have env': "healthy (at_fault (env p))" "at_publish (env p) = PublishAcknowledged" "at_settled (env p)" for p
    using env by (simp_all add: untroubled_def)
  obtain db1 where m: "mark_result_published (at_fault (env AtMark)) op db = (Ok (), db1)"
    "entry db1 op = Finished u h res True"
    using wf e env'(1) by (rule mark_healthy_forward)
  have "spec_pending (entry db op) = None \<or>
      spec_pending (entry db op) = Some (JETSTREAM_RESULT_SUBJECT, b)"
    using e b by (cases d) (simp_all add: JETSTREAM_RESULT_SUBJECT_def)
  then show ?thesis
    using m by (auto simp: publish_result_def pending_healthy [OF wf env'(1)] publish_message_def
        env' settle_with_def)
qed

lemma fresh_message_completes:
  fixes digest :: "u8 list \<Rightarrow> u8 list"
  assumes wf: "journal_wf db" and env: "untroubled env" and digest: "\<And>p. length (digest p) = 32"
    and admitted: "admit_message w (at_now (env AtAdmission)) bytes = Some (request_json, request)"
    and op: "op = operation_id (envelope request)" and new: "entry db op = Unknown"
    and reply: "reply_to_vec (w_serde w) (process_payload (w_serde w) (w_service w)
        (at_now (env AtProcess)) (at_timed_out (env AtProcess)) bytes JetStreamAsync) = Some b"
    and b: "from_utf8 b = Some res" "length b \<le> 65536"
  shows "\<exists>db'. handle_jetstream_message w (sea_orm_journal ConflictFirst digest sd) env bytes db =
      (Ok (), [Process op bytes, Publish op JETSTREAM_RESULT_SUBJECT (result_dedupe_id op) b,
               Settle (Some op) Ack], db') \<and>
    entry db' op = Finished (subject (envelope request))
      (request_fingerprint digest (str_bytes request_json)) res True"
proof -
  have env': "healthy (at_fault (env p))" for p using env by (simp add: untroubled_def)
  have checks: "claim_checks op (subject (envelope request)) (request_fingerprint digest (str_bytes request_json))"
    unfolding op using admitted digest by (rule admitted_claim_checks)
  obtain db1 where c: "claim ConflictFirst digest (at_fault (env AtClaim)) op (subject (envelope request))
      request_json db = (Ok New, db1)" "journal_wf db1"
    "entry db1 op = Claimed (subject (envelope request)) (request_fingerprint digest (str_bytes request_json))"
    using wf new env' checks by (rule claim_healthy_forward)
  obtain db2 where d: "complete ConflictFirst (at_fault (env AtComplete)) op b db1 = (Ok (), db2)"
    "journal_wf db2" "entry db2 op = Finished (subject (envelope request))
      (request_fingerprint digest (str_bytes request_json)) res False"
    using c(2,3) env' b by (rule complete_healthy_forward)
  have "str_bytes res = b" using b(1) by (simp add: from_utf8_Some_iff)
  from publish_result_healthy [OF d(2,3) env this, of ConflictFirst digest sd] show ?thesis
    using admitted c(1) d(1) reply
    by (auto simp: handle_jetstream_message_def Let_def op)
qed

lemma fresh_message_fails_checks_first:
  fixes digest :: "u8 list \<Rightarrow> u8 list"
  assumes wf: "journal_wf db" and env: "untroubled env" and digest: "\<And>p. length (digest p) = 32"
    and admitted: "admit_message w (at_now (env AtAdmission)) bytes = Some (request_json, request)"
    and op: "op = operation_id (envelope request)" and new: "entry db op = Unknown"
  shows "\<exists>e db'. handle_jetstream_message w (sea_orm_journal ChecksFirst digest sd) env bytes db =
      (Err e, [Process op bytes], db') \<and>
    entry db' op = Claimed (subject (envelope request))
      (request_fingerprint digest (str_bytes request_json))"
proof -
  have env': "healthy (at_fault (env p))" for p using env by (simp add: untroubled_def)
  have checks: "claim_checks op (subject (envelope request)) (request_fingerprint digest (str_bytes request_json))"
    unfolding op using admitted digest by (rule admitted_claim_checks)
  obtain db1 where c: "claim ChecksFirst digest (at_fault (env AtClaim)) op (subject (envelope request))
      request_json db = (Ok New, db1)" "journal_wf db1"
    "entry db1 op = Claimed (subject (envelope request)) (request_fingerprint digest (str_bytes request_json))"
    using wf new env' checks by (rule claim_healthy_forward)
  let ?reply = "reply_to_vec (w_serde w) (process_payload (w_serde w) (w_service w)
      (at_now (env AtProcess)) (at_timed_out (env AtProcess)) bytes JetStreamAsync)"
  show ?thesis
  proof (cases ?reply)
    case None
    then show ?thesis
      using admitted c unfolding op by (simp add: handle_jetstream_message_def Let_def)
  next
    case (Some b)
    obtain e where "complete ChecksFirst (at_fault (env AtComplete)) op b db1 = (Err e, db1)"
      using complete_checks_first by blast
    with Some show ?thesis
      using admitted c unfolding op by (simp add: handle_jetstream_message_def Let_def)
  qed
qed

lemma run_stages_reachable:
  "reachable init (system_step w J) y \<Longrightarrow> i < length (handlers y) \<Longrightarrow>
   run_stages n w J env (handlers y ! i) (store y) = (g, es, s') \<Longrightarrow>
   reachable init (system_step w J)
     (y\<lparr>store := s', handlers := (handlers y)[i := g], trace := trace y @ es\<rparr>)"
proof (induction n arbitrary: y es)
  case 0
  then have "g = handlers y ! i" "es = []" "s' = store y" by simp_all
  with 0(1) show ?case by simp
next
  case (Suc n)
  obtain g1 e1 s1 where st: "stage_step w J (env (point_of (handlers y ! i))) (handlers y ! i) (store y) = (g1, e1, s1)"
    by (cases "stage_step w J (env (point_of (handlers y ! i))) (handlers y ! i) (store y)")
  let ?y = "y\<lparr>store := s1, handlers := (handlers y)[i := g1], trace := trace y @ e1\<rparr>"
  obtain e2 where rest: "run_stages n w J env g1 s1 = (g, e2, s')" and es: "es = e1 @ e2"
    using Suc.prems(3) st by (auto split: prod.splits)
  have "reachable init (system_step w J) ?y"
    using Suc.prems(1) advance [OF Suc.prems(2) st] by (rule reachable_step)
  from Suc.IH [OF this, of e2] Suc.prems(2) rest show ?case by (simp add: es)
qed

section \<open>A run of the worker\<close>

definition sample_request :: authenticated_operation where
  "sample_request =
     \<lparr>authorization = OPERATION_ATTESTATION_PREFIX @ encode_hex (replicate 32 7),
      envelope = sample_envelope\<rparr>"

definition sample_worker :: worker where
  "sample_worker =
     \<lparr>w_serde = \<lparr>envelope_to_vec = \<lambda>_. Some [123, 125],
                operation_from_slice = \<lambda>_. Some sample_request,
                operation_from_str = \<lambda>_. Some sample_request,
                reply_to_vec = \<lambda>_. Some [], value_from_str = \<lambda>_. None\<rparr>,
      w_mac = \<lambda>_ _. Some (replicate 32 7), w_key = replicate 32 97,
      w_service = \<lambda>_ _. Ok JNull\<rparr>"

definition sample_moment :: "db_env moment" where
  "sample_moment =
     \<lparr>at_now = 1, at_timed_out = False, at_fault = calm 5, at_publish = PublishAcknowledged,
      at_settled = True\<rparr>"

lemma sample_untroubled [simp]: "untroubled (\<lambda>_. sample_moment)"
  by (simp add: untroubled_def sample_moment_def)

lemma sample_id_ok: "validate_identifier (lit ''op-018f'') 128 = Ok ()"
  and sample_subject_ok: "validate_identifier (lit ''shared-user-1'') 256 = Ok ()"
  and sample_resource_ok: "validate_identifier (lit ''youtube_status'') 96 = Ok ()"
  by (simp_all add: validate_identifier_Ok_iff ascii_str_len ascii_def lit_def is_control_def
      no_whitespace_trim is_whitespace_def)

lemma sample_validates:
  "validate_for (\<lambda>_. Some [123, 125]) 1 sample_envelope JetStreamAsync = Ok ()"
  by (simp add: validate_for_Ok_iff admissible_for_def sample_envelope_def sample_id_ok
      sample_subject_ok sample_resource_ok MAX_OPERATION_BYTES_def MAX_OPERATION_DEADLINE_MS_def)

lemma sample_verifies:
  "verify_operation_attestation (\<lambda>_ _. Some (replicate 32 7)) (\<lambda>_. Some [123, 125])
     (replicate 32 97) sample_envelope
     (OPERATION_ATTESTATION_PREFIX @ encode_hex (replicate 32 7)) = Ok ()"
  by (simp add: verify_Ok_iff decode_encode_sha256)

lemma sample_admitted: "admit_message sample_worker 1 [] = Some ([], sample_request)"
  using sample_verifies sample_validates verify_shape [OF sample_verifies]
  by (simp add: admit_message_Some_iff sample_worker_def sample_request_def from_utf8_Some_iff
      str_ok_def is_ok_iff validate_operation_Ok_iff)

lemma sample_digest_length: "length (sample_digest p) = 32"
  by (simp add: sample_digest_def)

lemma admit_message_service: "admit_message (w\<lparr>w_service := svc\<rparr>) now bytes = admit_message w now bytes"
  by (cases w) (simp only: admit_message_def worker.simps)

abbreviation sample_id :: ustr where
  "sample_id \<equiv> operation_id (envelope sample_request)"

lemma sample_unknown: "entry empty_database op = Unknown"
  by (simp add: entry_def empty_database_def)

lemma sample_run_service:
  fixes svc :: service
  defines "w \<equiv> sample_worker\<lparr>w_service := svc\<rparr>"
  shows "\<exists>y. reachable (\<lambda>y. y = start_system empty_database)
      (system_step w (sea_orm_journal ConflictFirst sample_digest sd)) y \<and>
    trace y = [Process sample_id [], Publish sample_id JETSTREAM_RESULT_SUBJECT (result_dedupe_id sample_id) [],
               Settle (Some sample_id) Ack] \<and>
    entry (store y) sample_id = Finished (subject sample_envelope) sample_hash [] True"
proof -
  let ?J = "sea_orm_journal ConflictFirst sample_digest sd"
  let ?init = "\<lambda>y. y = start_system empty_database"
  have from_nil: "from_utf8 [] = Some []" by (simp add: from_utf8_Some_iff str_ok_def)
  have admitted: "admit_message w 1 [] = Some ([], sample_request)"
    using sample_admitted unfolding w_def admit_message_service .
  obtain db where h: "handle_jetstream_message w ?J (\<lambda>_. sample_moment) [] empty_database =
      (Ok (), [Process sample_id [], Publish sample_id JETSTREAM_RESULT_SUBJECT (result_dedupe_id sample_id) [],
               Settle (Some sample_id) Ack], db)"
    and e: "entry db sample_id = Finished (subject sample_envelope) sample_hash [] True"
    using fresh_message_completes [where digest = sample_digest and w = w
        and bytes = "[]" and request_json = "[]" and request = sample_request and sd = sd,
        OF journal_wf_empty sample_untroubled sample_digest_length _ refl sample_unknown _ from_nil]
      admitted
    by (auto simp: w_def sample_moment_def sample_worker_def sample_request_def)
  let ?y0 = "start_system empty_database"
  have "reachable ?init (system_step w ?J) (?y0\<lparr>handlers := handlers ?y0 @ [Received []]\<rparr>)"
    by (rule reachable_step) (rule reachable_init, rule refl, rule deliver)
  from run_stages_reachable [OF this, of 0 7 "\<lambda>_. sample_moment"]
  have "reachable ?init (system_step w ?J)
      (?y0\<lparr>handlers := [Done (Ok ())], store := db,
        trace := [Process sample_id [], Publish sample_id JETSTREAM_RESULT_SUBJECT (result_dedupe_id sample_id) [],
               Settle (Some sample_id) Ack]\<rparr>)"
    by (simp add: start_system_def handler_runs_stages h)
  then show ?thesis using e by fastforce
qed

lemma sample_run:
  "\<exists>y. reachable (\<lambda>y. y = start_system empty_database)
      (system_step sample_worker (sea_orm_journal ConflictFirst sample_digest sd)) y \<and>
    trace y = [Process sample_id [], Publish sample_id JETSTREAM_RESULT_SUBJECT (result_dedupe_id sample_id) [],
               Settle (Some sample_id) Ack] \<and>
    entry (store y) sample_id = Finished (subject sample_envelope) sample_hash [] True"
  using sample_run_service [of "w_service sample_worker"] by simp

section \<open>Properties\<close>

text \<open>
  C1: However deliveries, redeliveries, handler interleavings, crashes, database faults and
  lost acknowledgements fall, the payload of one operation is processed at most once.
\<close>

theorem processed_at_most_once:
  assumes "reachable (\<lambda>y. y = start_system empty_database)
    (system_step w (sea_orm_journal eng digest sd)) y"
  shows "length (filter (is_process op) (trace y)) \<le> 1"
  by (rule sow.processed_once [OF assms])

text \<open>
  C17: Every publication carries the reviewed subject, the operation's own message id and
  exactly the result the journal has recorded for the operation, so all publications of one
  operation are the same message.
\<close>

theorem published_result_is_recorded:
  assumes "reachable (\<lambda>y. y = start_system empty_database)
      (system_step w (sea_orm_journal eng digest sd)) y"
    and "Publish op subj message_id body \<in> set (trace y)"
  shows "subj = JETSTREAM_RESULT_SUBJECT \<and> message_id = result_dedupe_id op \<and>
    (\<exists>u h r d. entry (store y) op = Finished u h r d \<and> str_bytes r = body)"
  using sow.trace_ok [OF assms] by (simp add: sow.finished_with_def)

text \<open>
  C18: A message is acknowledged only for an operation whose recorded result has been
  published and marked as delivered.
\<close>

theorem acknowledged_only_after_publication:
  assumes "reachable (\<lambda>y. y = start_system empty_database)
      (system_step w (sea_orm_journal eng digest sd)) y"
    and "Settle u Ack \<in> set (trace y)"
  shows "\<exists>op v h r. u = Some op \<and> entry (store y) op = Finished v h r True \<and>
    Publish op JETSTREAM_RESULT_SUBJECT (result_dedupe_id op) (str_bytes r) \<in> set (trace y)"
  using sow.trace_ok [OF assms] by (auto simp: sow.published_def sow.finished_with_def)

text \<open>
  C6: The journal only ever holds operations whose envelope carried a valid attestation
  under the worker's key: the entry's owner is the attested subject, its hash the
  fingerprint of the attested request, and a recorded result is the encoded reply to that
  very request, processed at some time, never the reply to a request of another subject or
  with another fingerprint.
\<close>

theorem journal_holds_attested_operations:
  assumes "reachable (\<lambda>y. y = start_system empty_database)
      (system_step w (sea_orm_journal eng digest sd)) y"
    and "entry (store y) op = Claimed u h \<or> entry (store y) op = Finished u h r d"
  shows "\<exists>request_json request now.
      request_fingerprint digest (str_bytes request_json) = h \<and>
      operation_from_str (w_serde w) request_json = Some request \<and>
      operation_id (envelope request) = op \<and> subject (envelope request) = u \<and>
      validate_operation (w_serde w) now request JetStreamAsync = Ok () \<and>
      verify_operation_attestation (w_mac w) (envelope_to_vec (w_serde w)) (w_key w)
        (envelope request) (authorization request) = Ok () \<and>
      (entry (store y) op = Finished u h r d \<longrightarrow>
        (\<exists>processed late. reply_to_vec (w_serde w)
           (process_payload (w_serde w) (w_service w) processed late (str_bytes request_json) JetStreamAsync) =
           Some (str_bytes r)))"
proof -
  have "sow.entry_ok digest w op (entry (store y) op)" using sow.entries_ok [OF assms(1)] .
  with assms(2) obtain j where "attested w op u j" "request_fingerprint digest (str_bytes j) = h"
    "entry (store y) op = Finished u h r d \<longrightarrow> reply_to w j (str_bytes r)"
    by (auto simp: sow.entry_ok_def)
  then show ?thesis
    by (fastforce simp: attested_def admit_message_Some_iff is_ok_iff reply_to_def)
qed

text \<open>
  C4: A message for an operation nobody has claimed, with no fault anywhere: on an engine
  that looks for the conflict first it is processed, its result recorded, published once and
  acknowledged. On an engine that checks the proposed row first, as PostgreSQL does, it is
  processed, then the handler fails: nothing is published or acknowledged and the operation
  is left claimed.
\<close>

theorem fresh_message_outcome:
  assumes "journal_wf db" and "untroubled env" and "\<And>p. length (digest p) = 32"
    and "admit_message w (at_now (env AtAdmission)) bytes = Some (request_json, request)"
    and "entry db (operation_id (envelope request)) = Unknown"
    and "reply_to_vec (w_serde w) (process_payload (w_serde w) (w_service w)
        (at_now (env AtProcess)) (at_timed_out (env AtProcess)) bytes JetStreamAsync) = Some b"
    and "from_utf8 b = Some res" and "length b \<le> 65536"
  shows "let op = operation_id (envelope request); u = subject (envelope request);
             h = request_fingerprint digest (str_bytes request_json);
             (r, effects, db') =
               handle_jetstream_message w (sea_orm_journal eng digest sd) env bytes db
         in case eng of
              ConflictFirst \<Rightarrow>
                r = Ok () \<and> entry db' op = Finished u h res True \<and>
                effects = [Process op bytes,
                  Publish op JETSTREAM_RESULT_SUBJECT (result_dedupe_id op) b, Settle (Some op) Ack]
            | ChecksFirst \<Rightarrow>
                \<not> is_ok r \<and> entry db' op = Claimed u h \<and> effects = [Process op bytes]"
proof (cases eng)
  case ChecksFirst
  then show ?thesis
    using fresh_message_fails_checks_first [where digest = digest and sd = sd,
        OF assms(1-4) refl assms(5)]
    by (auto simp: Let_def)
next
  case ConflictFirst
  then show ?thesis
    using fresh_message_completes [where digest = digest and sd = sd,
        OF assms(1-4) refl assms(5-8)] by (auto simp: Let_def)
qed

text \<open>
  C20: An operation left claimed by a handler that is gone stays so: once no live handler is
  executing or completing it, no delivery, redelivery or passage of other handlers ever
  finishes it, on any engine and with any faults.
\<close>

theorem stranded_operation_never_finishes:
  assumes "reachable (\<lambda>y. y = start_system empty_database)
      (system_step w (sea_orm_journal eng digest sd)) y"
    and "entry (store y) op = Claimed u h"
    and "\<forall>g \<in> set (handlers y). \<not> completes op g"
    and "steps (system_step w (sea_orm_journal eng digest sd)) y events y'"
  shows "entry (store y') op = Claimed u h"
proof -
  have "journal_wf (store y)"
    using sow.tasks.reachable_inv [OF assms(1)] by (simp add: sow.system_ok_def)
  then have "sow.stranded op u h y" using assms(2,3) by (simp add: sow.stranded_def)
  from sow.stranded_forever [OF assms(4) this] show ?thesis by (simp add: sow.stranded_def)
qed

text \<open>
  C27: A message that was admitted once is terminated, with the journal and the broker left
  alone, by any handler that sees it the consumer's acknowledgement wait of 30 seconds or
  more later: its deadline, at most 30 seconds ahead at admission, has passed. A result left
  unpublished is therefore not published by such a redelivery.
\<close>

theorem redelivery_after_ack_wait_is_terminated:
  assumes "admit_message w t0 bytes = Some p"
    and "unat t0 + 1000 * ack_wait_secs (operation_consumer_config c) \<le> unat (at_now (env AtAdmission))"
  shows "snd (handle_jetstream_message w J env bytes s) = ([Settle None Term], s)"
proof -
  have "admit_message w (at_now (env AtAdmission)) bytes = None"
    using assms by (intro admission_expires) (simp_all add: operation_consumer_config_def)
  then show ?thesis by (simp add: handle_jetstream_message_def settle_with_def)
qed

theorem processed_at_most_once_witness:
  "\<exists>y :: database system. trace y \<noteq> [] \<and> length (filter (is_process sample_id) (trace y)) \<le> 1"
proof -
  obtain y where y: "reachable (\<lambda>y. y = start_system empty_database)
      (system_step sample_worker (sea_orm_journal ConflictFirst sample_digest (w_serde sample_worker))) y"
    "trace y \<noteq> []"
    using sample_run [of "w_serde sample_worker"] by fastforce
  show ?thesis by (rule exI [of _ y]) (rule conjI [OF y(2) processed_at_most_once [OF y(1)]])
qed

theorem published_result_is_recorded_witness:
  "\<exists>(y :: database system) u h r d. entry (store y) sample_id = Finished u h r d \<and> str_bytes r = []"
proof -
  obtain y where y: "reachable (\<lambda>y. y = start_system empty_database)
      (system_step sample_worker (sea_orm_journal ConflictFirst sample_digest (w_serde sample_worker))) y"
    "Publish sample_id JETSTREAM_RESULT_SUBJECT (result_dedupe_id sample_id) [] \<in> set (trace y)"
    using sample_run [of "w_serde sample_worker"] by fastforce
  show ?thesis
    by (rule exI [of _ y]) (rule published_result_is_recorded [OF y, THEN conjunct2, THEN conjunct2])
qed

theorem acknowledged_only_after_publication_witness:
  "\<exists>y :: database system. \<exists>r. Settle (Some sample_id) Ack \<in> set (trace y) \<and>
     Publish sample_id JETSTREAM_RESULT_SUBJECT (result_dedupe_id sample_id) (str_bytes r) \<in> set (trace y)"
proof -
  obtain y where y: "reachable (\<lambda>y. y = start_system empty_database)
      (system_step sample_worker (sea_orm_journal ConflictFirst sample_digest (w_serde sample_worker))) y"
    "Settle (Some sample_id) Ack \<in> set (trace y)"
    using sample_run [of "w_serde sample_worker"] by fastforce
  from acknowledged_only_after_publication [OF y] y(2) show ?thesis by blast
qed

theorem journal_holds_attested_operations_witness:
  "\<exists>request_json. \<exists>request :: authenticated_operation. \<exists>processed late.
     operation_from_str (w_serde sample_worker) request_json = Some request \<and>
     operation_id (envelope request) = sample_id \<and>
     verify_operation_attestation (w_mac sample_worker) (envelope_to_vec (w_serde sample_worker))
       (w_key sample_worker) (envelope request) (authorization request) = Ok () \<and>
     reply_to_vec (w_serde sample_worker) (process_payload (w_serde sample_worker)
       (w_service sample_worker) processed late (str_bytes request_json) JetStreamAsync) = Some []"
proof -
  obtain y where y: "reachable (\<lambda>y. y = start_system empty_database)
      (system_step sample_worker (sea_orm_journal ConflictFirst sample_digest (w_serde sample_worker))) y"
    "entry (store y) sample_id = Finished (subject sample_envelope) sample_hash [] True"
    using sample_run [of "w_serde sample_worker"] by fastforce
  from journal_holds_attested_operations [OF y(1) disjI2 [OF y(2)]] y(2) show ?thesis by auto
qed

lemma sample_reply:
  "reply_to_vec (w_serde sample_worker) r = Some []" "from_utf8 [] = Some []"
  by (simp_all add: sample_worker_def from_utf8_Some_iff str_ok_def)

theorem fresh_message_outcome_witness:
  "fst (snd (handle_jetstream_message sample_worker
      (sea_orm_journal ChecksFirst sample_digest (w_serde sample_worker)) (\<lambda>_. sample_moment) [] empty_database)) =
    [Process sample_id []]"
proof -
  have "admit_message sample_worker (at_now sample_moment) [] = Some ([], sample_request)"
    using sample_admitted by (simp add: sample_moment_def)
  from fresh_message_outcome [where digest = sample_digest and eng = ChecksFirst and sd = "w_serde sample_worker",
      OF journal_wf_empty sample_untroubled sample_digest_length this sample_unknown sample_reply]
  show ?thesis by (auto simp: Let_def split: prod.splits)
qed

theorem stranded_operation_never_finishes_witness:
  "\<exists>y :: database system. trace y \<noteq> [] \<and>
     entry (store y) sample_id = Claimed (subject sample_envelope) sample_hash"
proof -
  let ?J = "sea_orm_journal ChecksFirst sample_digest (w_serde sample_worker)"
  have "admit_message sample_worker (at_now sample_moment) [] = Some ([], sample_request)"
    using sample_admitted by (simp add: sample_moment_def)
  from fresh_message_fails_checks_first [where digest = sample_digest and sd = "w_serde sample_worker",
      OF journal_wf_empty sample_untroubled sample_digest_length this refl sample_unknown]
  obtain e db where h: "handle_jetstream_message sample_worker ?J (\<lambda>_. sample_moment) [] empty_database =
      (Err e, [Process sample_id []], db)"
    and c: "entry db sample_id = Claimed (subject sample_envelope) sample_hash"
    by (auto simp: sample_request_def)
  let ?y1 = "start_system empty_database\<lparr>handlers := [Received []]\<rparr>"
  let ?y = "?y1\<lparr>store := db, handlers := [Done (Err e)], trace := [Process sample_id []]\<rparr>"
  have "reachable (\<lambda>y. y = start_system empty_database) (system_step sample_worker ?J)
      (start_system empty_database\<lparr>handlers := handlers (start_system empty_database) @ [Received []]\<rparr>)"
    by (rule reachable_step) (rule reachable_init, rule refl, rule deliver)
  then have "reachable (\<lambda>y. y = start_system empty_database) (system_step sample_worker ?J) ?y1"
    by (simp add: start_system_def)
  from run_stages_reachable [OF this, of 0 7 "\<lambda>_. sample_moment"]
  have r: "reachable (\<lambda>y. y = start_system empty_database) (system_step sample_worker ?J) ?y"
    by (simp add: start_system_def handler_runs_stages h)
  have "entry (store ?y) sample_id = Claimed (subject sample_envelope) sample_hash" using c by simp
  from stranded_operation_never_finishes [OF r this _ steps_refl]
  have "entry (store ?y) sample_id = Claimed (subject sample_envelope) sample_hash" by simp
  moreover have "trace ?y \<noteq> []" by simp
  ultimately show ?thesis by blast
qed

theorem redelivery_after_ack_wait_is_terminated_witness:
  "snd (handle_jetstream_message sample_worker
      (sea_orm_journal ChecksFirst sample_digest (w_serde sample_worker))
      (\<lambda>_. \<lparr>at_now = 30001, at_timed_out = False, at_fault = calm 5, at_publish = PublishAcknowledged,
         at_settled = True\<rparr>) [] empty_database) = ([Settle None Term], empty_database)"
  by (rule redelivery_after_ack_wait_is_terminated
      [OF sample_admitted, where c = default_jet_stream_config])
    (simp add: operation_consumer_config_def)

end
