(* ===== verification/Auth.thy ===== *)
theory Auth
  imports Transport
begin

text \<open>
  \<open>src/auth.rs\<close>: the verification of a caller's bearer by Shared Auth. The introspection
  client is a parameter: a function from a token, an audience and the required scopes to
  claims or one of the errors the code distinguishes.
\<close>

section \<open>Types\<close>

datatype client_error =
    ClientUnauthorized
  | InvalidInput ustr
  | MissingServiceCredential
  | InvalidBaseUrl
  | ClientRequestTooLarge
  | ClientResponseTooLarge
  | EncodeError
  | DecodeError
  | TransportError ustr
  | StatusError nat
  | InsecureTransport ustr

datatype auth_failure = Missing | Invalid | Unavailable

record token_claims =
  claims_active :: bool
  claims_aud :: "ustr option"
  claims_sub :: "ustr option"

record shared_auth_verifier =
  introspect :: "ustr \<Rightarrow> ustr \<Rightarrow> ustr list \<Rightarrow> (client_error, token_claims) result"
  verifier_audience :: ustr

definition AUTHORIZATION :: ustr where
  "AUTHORIZATION = lit ''authorization''"

definition MAX_INTROSPECTION_RESPONSE_BYTES :: nat where
  "MAX_INTROSPECTION_RESPONSE_BYTES = 64 * 1024"

section \<open>Operations\<close>

text \<open>
  \<open>SharedAuthVerifier::new\<close>: the client is built for the URL, with the service
  credential and the response bound.
\<close>

definition new_verifier ::
  "(ustr \<Rightarrow> (client_error, 'c) result) \<Rightarrow>
   ('c \<Rightarrow> ustr \<Rightarrow> nat \<Rightarrow> ustr \<Rightarrow> ustr \<Rightarrow> ustr list \<Rightarrow> (client_error, token_claims) result) \<Rightarrow>
   ustr \<Rightarrow> ustr \<Rightarrow> ustr \<Rightarrow> (client_error, shared_auth_verifier) result" where
  "new_verifier try_new client_introspect base credential aud =
     and_then (try_new base) (\<lambda>c.
     Ok \<lparr>introspect = client_introspect c credential MAX_INTROSPECTION_RESPONSE_BYTES,
         verifier_audience = aud\<rparr>)"

definition bearer_token :: "header_map \<Rightarrow> (auth_failure, ustr) result" where
  "bearer_token headers =
     and_then (ok_or Missing (Option.bind (headers AUTHORIZATION) to_str)) (\<lambda>raw.
     and_then (ok_or Invalid (split_once raw 32)) (\<lambda>(scheme, token).
       if \<not> eq_ignore_ascii_case scheme (lit ''Bearer'') \<or> token = [] \<or> trim token \<noteq> token
          \<or> list_ex is_whitespace token
       then Err Invalid else Ok token))"

fun map_client_error :: "client_error \<Rightarrow> auth_failure" where
  "map_client_error ClientUnauthorized = Invalid"
| "map_client_error (InvalidInput _) = Invalid"
| "map_client_error MissingServiceCredential = Unavailable"
| "map_client_error InvalidBaseUrl = Unavailable"
| "map_client_error ClientRequestTooLarge = Unavailable"
| "map_client_error ClientResponseTooLarge = Unavailable"
| "map_client_error EncodeError = Unavailable"
| "map_client_error DecodeError = Unavailable"
| "map_client_error (TransportError _) = Unavailable"
| "map_client_error (StatusError _) = Unavailable"
| "map_client_error (InsecureTransport _) = Unavailable"

definition verify :: "shared_auth_verifier \<Rightarrow> header_map \<Rightarrow> ustr list \<Rightarrow> (auth_failure, ustr) result" where
  "verify v headers scopes =
     and_then (bearer_token headers) (\<lambda>token.
     and_then (map_err map_client_error (introspect v token (verifier_audience v) scopes)) (\<lambda>claims.
       if \<not> claims_active claims \<or> claims_aud claims \<noteq> Some (verifier_audience v) then Err Invalid
       else ok_or Invalid
              (case claims_sub claims of
                 None \<Rightarrow> None
               | Some s \<Rightarrow> if trim s = [] then None else Some s)))"

section \<open>Lemmas\<close>

lemma bearer_token_Ok_iff [result_simps]:
  "bearer_token headers = Ok token \<longleftrightarrow>
     (\<exists>scheme. headers AUTHORIZATION = Some (Readable (scheme @ 32 # token)) \<and>
        eq_ignore_ascii_case scheme (lit ''Bearer'') \<and> 32 \<notin> set scheme \<and>
        token \<noteq> [] \<and> \<not> list_ex is_whitespace token)"
proof -
  have b: "Option.bind (headers AUTHORIZATION) to_str = Some raw \<longleftrightarrow>
      headers AUTHORIZATION = Some (Readable raw)" for raw
    by (cases "headers AUTHORIZATION") (auto simp: to_str_def split: header_value.splits)
  show ?thesis
  proof (cases "Option.bind (headers AUTHORIZATION) to_str")
    case None
    then show ?thesis using b by (force simp: bearer_token_def)
  next
    case (Some raw)
    then have h: "headers AUTHORIZATION = Some (Readable raw)" by (simp add: b)
    show ?thesis
    proof (cases "split_once raw 32")
      case None
      then have "32 \<notin> set raw" by (simp add: split_once_None_iff)
      then show ?thesis
        using h None by (auto simp: bearer_token_def to_str_def)
    next
      case (Some p)
      obtain scheme tk where p: "p = (scheme, tk)" by (cases p)
      with Some have raw: "raw = scheme @ 32 # tk \<and> 32 \<notin> set scheme"
        by (simp add: split_once_Some_iff)
      have tok: "bearer_token headers = Ok token \<longleftrightarrow>
          eq_ignore_ascii_case scheme (lit ''Bearer'') \<and> tk \<noteq> [] \<and> trim tk = tk
            \<and> \<not> list_ex is_whitespace tk \<and> tk = token"
        using h Some p \<open>Option.bind _ _ = Some raw\<close> by (auto simp: bearer_token_def)
      show ?thesis
      proof
        assume "bearer_token headers = Ok token"
        with tok h raw show "\<exists>scheme. headers AUTHORIZATION = Some (Readable (scheme @ 32 # token)) \<and>
            eq_ignore_ascii_case scheme (lit ''Bearer'') \<and> 32 \<notin> set scheme \<and>
            token \<noteq> [] \<and> \<not> list_ex is_whitespace token" by auto
      next
        assume "\<exists>scheme. headers AUTHORIZATION = Some (Readable (scheme @ 32 # token)) \<and>
            eq_ignore_ascii_case scheme (lit ''Bearer'') \<and> 32 \<notin> set scheme \<and>
            token \<noteq> [] \<and> \<not> list_ex is_whitespace token"
        then obtain scheme' where s': "raw = scheme' @ 32 # token"
          "eq_ignore_ascii_case scheme' (lit ''Bearer'')" "32 \<notin> set scheme'"
          "token \<noteq> []" "\<not> list_ex is_whitespace token"
          using h by auto
        then have "split_once raw 32 = Some (scheme', token)" by (simp add: split_once_Some_iff)
        with Some p have "scheme = scheme'" "tk = token" by simp_all
        with s' tok no_whitespace_trim [of token] show "bearer_token headers = Ok token" by simp
      qed
    qed
  qed
qed

lemma verify_Ok_iff_claims:
  "verify v headers scopes = Ok s \<longleftrightarrow>
     (\<exists>token claims. bearer_token headers = Ok token \<and>
        introspect v token (verifier_audience v) scopes = Ok claims \<and> claims_active claims \<and>
        claims_aud claims = Some (verifier_audience v) \<and> claims_sub claims = Some s \<and> trim s \<noteq> [])"
proof (cases "bearer_token headers")
  case (Inr token)
  show ?thesis
  proof (cases "introspect v token (verifier_audience v) scopes")
    case Inl: (Inl e)
    with Inr show ?thesis by (simp add: verify_def)
  next
    case cl: (Inr claims)
    with Inr show ?thesis
      by (cases "claims_sub claims") (auto simp: verify_def)
  qed
qed (simp add: verify_def)

lemma scheme_bearer: "eq_ignore_ascii_case (lit ''Bearer'') (lit ''Bearer'')" "32 \<notin> set (lit ''Bearer'')"
  by (simp_all add: eq_ignore_ascii_case_def lit_def)

text \<open>
  What the transports accept as an authorization is accepted as a bearer: the check of
  the framed protocol and the parser of the header agree on the token.
\<close>

lemma transport_bearer:
  assumes "validate_authorization value = Ok ()"
  shows "\<exists>token. value = lit ''Bearer '' @ token \<and>
    bearer_token [AUTHORIZATION \<mapsto> Readable value] = Ok token"
proof -
  obtain token where t: "value = lit ''Bearer '' @ token" "token \<noteq> []" "\<not> list_ex is_whitespace token"
    using assms by (auto simp: validate_authorization_Ok_iff)
  have "lit ''Bearer '' @ token = lit ''Bearer'' @ 32 # token" by (simp add: lit_def)
  then have "bearer_token [AUTHORIZATION \<mapsto> Readable value] = Ok token"
    unfolding bearer_token_Ok_iff t(1) using t(2,3) scheme_bearer by fastforce
  with t(1) show ?thesis by blast
qed

section \<open>Properties\<close>

text \<open>
  C30: A caller is authenticated exactly when the request carries one bearer token, Shared
  Auth answers its introspection for this service's audience and the required scopes with
  active claims for that audience, and the claims name a subject that is not blank; the
  subject returned is that one. An error of the client that is not about the token makes the
  service unavailable, never authenticated.
\<close>

theorem verification_exact:
  "(verify v headers scopes = Ok s \<longleftrightarrow>
     (\<exists>scheme token claims.
        headers AUTHORIZATION = Some (Readable (scheme @ 32 # token)) \<and>
        eq_ignore_ascii_case scheme (lit ''Bearer'') \<and> 32 \<notin> set scheme \<and>
        token \<noteq> [] \<and> \<not> list_ex is_whitespace token \<and>
        introspect v token (verifier_audience v) scopes = Ok claims \<and> claims_active claims \<and>
        claims_aud claims = Some (verifier_audience v) \<and> claims_sub claims = Some s \<and> trim s \<noteq> [])) \<and>
   (verify v headers scopes = Err Missing \<longleftrightarrow> Option.bind (headers AUTHORIZATION) to_str = None) \<and>
   (verify v headers scopes = Err Unavailable \<longleftrightarrow>
     (\<exists>token e. bearer_token headers = Ok token \<and>
        introspect v token (verifier_audience v) scopes = Err e \<and>
        e \<noteq> ClientUnauthorized \<and> (\<forall>m. e \<noteq> InvalidInput m)))"
proof (intro conjI)
  show "verify v headers scopes = Ok s \<longleftrightarrow>
     (\<exists>scheme token claims.
        headers AUTHORIZATION = Some (Readable (scheme @ 32 # token)) \<and>
        eq_ignore_ascii_case scheme (lit ''Bearer'') \<and> 32 \<notin> set scheme \<and>
        token \<noteq> [] \<and> \<not> list_ex is_whitespace token \<and>
        introspect v token (verifier_audience v) scopes = Ok claims \<and> claims_active claims \<and>
        claims_aud claims = Some (verifier_audience v) \<and> claims_sub claims = Some s \<and> trim s \<noteq> [])"
    unfolding verify_Ok_iff_claims bearer_token_Ok_iff by blast
  have map: "map_client_error e \<noteq> Missing"
    "map_client_error e = Unavailable \<longleftrightarrow> e \<noteq> ClientUnauthorized \<and> (\<forall>m. e \<noteq> InvalidInput m)" for e
    by (cases e; simp)+
  have map': "Missing \<noteq> map_client_error e"
    "Unavailable = map_client_error e \<longleftrightarrow> e \<noteq> ClientUnauthorized \<and> (\<forall>m. e \<noteq> InvalidInput m)" for e
    by (cases e; simp)+
  have tok: "bearer_token headers = Err Missing \<longleftrightarrow> Option.bind (headers AUTHORIZATION) to_str = None"
    "bearer_token headers \<noteq> Err Unavailable"
    by (auto simp: bearer_token_def result_simps split: if_splits)
  show "verify v headers scopes = Err Missing \<longleftrightarrow> Option.bind (headers AUTHORIZATION) to_str = None"
    using tok map(1) map'(1) by (auto simp: verify_def result_simps split: if_splits)
  show "verify v headers scopes = Err Unavailable \<longleftrightarrow>
     (\<exists>token e. bearer_token headers = Ok token \<and>
        introspect v token (verifier_audience v) scopes = Err e \<and>
        e \<noteq> ClientUnauthorized \<and> (\<forall>m. e \<noteq> InvalidInput m))"
    using tok map(2) map'(2) by (auto simp: verify_def result_simps split: if_splits)
qed

end
