(* ===== verification/Config.thy ===== *)
theory Config
  imports WebTypes
begin

text \<open>
  \<open>src/config.rs\<close>: the runtime configuration, read through a lookup of configuration
  values (\<open>crate::flags::var\<close>). The URL parser and the socket-address parser are
  parameters. Every refusal of the code is an error constructor of its own.
\<close>

section \<open>The configuration\<close>

record shared_auth_config =
  auth_base_url :: ustr
  service_credential :: ustr
  audience :: ustr

record mtls_config =
  address :: ustr
  certificate_file :: ustr
  private_key_file :: ustr
  client_ca_file :: ustr

record youtube_config =
  web_app_url :: url
  api_key :: ustr
  expected_channel_handle :: ustr
  timeout_secs :: nat
  max_response_bytes :: nat
  allow_public_actions :: bool

record config =
  port :: nat
  nats_url :: ustr
  service_name :: ustr
  shared_auth :: "shared_auth_config option"
  youtube :: "youtube_config option"
  operation_database_url :: "ustr option"
  operation_attestation_key :: "ustr option"
  mtls :: "mtls_config option"

datatype config_error =
    InvalidValue ustr
  | CredentialWithoutAuthUrl
  | AuthUrlWithoutCredential
  | InvalidServiceBearer
  | ApiKeyWithoutUrl
  | UrlWithoutApiKey
  | ApiKeyTooShort
  | HandleWithoutAt
  | TimeoutOutOfRange
  | ResponseBytesOutOfRange
  | NotABool ustr
  | NotAUrl
  | NotHttps
  | NotGoogleScriptHost
  | QueryOrFragment
  | NotAWebAppUrl
  | YoutubeWithoutAuth
  | AttestationKeyMissing
  | DatabaseUrlMissing
  | AttestationKeyWeak
  | NatsNeedsTls
  | DurableWithoutAuth
  | MtlsIncomplete
  | MtlsAddressInvalid
  | MtlsWithoutAuth

type_synonym lookup = "ustr \<Rightarrow> (var_error, ustr) result"

section \<open>Reading values\<close>

definition env_non_empty :: "lookup \<Rightarrow> string \<Rightarrow> ustr option" where
  "env_non_empty var name =
     (case var (lit name) of
        Err _ \<Rightarrow> None
      | Ok value \<Rightarrow> if trim value = [] then None else Some (trim value))"

definition parse_env :: "lookup \<Rightarrow> nat \<Rightarrow> string \<Rightarrow> nat \<Rightarrow> (config_error, nat) result" where
  "parse_env var mx name dflt =
     (case env_non_empty var name of
        Some value \<Rightarrow> ok_or (InvalidValue (lit name)) (parse_unsigned mx value)
      | None \<Rightarrow> Ok dflt)"

definition parse_bool_env :: "lookup \<Rightarrow> string \<Rightarrow> bool \<Rightarrow> (config_error, bool) result" where
  "parse_bool_env var name dflt =
     (case env_non_empty var name of
        None \<Rightarrow> Ok dflt
      | Some value \<Rightarrow>
          let v = to_ascii_lowercase value in
          if v = lit ''1'' \<or> v = lit ''true'' \<or> v = lit ''yes'' \<or> v = lit ''on'' then Ok True
          else if v = lit ''0'' \<or> v = lit ''false'' \<or> v = lit ''no'' \<or> v = lit ''off'' then Ok False
          else Err (NotABool (lit name)))"

section \<open>Validation\<close>

definition parse_apps_script_url :: "(ustr \<Rightarrow> url option) \<Rightarrow> ustr \<Rightarrow> (config_error, url) result" where
  "parse_apps_script_url url_parse raw =
     and_then (ok_or NotAUrl (url_parse raw)) (\<lambda>u.
       if url_scheme u \<noteq> lit ''https'' then Err NotHttps
       else if url_host_str u \<noteq> Some (lit ''script.google.com'') then Err NotGoogleScriptHost
       else if url_query u \<noteq> None \<or> url_fragment u \<noteq> None then Err QueryOrFragment
       else
         let path = trim_end_matches 47 (url_path u) in
         if \<not> starts_with path (lit ''/macros/s/'') \<or> \<not> ends_with path (lit ''/exec'')
         then Err NotAWebAppUrl
         else Ok u)"

definition validate_auth_configuration :: "bool \<Rightarrow> bool \<Rightarrow> (config_error, unit) result" where
  "validate_auth_configuration auth_enabled youtube_enabled =
     (if youtube_enabled \<and> \<not> auth_enabled then Err YoutubeWithoutAuth else Ok ())"

definition validate_operation_configuration :: "bool \<Rightarrow> ustr option \<Rightarrow> (config_error, unit) result" where
  "validate_operation_configuration database_enabled key =
     (case (database_enabled, key) of
        (False, None) \<Rightarrow> Ok ()
      | (True, None) \<Rightarrow> Err AttestationKeyMissing
      | (False, Some _) \<Rightarrow> Err DatabaseUrlMissing
      | (True, Some k) \<Rightarrow>
          if str_len k < 32 \<or> list_ex is_control k then Err AttestationKeyWeak else Ok ())"

definition validate_durable_nats_url :: "ustr \<Rightarrow> (config_error, unit) result" where
  "validate_durable_nats_url value =
     (if starts_with value (lit ''tls://'')
         \<or> starts_with value (lit ''nats://127.0.0.1'')
         \<or> starts_with value (lit ''nats://localhost'')
         \<or> starts_with value (lit ''nats://[::1]'')
      then Ok () else Err NatsNeedsTls)"

definition parse_mtls_config ::
  "(ustr \<Rightarrow> bool) \<Rightarrow> lookup \<Rightarrow> (config_error, mtls_config option) result" where
  "parse_mtls_config is_socket_addr var =
     (case (env_non_empty var ''ACT_API_MTLS_ADDR'', env_non_empty var ''ACT_API_TLS_CERT_FILE'',
            env_non_empty var ''ACT_API_TLS_KEY_FILE'', env_non_empty var ''ACT_API_CLIENT_CA_FILE'') of
        (None, None, None, None) \<Rightarrow> Ok None
      | (Some a, Some c, Some k, Some ca) \<Rightarrow>
          if \<not> is_socket_addr a then Err MtlsAddressInvalid
          else Ok (Some \<lparr>address = a, certificate_file = c, private_key_file = k, client_ca_file = ca\<rparr>)
      | _ \<Rightarrow> Err MtlsIncomplete)"

section \<open>\<open>Config::from_env\<close>\<close>

definition DEFAULT_MAX_RESPONSE_BYTES :: nat where
  "DEFAULT_MAX_RESPONSE_BYTES = 4 * 1024 * 1024"

definition MAX_ALLOWED_RESPONSE_BYTES :: nat where
  "MAX_ALLOWED_RESPONSE_BYTES = 16 * 1024 * 1024"

definition read_shared_auth :: "lookup \<Rightarrow> (config_error, shared_auth_config option) result" where
  "read_shared_auth var =
     (case (env_non_empty var ''SHARED_AUTH_URL'', env_non_empty var ''SHARED_AUTH_SERVICE_CREDENTIAL'') of
        (None, None) \<Rightarrow> Ok None
      | (None, Some _) \<Rightarrow> Err CredentialWithoutAuthUrl
      | (Some _, None) \<Rightarrow> Err AuthUrlWithoutCredential
      | (Some u, Some c) \<Rightarrow>
          if str_len c < 16 \<or> list_ex is_control c then Err InvalidServiceBearer
          else Ok (Some \<lparr>auth_base_url = u, service_credential = c, audience = lit ''act-api''\<rparr>))"

definition read_youtube ::
  "(ustr \<Rightarrow> url option) \<Rightarrow> lookup \<Rightarrow> (config_error, youtube_config option) result" where
  "read_youtube url_parse var =
     (case (env_non_empty var ''YOUTUBE_GAS_URL'', env_non_empty var ''YOUTUBE_GAS_API_KEY'') of
        (None, None) \<Rightarrow> Ok None
      | (None, Some _) \<Rightarrow> Err ApiKeyWithoutUrl
      | (Some _, None) \<Rightarrow> Err UrlWithoutApiKey
      | (Some raw_url, Some key) \<Rightarrow>
          if str_len key < 32 then Err ApiKeyTooShort
          else
            and_then (parse_apps_script_url url_parse raw_url) (\<lambda>u.
            let handle = (case env_non_empty var ''YOUTUBE_EXPECTED_CHANNEL_HANDLE'' of
                  None \<Rightarrow> lit ''@anticaptrad'' | Some h \<Rightarrow> h) in
            if \<not> starts_with handle (lit ''@'') then Err HandleWithoutAt
            else
              and_then (parse_env var (2 ^ 64 - 1) ''YOUTUBE_GAS_TIMEOUT_SECS'' 30) (\<lambda>secs.
              if \<not> (1 \<le> secs \<and> secs \<le> 120) then Err TimeoutOutOfRange
              else
                and_then (parse_env var (2 ^ 64 - 1) ''YOUTUBE_GAS_MAX_RESPONSE_BYTES''
                            DEFAULT_MAX_RESPONSE_BYTES) (\<lambda>bytes.
                if \<not> (1024 \<le> bytes \<and> bytes \<le> MAX_ALLOWED_RESPONSE_BYTES)
                then Err ResponseBytesOutOfRange
                else
                  and_then (parse_bool_env var ''YOUTUBE_ALLOW_PUBLIC_ACTIONS'' False) (\<lambda>public.
                  Ok (Some \<lparr>web_app_url = u, api_key = key, expected_channel_handle = handle,
                            timeout_secs = secs, max_response_bytes = bytes,
                            allow_public_actions = public\<rparr>))))))"

definition config_from_env ::
  "(ustr \<Rightarrow> url option) \<Rightarrow> (ustr \<Rightarrow> bool) \<Rightarrow> lookup \<Rightarrow> (config_error, config) result" where
  "config_from_env url_parse is_socket_addr var =
     and_then (parse_env var 65535 ''PORT'' 8080) (\<lambda>p.
     let nats = (case env_non_empty var ''NATS_URL'' of
           None \<Rightarrow> lit ''nats://localhost:4222'' | Some u \<Rightarrow> u);
         service = (case env_non_empty var ''OTEL_SERVICE_NAME'' of
           None \<Rightarrow> lit ''act-api-server'' | Some n \<Rightarrow> n) in
     and_then (read_shared_auth var) (\<lambda>auth.
     and_then (read_youtube url_parse var) (\<lambda>yt.
     and_then (validate_auth_configuration (auth \<noteq> None) (yt \<noteq> None)) (\<lambda>_.
     let db = env_non_empty var ''ACT_OPERATION_DATABASE_URL'';
         key = env_non_empty var ''ACT_NATS_OPERATION_HMAC_KEY'' in
     and_then (validate_operation_configuration (db \<noteq> None) key) (\<lambda>_.
     and_then (if db = None then Ok ()
               else and_then (validate_durable_nats_url nats) (\<lambda>_.
                      if auth = None then Err DurableWithoutAuth else Ok ())) (\<lambda>_.
     and_then (parse_mtls_config is_socket_addr var) (\<lambda>tls.
     if tls \<noteq> None \<and> auth = None then Err MtlsWithoutAuth
     else Ok \<lparr>port = p, nats_url = nats, service_name = service, shared_auth = auth, youtube = yt,
              operation_database_url = db, operation_attestation_key = key, mtls = tls\<rparr>)))))))"

section \<open>Lemmas\<close>

lemma env_non_empty_trimmed: "env_non_empty var name = Some v \<Longrightarrow> v \<noteq> [] \<and> trim v = v"
  by (auto simp: env_non_empty_def split: sum.splits if_splits)

lemma parse_env_bound: "parse_env var mx name dflt = Ok n \<Longrightarrow> dflt \<le> mx \<Longrightarrow> n \<le> mx"
  by (auto simp: parse_env_def result_simps dest: parse_unsigned_le split: option.splits)

definition shared_auth_ok :: "shared_auth_config \<Rightarrow> bool" where
  "shared_auth_ok a \<longleftrightarrow>
     auth_base_url a \<noteq> [] \<and> trim (auth_base_url a) = auth_base_url a \<and> 16 \<le> str_len (service_credential a) \<and>
     trim (service_credential a) = service_credential a \<and>
     \<not> list_ex is_control (service_credential a) \<and> audience a = lit ''act-api''"

definition youtube_ok :: "youtube_config \<Rightarrow> bool" where
  "youtube_ok y \<longleftrightarrow>
     url_scheme (web_app_url y) = lit ''https'' \<and>
     url_host_str (web_app_url y) = Some (lit ''script.google.com'') \<and>
     url_query (web_app_url y) = None \<and> url_fragment (web_app_url y) = None \<and>
     starts_with (trim_end_matches 47 (url_path (web_app_url y))) (lit ''/macros/s/'') \<and>
     ends_with (trim_end_matches 47 (url_path (web_app_url y))) (lit ''/exec'') \<and>
     32 \<le> str_len (api_key y) \<and> starts_with (expected_channel_handle y) (lit ''@'') \<and>
     1 \<le> timeout_secs y \<and> timeout_secs y \<le> 120 \<and>
     1024 \<le> max_response_bytes y \<and> max_response_bytes y \<le> 16 * 1024 * 1024"

lemma parse_apps_script_url_Ok_iff [result_simps]:
  "parse_apps_script_url url_parse raw = Ok u \<longleftrightarrow>
     url_parse raw = Some u \<and> url_scheme u = lit ''https'' \<and>
     url_host_str u = Some (lit ''script.google.com'') \<and> url_query u = None \<and> url_fragment u = None \<and>
     starts_with (trim_end_matches 47 (url_path u)) (lit ''/macros/s/'') \<and>
     ends_with (trim_end_matches 47 (url_path u)) (lit ''/exec'')"
  by (auto simp: parse_apps_script_url_def result_simps Let_def)

lemma read_shared_auth_ok: "read_shared_auth var = Ok (Some a) \<Longrightarrow> shared_auth_ok a"
  by (auto simp: read_shared_auth_def shared_auth_ok_def dest: env_non_empty_trimmed
      split: option.splits if_splits)

lemma read_youtube_ok: "read_youtube url_parse var = Ok (Some y) \<Longrightarrow> youtube_ok y"
  by (auto simp: read_youtube_def youtube_ok_def Let_def MAX_ALLOWED_RESPONSE_BYTES_def result_simps
      split: option.splits if_splits)

lemma validate_operation_configuration_Ok_iff [result_simps]:
  "validate_operation_configuration d k = Ok u \<longleftrightarrow>
     (case k of None \<Rightarrow> \<not> d | Some key \<Rightarrow> d \<and> 32 \<le> str_len key \<and> \<not> list_ex is_control key)"
  by (auto simp: validate_operation_configuration_def split: option.splits bool.splits)

lemma config_from_env_ok:
  assumes "config_from_env url_parse is_socket_addr var = Ok c"
  shows "port c \<le> 65535 \<and>
    (youtube c \<noteq> None \<or> operation_database_url c \<noteq> None \<or> mtls c \<noteq> None \<longrightarrow> shared_auth c \<noteq> None) \<and>
    (operation_database_url c \<noteq> None \<longleftrightarrow> operation_attestation_key c \<noteq> None) \<and>
    (\<forall>k. operation_attestation_key c = Some k \<longrightarrow> 32 \<le> str_len k \<and> \<not> list_ex is_control k) \<and>
    (operation_database_url c \<noteq> None \<longrightarrow> validate_durable_nats_url (nats_url c) = Ok ()) \<and>
    (\<forall>a. shared_auth c = Some a \<longrightarrow> shared_auth_ok a) \<and>
    (\<forall>y. youtube c = Some y \<longrightarrow> youtube_ok y) \<and>
    (\<forall>t. mtls c = Some t \<longrightarrow> is_socket_addr (address t))"
proof -
  obtain p auth yt tls where r: "parse_env var 65535 ''PORT'' 8080 = Ok p"
    "read_shared_auth var = Ok auth" "read_youtube url_parse var = Ok yt"
    "validate_auth_configuration (auth \<noteq> None) (yt \<noteq> None) = Ok ()"
    "validate_operation_configuration (env_non_empty var ''ACT_OPERATION_DATABASE_URL'' \<noteq> None)
       (env_non_empty var ''ACT_NATS_OPERATION_HMAC_KEY'') = Ok ()"
    "parse_mtls_config is_socket_addr var = Ok tls"
    and db: "env_non_empty var ''ACT_OPERATION_DATABASE_URL'' \<noteq> None \<longrightarrow>
       validate_durable_nats_url (nats_url c) = Ok () \<and> auth \<noteq> None"
    and t: "tls \<noteq> None \<longrightarrow> auth \<noteq> None"
    and c: "port c = p" "shared_auth c = auth" "youtube c = yt" "mtls c = tls"
      "operation_database_url c = env_non_empty var ''ACT_OPERATION_DATABASE_URL''"
      "operation_attestation_key c = env_non_empty var ''ACT_NATS_OPERATION_HMAC_KEY''"
    using assms by (auto simp: config_from_env_def Let_def result_simps split: if_splits)
  have "p \<le> 65535" using parse_env_bound [OF r(1)] by simp
  moreover have "auth = Some a \<Longrightarrow> shared_auth_ok a" for a using r(2) by (simp add: read_shared_auth_ok)
  moreover have "yt = Some y \<Longrightarrow> youtube_ok y" for y using r(3) by (simp add: read_youtube_ok)
  moreover have "yt \<noteq> None \<longrightarrow> auth \<noteq> None"
    using r(4) by (auto simp: validate_auth_configuration_def split: if_splits)
  moreover have "tls = Some x \<Longrightarrow> is_socket_addr (address x)" for x
    using r(6) by (auto simp: parse_mtls_config_def split: option.splits if_splits)
  moreover have "operation_database_url c \<noteq> None \<longleftrightarrow> operation_attestation_key c \<noteq> None"
    "\<forall>k. operation_attestation_key c = Some k \<longrightarrow> 32 \<le> str_len k \<and> \<not> list_ex is_control k"
    using r(5) unfolding c(5,6) validate_operation_configuration_Ok_iff by (simp_all split: option.splits)
  ultimately show ?thesis using db t unfolding c by blast
qed

lemma config_accepted:
  assumes "config_from_env url_parse is_socket_addr var = Ok c"
  shows "mtls c \<noteq> None \<Longrightarrow> shared_auth c \<noteq> None"
    and "youtube c \<noteq> None \<Longrightarrow> shared_auth c \<noteq> None"
    and "operation_attestation_key c = Some key \<Longrightarrow> 32 \<le> str_len key"
    and "shared_auth c = Some a \<Longrightarrow> shared_auth_ok a"
  using config_from_env_ok [OF assms] by simp_all

section \<open>Properties\<close>

text \<open>
  C37: A configuration that is accepted is well formed: the port is a \<open>u16\<close>; protected
  features (YouTube, the durable journal, the mTLS listener) come only with Shared Auth; the
  journal comes with an attestation key of at least 32 bytes without control characters, and
  the key only with the journal; bearer, API key, handle, timeout and response cap are in
  their bounds; and the web-app URL is a deployed Apps Script URL without query or fragment.
\<close>

theorem config_well_formed:
  assumes "config_from_env url_parse is_socket_addr var = Ok c"
  shows "port c \<le> 65535 \<and>
    (youtube c \<noteq> None \<or> operation_database_url c \<noteq> None \<or> mtls c \<noteq> None \<longrightarrow> shared_auth c \<noteq> None) \<and>
    (operation_database_url c \<noteq> None \<longleftrightarrow> operation_attestation_key c \<noteq> None) \<and>
    (\<forall>k. operation_attestation_key c = Some k \<longrightarrow> 32 \<le> str_len k \<and> \<not> list_ex is_control k) \<and>
    (operation_database_url c \<noteq> None \<longrightarrow> validate_durable_nats_url (nats_url c) = Ok ()) \<and>
    (\<forall>a. shared_auth c = Some a \<longrightarrow> shared_auth_ok a) \<and>
    (\<forall>y. youtube c = Some y \<longrightarrow> youtube_ok y) \<and>
    (\<forall>t. mtls c = Some t \<longrightarrow> is_socket_addr (address t))"
  by (rule config_from_env_ok [OF assms])

text \<open>
  The check that durable NATS is TLS or loopback compares prefixes only: every URL that
  begins with a loopback name passes, so a cleartext URL of a remote host whose name starts
  with it is accepted.
\<close>

lemma nats_loopback_check_is_a_prefix:
  "validate_durable_nats_url (lit ''nats://localhost'' @ rest) = Ok () \<and>
   validate_durable_nats_url (lit ''nats://127.0.0.1'' @ rest) = Ok () \<and>
   validate_durable_nats_url (lit ''nats://localhost.attacker.example:4222'') = Ok ()"
proof -
  have "lit ''nats://localhost.attacker.example:4222'' = lit ''nats://localhost'' @ lit ''.attacker.example:4222''"
    by (simp add: lit_def)
  then show ?thesis by (simp only: validate_durable_nats_url_def starts_with_append simp_thms if_True)
qed

theorem config_well_formed_witness:
  "\<exists>c. config_from_env (\<lambda>_. None) (\<lambda>_. False) (\<lambda>_. Err NotPresent) = Ok c \<and> port c \<le> 65535"
proof -
  obtain c where c: "config_from_env (\<lambda>_. None) (\<lambda>_. False) (\<lambda>_. Err NotPresent) = Ok c"
    by (simp add: config_from_env_def parse_env_def env_non_empty_def read_shared_auth_def
        read_youtube_def validate_auth_configuration_def validate_operation_configuration_def
        parse_mtls_config_def)
  from config_well_formed [OF c] c show ?thesis by blast
qed

end
