(* ===== verification/Youtube.thy ===== *)
theory Youtube
  imports Config
begin

text \<open>
  \<open>src/youtube.rs\<close>: the actions, the payload policy, the client of the Apps Script web
  app and the classification of its answers. The HTTP stack is a function from a request to
  a response, JSON decoding of the answer is a parameter, and so are the printed forms of
  values the error messages embed.
\<close>

section \<open>Actions\<close>

datatype youtube_action =
    Channel
  | Videos
  | Analytics
  | ExportAnalytics
  | Jobs
  | StartUpload
  | ProcessUpload
  | ProcessAllUploads
  | PublishVideo
  | UpdateVideo
  | CreatePlaylist
  | AddToPlaylist
  | IngestGmail
  | SendDigest
  | PartnerStatus
  | PartnerOwners
  | PartnerClaims
  | AdminStatus
  | WorkspaceUsers

definition parse_action :: "ustr \<Rightarrow> youtube_action option" where
  "parse_action v =
     (if v = lit ''channel'' then Some Channel
      else if v = lit ''videos'' then Some Videos
      else if v = lit ''analytics'' then Some Analytics
      else if v = lit ''exportAnalytics'' then Some ExportAnalytics
      else if v = lit ''jobs'' then Some Jobs
      else if v = lit ''startUpload'' then Some StartUpload
      else if v = lit ''processUpload'' then Some ProcessUpload
      else if v = lit ''processAllUploads'' then Some ProcessAllUploads
      else if v = lit ''publishVideo'' then Some PublishVideo
      else if v = lit ''updateVideo'' then Some UpdateVideo
      else if v = lit ''createPlaylist'' then Some CreatePlaylist
      else if v = lit ''addToPlaylist'' then Some AddToPlaylist
      else if v = lit ''ingestGmail'' then Some IngestGmail
      else if v = lit ''sendDigest'' then Some SendDigest
      else if v = lit ''partnerStatus'' then Some PartnerStatus
      else if v = lit ''partnerOwners'' then Some PartnerOwners
      else if v = lit ''partnerClaims'' then Some PartnerClaims
      else if v = lit ''adminStatus'' then Some AdminStatus
      else if v = lit ''workspaceUsers'' then Some WorkspaceUsers
      else None)"

fun action_as_str :: "youtube_action \<Rightarrow> ustr" where
  "action_as_str Channel = lit ''channel''"
| "action_as_str Videos = lit ''videos''"
| "action_as_str Analytics = lit ''analytics''"
| "action_as_str ExportAnalytics = lit ''exportAnalytics''"
| "action_as_str Jobs = lit ''jobs''"
| "action_as_str StartUpload = lit ''startUpload''"
| "action_as_str ProcessUpload = lit ''processUpload''"
| "action_as_str ProcessAllUploads = lit ''processAllUploads''"
| "action_as_str PublishVideo = lit ''publishVideo''"
| "action_as_str UpdateVideo = lit ''updateVideo''"
| "action_as_str CreatePlaylist = lit ''createPlaylist''"
| "action_as_str AddToPlaylist = lit ''addToPlaylist''"
| "action_as_str IngestGmail = lit ''ingestGmail''"
| "action_as_str SendDigest = lit ''sendDigest''"
| "action_as_str PartnerStatus = lit ''partnerStatus''"
| "action_as_str PartnerOwners = lit ''partnerOwners''"
| "action_as_str PartnerClaims = lit ''partnerClaims''"
| "action_as_str AdminStatus = lit ''adminStatus''"
| "action_as_str WorkspaceUsers = lit ''workspaceUsers''"

definition is_mutating :: "youtube_action \<Rightarrow> bool" where
  "is_mutating a \<longleftrightarrow>
     a \<in> {ExportAnalytics, StartUpload, ProcessUpload, ProcessAllUploads, PublishVideo,
          UpdateVideo, CreatePlaylist, AddToPlaylist, IngestGmail, SendDigest}"

section \<open>Errors\<close>

datatype validation_error =
    NotAnObject
  | MissingIdempotencyKey
  | KeyLength
  | KeyCharacters
  | RightsNotConfirmed
  | UploadNotPrivate
  | KeyMismatch
  | UnknownPrivacy
  | PublicActionsDisabled
  | ConfirmationMismatch ustr
  | PublicPlaylistsDisabled
  | FieldRequired ustr
  | FieldEmpty ustr
  | FieldNotString ustr
  | KeyExpectPanicked

record gas_error =
  gas_message :: ustr
  gas_code :: ustr
  gas_details :: "json option"

record gas_envelope =
  gas_ok :: bool
  gas_data :: "json option"
  gas_envelope_error :: "gas_error option"

datatype youtube_error =
    HttpError ustr
  | ResponseTooLarge nat
  | UpstreamHttp status_code url "ustr option"
  | InvalidJson ustr ustr
  | AppsScript gas_error
  | Validation validation_error

section \<open>The payload policy\<close>

definition optional_string :: "jmap \<Rightarrow> ustr \<Rightarrow> (validation_error, ustr option) result" where
  "optional_string obj field =
     (case obj_get obj field of
        None \<Rightarrow> Ok None
      | Some JNull \<Rightarrow> Ok None
      | Some (JString v) \<Rightarrow> if trim v \<noteq> [] then Ok (Some (trim v)) else Err (FieldEmpty field)
      | Some _ \<Rightarrow> Err (FieldNotString field))"

definition require_non_empty_string :: "jmap \<Rightarrow> ustr \<Rightarrow> (validation_error, ustr) result" where
  "require_non_empty_string obj field =
     and_then (optional_string obj field) (ok_or (FieldRequired field))"

definition validate_idempotency_key :: "ustr \<Rightarrow> (validation_error, unit) result" where
  "validate_idempotency_key v =
     (if v = [] \<or> str_len v > 200 then Err KeyLength
      else if \<not> list_all is_ascii_graphic (str_bytes v) then Err KeyCharacters
      else Ok ())"

definition publish_phrase :: "ustr \<Rightarrow> ustr \<Rightarrow> ustr" where
  "publish_phrase video_id privacy =
     lit ''PUBLISH '' @ video_id @ lit '' AS '' @ to_ascii_uppercase privacy"

definition prepare_start_upload :: "jmap \<Rightarrow> ustr option \<Rightarrow> (validation_error, jmap) result" where
  "prepare_start_upload obj key =
     and_then (require_non_empty_string obj (lit ''driveFileId'')) (\<lambda>_.
     and_then (require_non_empty_string obj (lit ''title'')) (\<lambda>_.
     if obj_get obj (lit ''rightsConfirmed'') \<noteq> Some (JBool True) then Err RightsNotConfirmed
     else
       and_then (optional_string obj (lit ''privacyStatus'')) (\<lambda>status.
       if status \<noteq> None \<and> status \<noteq> Some (lit ''private'') then Err UploadNotPrivate
       else
         and_then (ok_or KeyExpectPanicked key) (\<lambda>header_key.
         and_then (optional_string obj (lit ''idempotencyKey'')) (\<lambda>existing.
         if existing \<noteq> None \<and> existing \<noteq> Some header_key then Err KeyMismatch
         else Ok (obj_insert (lit ''idempotencyKey'') (JString header_key) obj))))))"

definition check_publish_video :: "jmap \<Rightarrow> bool \<Rightarrow> (validation_error, unit) result" where
  "check_publish_video obj allow_public =
     and_then (require_non_empty_string obj (lit ''videoId'')) (\<lambda>video_id.
     and_then (require_non_empty_string obj (lit ''privacyStatus'')) (\<lambda>privacy.
     if privacy \<noteq> lit ''private'' \<and> privacy \<noteq> lit ''unlisted'' \<and> privacy \<noteq> lit ''public''
     then Err UnknownPrivacy
     else if privacy \<noteq> lit ''private'' \<and> \<not> allow_public then Err PublicActionsDisabled
     else
       and_then (require_non_empty_string obj (lit ''confirmation'')) (\<lambda>confirmation.
       if confirmation \<noteq> publish_phrase video_id privacy
       then Err (ConfirmationMismatch (publish_phrase video_id privacy)) else Ok ())))"

definition check_create_playlist :: "jmap \<Rightarrow> bool \<Rightarrow> (validation_error, unit) result" where
  "check_create_playlist obj allow_public =
     and_then (require_non_empty_string obj (lit ''title'')) (\<lambda>_.
     and_then (optional_string obj (lit ''privacyStatus'')) (\<lambda>p.
     let privacy = (case p of None \<Rightarrow> lit ''private'' | Some v \<Rightarrow> v)
     in if privacy \<noteq> lit ''private'' \<and> \<not> allow_public then Err PublicPlaylistsDisabled else Ok ()))"

definition prepare_payload ::
  "youtube_action \<Rightarrow> json \<Rightarrow> ustr option \<Rightarrow> bool \<Rightarrow> (validation_error, jmap) result" where
  "prepare_payload act body key allow_public =
     and_then (case body of JNull \<Rightarrow> Ok [] | JObject m \<Rightarrow> Ok m | _ \<Rightarrow> Err NotAnObject) (\<lambda>m.
     let obj = obj_remove (lit ''apiKey'') (obj_remove (lit ''action'') m) in
     and_then (if is_mutating act
               then and_then (ok_or MissingIdempotencyKey key) (\<lambda>k.
                    and_then (validate_idempotency_key k) (\<lambda>_.
                    Ok (obj_insert (lit ''controlRequestId'') (JString k) obj)))
               else Ok obj) (\<lambda>obj'.
     case act of
       StartUpload \<Rightarrow> prepare_start_upload obj' key
     | PublishVideo \<Rightarrow> and_then (check_publish_video obj' allow_public) (\<lambda>_. Ok obj')
     | CreatePlaylist \<Rightarrow> and_then (check_create_playlist obj' allow_public) (\<lambda>_. Ok obj')
     | _ \<Rightarrow> Ok obj'))"

section \<open>Lemmas on the policy\<close>

lemma parse_action_as_str: "parse_action (action_as_str a) = Some a"
  by (cases a) (simp_all add: parse_action_def)

lemma parse_action_Some: "parse_action v = Some a \<Longrightarrow> v = action_as_str a"
  by (auto simp: parse_action_def split: if_splits)

lemma optional_string_Ok:
  "optional_string obj f = Ok r \<longleftrightarrow>
     (case r of
        None \<Rightarrow> obj_get obj f = None \<or> obj_get obj f = Some JNull
      | Some s \<Rightarrow> \<exists>v. obj_get obj f = Some (JString v) \<and> trim v = s \<and> s \<noteq> [])"
  by (auto simp: optional_string_def split: option.splits json.splits if_splits)

lemma require_Ok:
  "require_non_empty_string obj f = Ok s \<longleftrightarrow> optional_string obj f = Ok (Some s)"
  by (auto simp: require_non_empty_string_def result_simps)

definition sanitized :: "json \<Rightarrow> jmap option" where
  "sanitized body =
     (case body of
        JNull \<Rightarrow> Some []
      | JObject m \<Rightarrow> Some (obj_remove (lit ''apiKey'') (obj_remove (lit ''action'') m))
      | _ \<Rightarrow> None)"

definition with_key :: "youtube_action \<Rightarrow> ustr option \<Rightarrow> jmap \<Rightarrow> jmap" where
  "with_key act key obj =
     (if is_mutating act then obj_insert (lit ''controlRequestId'') (JString (the key)) obj else obj)"

text \<open>The shape of an accepted payload.\<close>

lemma prepare_payload_Ok:
  assumes "prepare_payload act body key allow = Ok out"
  obtains m where "sanitized body = Some m"
    "is_mutating act \<longrightarrow> (\<exists>k. key = Some k \<and> validate_idempotency_key k = Ok ())"
    "case act of
       StartUpload \<Rightarrow> prepare_start_upload (with_key act key m) key = Ok out
     | PublishVideo \<Rightarrow> check_publish_video (with_key act key m) allow = Ok () \<and> out = with_key act key m
     | CreatePlaylist \<Rightarrow> check_create_playlist (with_key act key m) allow = Ok () \<and> out = with_key act key m
     | _ \<Rightarrow> out = with_key act key m"
proof -
  obtain m0 where m0: "(case body of JNull \<Rightarrow> Ok [] | JObject m \<Rightarrow> Ok m | _ \<Rightarrow> Err NotAnObject) = Ok m0"
    using assms unfolding prepare_payload_def by (auto simp only: and_then_Ok_iff)
  let ?m = "obj_remove (lit ''apiKey'') (obj_remove (lit ''action'') m0)"
  have s: "sanitized body = Some ?m"
    using m0 by (cases body) (auto simp: sanitized_def obj_remove_def)
  have k: "is_mutating act \<longrightarrow> (\<exists>k. key = Some k \<and> validate_idempotency_key k = Ok ())"
    using assms m0 by (auto simp: prepare_payload_def Let_def result_simps)
  have "case act of
       StartUpload \<Rightarrow> prepare_start_upload (with_key act key ?m) key = Ok out
     | PublishVideo \<Rightarrow> check_publish_video (with_key act key ?m) allow = Ok () \<and> out = with_key act key ?m
     | CreatePlaylist \<Rightarrow> check_create_playlist (with_key act key ?m) allow = Ok () \<and> out = with_key act key ?m
     | _ \<Rightarrow> out = with_key act key ?m"
    using assms m0 k
    by (cases act) (auto simp: prepare_payload_def Let_def result_simps with_key_def is_mutating_def)
  with s k show thesis by (rule that)
qed

lemma prepare_start_upload_Ok:
  assumes "prepare_start_upload obj (Some k) = Ok out"
  shows "obj_get obj (lit ''rightsConfirmed'') = Some (JBool True) \<and>
    optional_string obj (lit ''privacyStatus'') \<in> {Ok None, Ok (Some (lit ''private''))} \<and>
    out = obj_insert (lit ''idempotencyKey'') (JString k) obj"
  using assms by (auto simp: prepare_start_upload_def result_simps split: if_splits)

lemma sanitized_clean:
  "sanitized body = Some m \<Longrightarrow> obj_get m (lit ''action'') = None \<and> obj_get m (lit ''apiKey'') = None"
  by (cases body) (auto simp: sanitized_def obj_simps)

lemma sanitized_wf: "json_wf body \<Longrightarrow> sanitized body = Some m \<Longrightarrow> obj_wf m"
  by (cases body) (auto simp: sanitized_def obj_wf_remove obj_wf_def [of "[]"])

text \<open>What the policy leaves of the caller's object, field by field.\<close>

lemma prepare_payload_fields:
  assumes "prepare_payload act body key allow = Ok out"
  shows "obj_get out f =
    (if is_mutating act \<and> f = lit ''controlRequestId'' \<or> act = StartUpload \<and> f = lit ''idempotencyKey''
     then Some (JString (the key))
     else if f = lit ''action'' \<or> f = lit ''apiKey'' then None
     else (case body of JObject m \<Rightarrow> obj_get m f | _ \<Rightarrow> None))"
proof -
  obtain m where m: "sanitized body = Some m"
    and k: "is_mutating act \<longrightarrow> (\<exists>k. key = Some k \<and> validate_idempotency_key k = Ok ())"
    and out: "case act of
       StartUpload \<Rightarrow> prepare_start_upload (with_key act key m) key = Ok out
     | PublishVideo \<Rightarrow> check_publish_video (with_key act key m) allow = Ok () \<and> out = with_key act key m
     | CreatePlaylist \<Rightarrow> check_create_playlist (with_key act key m) allow = Ok () \<and> out = with_key act key m
     | _ \<Rightarrow> out = with_key act key m"
    using assms by (rule prepare_payload_Ok)
  have m': "obj_get m f = (if f = lit ''action'' \<or> f = lit ''apiKey'' then None
      else (case body of JObject m \<Rightarrow> obj_get m f | _ \<Rightarrow> None))"
    using m by (cases body) (auto simp: sanitized_def obj_simps)
  show ?thesis
  proof (cases "act = StartUpload")
    case True
    then obtain h where h: "key = Some h" using k by (auto simp: is_mutating_def)
    then have "out = obj_insert (lit ''idempotencyKey'') (JString h) (with_key act key m)"
      using out True prepare_start_upload_Ok by auto
    with True h m' show ?thesis by (auto simp: with_key_def obj_simps is_mutating_def)
  next
    case False
    then have "out = with_key act key m" using out by (cases act) auto
    with False m' show ?thesis by (auto simp: with_key_def obj_simps)
  qed
qed

lemma prepare_payload_key:
  "prepare_payload act body key allow = Ok out \<Longrightarrow> is_mutating act \<Longrightarrow>
   \<exists>k. key = Some k \<and> validate_idempotency_key k = Ok ()"
  by (auto elim!: prepare_payload_Ok)

section \<open>The client\<close>

record youtube_client =
  yc_web_app_url :: url
  yc_api_key :: ustr
  yc_expected_channel_handle :: ustr
  yc_max_response_bytes :: nat
  yc_allow_public_actions :: bool

definition client_of :: "youtube_config \<Rightarrow> youtube_client" where
  "client_of c =
     \<lparr>yc_web_app_url = web_app_url c, yc_api_key = api_key c,
      yc_expected_channel_handle = expected_channel_handle c,
      yc_max_response_bytes = max_response_bytes c,
      yc_allow_public_actions = allow_public_actions c\<rparr>"

definition new_client ::
  "(youtube_config \<Rightarrow> (ustr, unit) result) \<Rightarrow> youtube_config \<Rightarrow> (youtube_error, youtube_client) result" where
  "new_client build c = and_then (map_err HttpError (build c)) (\<lambda>_. Ok (client_of c))"

fun segment_after_s :: "ustr list \<Rightarrow> ustr option" where
  "segment_after_s [] = None"
| "segment_after_s (seg # rest) =
     (if seg = lit ''s'' then (case rest of [] \<Rightarrow> None | next_seg # _ \<Rightarrow> Some next_seg)
      else segment_after_s rest)"

definition deployment_id :: "youtube_client \<Rightarrow> ustr option" where
  "deployment_id c = Option.bind (url_path_segments (yc_web_app_url c)) segment_after_s"

subsection \<open>Redirects\<close>

datatype redirect_decision = RedirectError | Follow | Stop

definition redirect_policy :: "nat \<Rightarrow> url \<Rightarrow> redirect_decision" where
  "redirect_policy previous u =
     (if previous \<ge> 5 then RedirectError
      else if url_host_str u = Some (lit ''script.google.com'')
              \<or> url_host_str u = Some (lit ''script.googleusercontent.com'')
      then Follow else Stop)"

text \<open>
  The URLs a request visits when every answer is a redirect to the next of a list: the HTTP
  client asks the policy before each hop, with the number of URLs visited so far.
\<close>

fun visit_redirects :: "nat \<Rightarrow> url list \<Rightarrow> url list" where
  "visit_redirects previous [] = []"
| "visit_redirects previous (u # us) =
     (case redirect_policy previous u of
        Follow \<Rightarrow> u # visit_redirects (previous + 1) us
      | _ \<Rightarrow> [])"

lemma visit_redirects_bound: "length (visit_redirects n us) \<le> 5 - n"
proof (induction us arbitrary: n)
  case (Cons u us)
  from Cons [of "n + 1"] show ?case by (auto simp: redirect_policy_def)
qed simp

lemma visit_redirects_host:
  "u \<in> set (visit_redirects n us) \<Longrightarrow>
   url_host_str u \<in> {Some (lit ''script.google.com''), Some (lit ''script.googleusercontent.com'')}"
  by (induction us arbitrary: n)
    (auto simp: redirect_policy_def split: redirect_decision.splits if_splits)

subsection \<open>Answers\<close>

record http_response =
  resp_status :: status_code
  resp_final_url :: url
  resp_location :: "header_value option"
  resp_content_length :: "nat option"
  resp_body :: "(ustr, u8 list) result"

record json_codec =
  gas_from_slice :: "u8 list \<Rightarrow> (ustr, gas_envelope) result"
  from_utf8_lossy :: "u8 list \<Rightarrow> ustr"

definition parse_response ::
  "json_codec \<Rightarrow> youtube_client \<Rightarrow> http_response \<Rightarrow> (youtube_error, json) result" where
  "parse_response jc c r =
     (if (case resp_content_length r of None \<Rightarrow> False | Some n \<Rightarrow> n > yc_max_response_bytes c)
      then Err (ResponseTooLarge (yc_max_response_bytes c))
      else
        and_then (map_err HttpError (resp_body r)) (\<lambda>bytes.
        if length bytes > yc_max_response_bytes c
        then Err (ResponseTooLarge (yc_max_response_bytes c))
        else if \<not> is_success (resp_status r)
        then Err (UpstreamHttp (resp_status r) (resp_final_url r) (Option.bind (resp_location r) to_str))
        else
          (case gas_from_slice jc bytes of
             Err source \<Rightarrow> Err (InvalidJson source (take 500 (from_utf8_lossy jc bytes)))
           | Ok env \<Rightarrow>
               if gas_ok env then Ok (case gas_data env of None \<Rightarrow> JNull | Some d \<Rightarrow> d)
               else Err (AppsScript (case gas_envelope_error env of
                 None \<Rightarrow> \<lparr>gas_message = lit ''Apps Script returned ok=false without an error object'',
                          gas_code = lit ''UNKNOWN_UPSTREAM_ERROR'', gas_details = None\<rparr>
               | Some e \<Rightarrow> e)))))"

subsection \<open>Requests\<close>

datatype http_request = Get url | PostJson url jmap

type_synonym http = "http_request \<Rightarrow> (ustr, http_response) result"

definition append_query :: "url \<Rightarrow> ustr \<Rightarrow> url" where
  "append_query u pair =
     u\<lparr>url_query := Some (case url_query u of None \<Rightarrow> pair | Some q \<Rightarrow> q @ lit ''&'' @ pair)\<rparr>"

text \<open>Each call with the requests it sends.\<close>

definition youtube_health :: "json_codec \<Rightarrow> http \<Rightarrow> youtube_client \<Rightarrow> (youtube_error, json) result \<times> http_request list" where
  "youtube_health jc send c =
     (let request = Get (append_query (yc_web_app_url c) (lit ''action=health''))
      in (and_then (map_err HttpError (send request)) (parse_response jc c), [request]))"

definition youtube_execute ::
  "json_codec \<Rightarrow> http \<Rightarrow> youtube_client \<Rightarrow> youtube_action \<Rightarrow> json \<Rightarrow> ustr option \<Rightarrow>
   (youtube_error, json) result \<times> http_request list" where
  "youtube_execute jc send c act body key =
     (case prepare_payload act body key (yc_allow_public_actions c) of
        Err e \<Rightarrow> (Err (Validation e), [])
      | Ok obj \<Rightarrow>
          let full = obj_insert (lit ''apiKey'') (JString (yc_api_key c))
                       (obj_insert (lit ''action'') (JString (action_as_str act)) obj);
              request = PostJson (yc_web_app_url c) full
          in (and_then (map_err HttpError (send request)) (parse_response jc c), [request]))"

section \<open>What an error shows\<close>

definition youtube_error_code :: "youtube_error \<Rightarrow> ustr" where
  "youtube_error_code e =
     (case e of
        HttpError _ \<Rightarrow> lit ''YOUTUBE_GAS_HTTP_ERROR''
      | ResponseTooLarge _ \<Rightarrow> lit ''YOUTUBE_GAS_RESPONSE_TOO_LARGE''
      | UpstreamHttp status _ location \<Rightarrow>
          if is_redirection status \<and>
             (case location of None \<Rightarrow> False | Some l \<Rightarrow> str_contains l (lit ''accounts.google.com''))
          then lit ''YOUTUBE_GAS_OWNER_ONLY''
          else lit ''YOUTUBE_GAS_UPSTREAM_HTTP_ERROR''
      | InvalidJson _ _ \<Rightarrow> lit ''YOUTUBE_GAS_INVALID_JSON''
      | AppsScript _ \<Rightarrow> lit ''YOUTUBE_GAS_APPLICATION_ERROR''
      | Validation _ \<Rightarrow> lit ''VALIDATION_ERROR'')"

definition json_str_option :: "ustr option \<Rightarrow> json" where
  "json_str_option s = json_option (map_option JString s)"

definition youtube_error_details :: "(ustr \<Rightarrow> url option) \<Rightarrow> youtube_error \<Rightarrow> json option" where
  "youtube_error_details url_parse e =
     (case e of
        AppsScript g \<Rightarrow>
          Some (json_object [(lit ''upstreamCode'', JString (gas_code g)),
                             (lit ''upstreamDetails'', json_option (gas_details g))])
      | UpstreamHttp status final_url location \<Rightarrow>
          Some (json_object [(lit ''status'', jnat status),
                             (lit ''finalHost'', json_str_option (url_host_str final_url)),
                             (lit ''locationHost'',
                              json_str_option (Option.bind (Option.bind location url_parse) url_host_str))])
      | ResponseTooLarge n \<Rightarrow> Some (json_object [(lit ''maxBytes'', jnat n)])
      | _ \<Rightarrow> None)"

text \<open>The printed forms of values that a message embeds are parameters.\<close>

record printers =
  debug_str :: "ustr \<Rightarrow> ustr"
  debug_str_option :: "ustr option \<Rightarrow> ustr"
  show_status :: "status_code \<Rightarrow> ustr"
  show_url :: "url \<Rightarrow> ustr"

definition validation_message :: "printers \<Rightarrow> validation_error \<Rightarrow> ustr" where
  "validation_message pr e =
     (case e of
        NotAnObject \<Rightarrow> lit ''request body must be a JSON object''
      | MissingIdempotencyKey \<Rightarrow> lit ''mutating actions require an Idempotency-Key header''
      | KeyLength \<Rightarrow> lit ''Idempotency-Key must contain 1 to 200 characters''
      | KeyCharacters \<Rightarrow> lit ''Idempotency-Key must contain printable ASCII without spaces''
      | RightsNotConfirmed \<Rightarrow> lit ''startUpload requires rightsConfirmed=true''
      | UploadNotPrivate \<Rightarrow> lit ''startUpload must remain private; publish in a separate approved action''
      | KeyMismatch \<Rightarrow> lit ''body idempotencyKey must match the Idempotency-Key header''
      | UnknownPrivacy \<Rightarrow> lit ''privacyStatus must be private, unlisted, or public''
      | PublicActionsDisabled \<Rightarrow>
          lit ''public and unlisted actions are disabled by YOUTUBE_ALLOW_PUBLIC_ACTIONS''
      | ConfirmationMismatch expected \<Rightarrow> lit ''confirmation must exactly equal '' @ debug_str pr expected
      | PublicPlaylistsDisabled \<Rightarrow>
          lit ''non-private playlists are disabled by YOUTUBE_ALLOW_PUBLIC_ACTIONS''
      | FieldRequired f \<Rightarrow> f @ lit '' is required and must be non-empty''
      | FieldEmpty f \<Rightarrow> f @ lit '' must not be empty''
      | FieldNotString f \<Rightarrow> f @ lit '' must be a string''
      | KeyExpectPanicked \<Rightarrow> lit ''mutating actions already require a key'')"

definition youtube_error_message :: "printers \<Rightarrow> youtube_error \<Rightarrow> ustr" where
  "youtube_error_message pr e =
     (case e of
        HttpError m \<Rightarrow> lit ''Apps Script request failed: '' @ m
      | ResponseTooLarge n \<Rightarrow> lit ''Apps Script response exceeded '' @ show_nat n @ lit '' bytes''
      | UpstreamHttp status final_url location \<Rightarrow>
          if is_redirection status
          then lit ''Apps Script returned redirect '' @ show_status pr status @ lit '' from '' @
               show_url pr final_url @ lit ''; target was '' @ debug_str_option pr location @
               lit ''. The deployment may still be owner-only''
          else lit ''Apps Script returned HTTP '' @ show_status pr status
      | InvalidJson source preview \<Rightarrow>
          lit ''Apps Script returned invalid JSON ('' @ source @ lit ''); preview: '' @ preview
      | AppsScript g \<Rightarrow> lit ''Apps Script '' @ gas_code g @ lit '': '' @ gas_message g
      | Validation v \<Rightarrow> validation_message pr v)"

section \<open>The audit projection\<close>

definition AUDIT_FIELDS :: "ustr list" where
  "AUDIT_FIELDS = map lit [''videoId'', ''driveFileId'', ''playlistId'', ''privacyStatus'',
     ''repository'', ''commit'']"

text \<open>A hash map becomes an object when it is serialised, whatever its order.\<close>

definition redact_map_for_audit :: "json \<Rightarrow> json" where
  "redact_map_for_audit body =
     (case as_object body of
        None \<Rightarrow> json_object []
      | Some m \<Rightarrow>
          json_object (concat (map (\<lambda>f. case obj_get m f of None \<Rightarrow> [] | Some v \<Rightarrow> [(f, v)]) AUDIT_FIELDS)))"

lemma json_object_get:
  "distinct (map fst fs) \<Longrightarrow> json_object fs = JObject m \<Longrightarrow> obj_get m k = map_of fs k"
proof -
  assume d: "distinct (map fst fs)" and m: "json_object fs = JObject m"
  then have m': "m = fold (\<lambda>(l, v). obj_insert l v) fs []" by (simp add: json_object_def)
  show ?thesis
  proof (cases "map_of fs k")
    case None
    then have "k \<notin> set (map fst fs)" by (simp add: map_of_eq_None_iff)
    then show ?thesis
      using jobj.get_fold_insert_notin [of k fs "[]"] None by (simp add: m' obj_simps)
  next
    case (Some v)
    then have "(k, v) \<in> set fs" by (rule map_of_SomeD)
    then show ?thesis using jobj.get_fold_insert [OF d, of k v "[]"] Some by (simp add: m')
  qed
qed

lemma map_of_selected:
  "map_of (concat (map (\<lambda>f. case g f of None \<Rightarrow> [] | Some v \<Rightarrow> [(f, v)]) fs)) k =
     (if k \<in> set fs then g k else None)"
  by (induction fs) (auto simp: map_add_def split: option.splits)

lemma distinct_selected:
  "distinct fs \<Longrightarrow>
   distinct (map fst (concat (map (\<lambda>f. case g f of None \<Rightarrow> [] | Some v \<Rightarrow> [(f, v)]) fs)))"
  by (induction fs) (auto split: option.splits)

lemma audit_fields_distinct: "distinct AUDIT_FIELDS"
  by (simp add: AUDIT_FIELDS_def)

lemma redact_get:
  "redact_map_for_audit (JObject m) = JObject a \<Longrightarrow>
   obj_get a k = (if k \<in> set AUDIT_FIELDS then obj_get m k else None)"
  unfolding redact_map_for_audit_def as_object_def
  using json_object_get [OF distinct_selected [OF audit_fields_distinct], of "obj_get m" a k]
    map_of_selected [of "obj_get m" AUDIT_FIELDS k] by simp

lemma parse_response_Ok_iff:
  "parse_response jc c r = Ok v \<longleftrightarrow>
      (\<forall>n. resp_content_length r = Some n \<longrightarrow> n \<le> yc_max_response_bytes c) \<and>
      is_success (resp_status r) \<and>
      (\<exists>bytes env. resp_body r = Ok bytes \<and> length bytes \<le> yc_max_response_bytes c \<and>
         gas_from_slice jc bytes = Ok env \<and> gas_ok env \<and>
         v = (case gas_data env of None \<Rightarrow> JNull | Some d \<Rightarrow> d))"
proof (cases "resp_body r")
  case (Inr bytes)
  then show ?thesis
    by (cases "gas_from_slice jc bytes") (auto simp: parse_response_def split: option.splits)
qed (auto simp: parse_response_def)

lemma parse_response_AppsScript:
  "parse_response jc c r = Err (AppsScript g) \<Longrightarrow> is_success (resp_status r)"
  by (auto simp: parse_response_def result_simps split: if_splits sum.splits option.splits)

lemma owner_only_code:
  "youtube_error_code e = lit ''YOUTUBE_GAS_OWNER_ONLY'' \<Longrightarrow>
   \<exists>status u l. e = UpstreamHttp status u (Some l) \<and> is_redirection status"
  by (cases e) (auto simp: youtube_error_code_def split: if_splits option.splits)

lemma parse_response_Upstream:
  "parse_response jc c r = Err (UpstreamHttp status u l) \<Longrightarrow> status = resp_status r"
  by (auto simp: parse_response_def result_simps split: if_splits sum.splits option.splits)

section \<open>Properties\<close>

text \<open>
  An action name is accepted exactly when it is the printed form of a supported action,
  and then it is that action.
\<close>

lemma action_names_exact: "parse_action v = Some a \<longleftrightarrow> v = action_as_str a"
  using parse_action_as_str parse_action_Some by auto

text \<open>
  C28: What is sent to the web app is the caller's object with its own \<open>action\<close> and
  \<open>apiKey\<close> removed and the server's put in their place; a mutating action carries the
  request's idempotency key, one to 200 printable ASCII characters, as its control request
  id (and, for an upload, as its idempotency key); every other field is the caller's. A
  request that is refused is not sent at all.
\<close>

theorem sent_payload_exact:
  assumes "youtube_execute jc send c act body key = (r, requests)"
  shows "(requests = [] \<and> (\<exists>e. r = Err (Validation e))) \<or>
    (\<exists>sent. requests = [PostJson (yc_web_app_url c) sent] \<and>
       (is_mutating act \<longrightarrow> (\<exists>k. key = Some k \<and> k \<noteq> [] \<and> str_len k \<le> 200 \<and>
          list_all is_ascii_graphic (str_bytes k))) \<and>
       (\<forall>f. obj_get sent f =
          (if f = lit ''apiKey'' then Some (JString (yc_api_key c))
           else if f = lit ''action'' then Some (JString (action_as_str act))
           else if is_mutating act \<and> f = lit ''controlRequestId'' \<or>
                   act = StartUpload \<and> f = lit ''idempotencyKey''
           then Some (JString (the key))
           else (case body of JObject m \<Rightarrow> obj_get m f | _ \<Rightarrow> None))))"
proof (cases "prepare_payload act body key (yc_allow_public_actions c)")
  case (Inl e)
  with assms show ?thesis by (auto simp: youtube_execute_def)
next
  case (Inr obj)
  have k: "is_mutating act \<longrightarrow> (\<exists>k. key = Some k \<and> k \<noteq> [] \<and> str_len k \<le> 200 \<and>
      list_all is_ascii_graphic (str_bytes k))"
    using prepare_payload_key [OF Inr] by (auto simp: validate_idempotency_key_def split: if_splits)
  show ?thesis
    using assms Inr k prepare_payload_fields [OF Inr]
    by (auto simp: youtube_execute_def Let_def obj_simps)
qed

text \<open>
  C29: An accepted upload is private: its rights are confirmed and any privacy it names is
  private, whatever the server's switch.
\<close>

theorem upload_stays_private:
  assumes "prepare_payload StartUpload body key allow = Ok out"
  shows "obj_get out (lit ''rightsConfirmed'') = Some (JBool True) \<and>
    (\<forall>v. obj_get out (lit ''privacyStatus'') = Some v \<longrightarrow>
       v = JNull \<or> (\<exists>s. v = JString s \<and> trim s = lit ''private''))"
proof -
  obtain m where m: "prepare_start_upload (with_key StartUpload key m) key = Ok out"
    and k: "\<exists>k. key = Some k"
    using assms by (rule prepare_payload_Ok) (auto simp: is_mutating_def)
  then obtain h where h: "key = Some h" by blast
  let ?obj = "with_key StartUpload key m"
  have u: "obj_get ?obj (lit ''rightsConfirmed'') = Some (JBool True)"
    "optional_string ?obj (lit ''privacyStatus'') \<in> {Ok None, Ok (Some (lit ''private''))}"
    "out = obj_insert (lit ''idempotencyKey'') (JString h) ?obj"
    using prepare_start_upload_Ok m h by auto
  then show ?thesis by (auto simp: obj_simps optional_string_Ok)
qed

text \<open>
  A publication goes through only for one of the three privacy values, beyond private
  only with the server's switch on, and only with the exact phrase naming the video and that
  privacy.
\<close>

lemma publication_needs_switch_and_phrase:
  assumes "prepare_payload PublishVideo body key allow = Ok out"
  shows "\<exists>video privacy phrase video_id p.
    obj_get out (lit ''videoId'') = Some (JString video) \<and> video_id = trim video \<and> video_id \<noteq> [] \<and>
    obj_get out (lit ''privacyStatus'') = Some (JString privacy) \<and> p = trim privacy \<and>
    p \<in> {lit ''private'', lit ''unlisted'', lit ''public''} \<and> (p \<noteq> lit ''private'' \<longrightarrow> allow) \<and>
    obj_get out (lit ''confirmation'') = Some (JString phrase) \<and>
    trim phrase = publish_phrase video_id p"
proof -
  obtain m where "check_publish_video (with_key PublishVideo key m) allow = Ok ()"
    "out = with_key PublishVideo key m"
    using assms by (rule prepare_payload_Ok) auto
  then have "check_publish_video out allow = Ok ()" by simp
  then show ?thesis
    unfolding check_publish_video_def
    by (auto simp: result_simps require_Ok optional_string_Ok split: if_splits)
qed


text \<open>
  A request to the web app visits at most five URLs, and every redirect it follows goes
  to one of the two hosts of Apps Script.
\<close>

lemma redirects_stay_on_google:
  "length (u # visit_redirects 1 locations) \<le> 5 \<and>
   (\<forall>v \<in> set (visit_redirects 1 locations).
      url_host_str v = Some (lit ''script.google.com'') \<or>
      url_host_str v = Some (lit ''script.googleusercontent.com''))"
  using visit_redirects_bound [of 1 locations] visit_redirects_host [of _ 1 locations] by auto

text \<open>
  The audit projection of an object holds the six reviewed fields it has and nothing
  else, but each with the caller's value as it is, of whatever type and content.
\<close>

lemma audit_projection_exact:
  assumes "redact_map_for_audit (JObject m) = JObject a"
  shows "obj_get a f = (if f \<in> set AUDIT_FIELDS then obj_get m f else None)"
  by (rule redact_get [OF assms])

section \<open>Witnesses\<close>

definition sample_client :: youtube_client where
  "sample_client =
     \<lparr>yc_web_app_url = \<lparr>url_scheme = lit ''https'', url_host_str = Some (lit ''script.google.com''),
        url_username = [], url_password = None, url_path = lit ''/macros/s/id/exec'',
        url_path_segments = Some (map lit [''macros'', ''s'', ''id'', ''exec'']),
        url_query = None, url_fragment = None\<rparr>,
      yc_api_key = lit ''key'', yc_expected_channel_handle = lit ''@anticaptrad'',
      yc_max_response_bytes = 1024, yc_allow_public_actions = True\<rparr>"

definition upload_body :: json where
  "upload_body = json_object
     [(lit ''driveFileId'', JString (lit ''drive-1'')), (lit ''title'', JString (lit ''A'')),
      (lit ''rightsConfirmed'', JBool True)]"

definition publish_body :: json where
  "publish_body = json_object
     [(lit ''videoId'', JString (lit ''abc'')), (lit ''privacyStatus'', JString (lit ''public'')),
      (lit ''confirmation'', JString (lit ''PUBLISH abc AS PUBLIC''))]"

lemma sample_key_ok: "validate_idempotency_key (lit ''upload-1'') = Ok ()"
  by (simp add: validate_idempotency_key_def ascii_str_len ascii_str_bytes ascii_def lit_def
      is_ascii_graphic_def)

lemma trim_lit:
  "trim (lit ''drive-1'') = lit ''drive-1''" "trim (lit ''A'') = lit ''A''"
  "trim (lit ''abc'') = lit ''abc''" "trim (lit ''public'') = lit ''public''"
  "trim (lit ''PUBLISH abc AS PUBLIC'') = lit ''PUBLISH abc AS PUBLIC''"
  by (simp_all add: trim_id_iff is_whitespace_def lit_def)

lemma sample_phrase: "publish_phrase (lit ''abc'') (lit ''public'') = lit ''PUBLISH abc AS PUBLIC''"
  by (simp add: publish_phrase_def to_ascii_uppercase_def lit_def)

lemma object_fields:
  "distinct (map fst fs) \<Longrightarrow> \<exists>m. json_object fs = JObject m \<and> (\<forall>k. obj_get m k = map_of fs k)"
  using json_object_get [of fs] by (auto simp: json_object_def)

lemma upload_body_fields:
  "\<exists>m. upload_body = JObject m \<and> (\<forall>k. obj_get m k = map_of
     [(lit ''driveFileId'', JString (lit ''drive-1'')), (lit ''title'', JString (lit ''A'')),
      (lit ''rightsConfirmed'', JBool True)] k)"
  unfolding upload_body_def by (rule object_fields) simp

lemma publish_body_fields:
  "\<exists>m. publish_body = JObject m \<and> (\<forall>k. obj_get m k = map_of
     [(lit ''videoId'', JString (lit ''abc'')), (lit ''privacyStatus'', JString (lit ''public'')),
      (lit ''confirmation'', JString (lit ''PUBLISH abc AS PUBLIC''))] k)"
  unfolding publish_body_def by (rule object_fields) simp

definition sample_codec :: json_codec where
  "sample_codec =
     \<lparr>gas_from_slice = \<lambda>_. Ok \<lparr>gas_ok = True, gas_data = None, gas_envelope_error = None\<rparr>,
      from_utf8_lossy = \<lambda>_. []\<rparr>"

theorem sent_payload_exact_witness:
  "\<exists>sent. snd (youtube_execute sample_codec (\<lambda>_. Err []) sample_client Channel JNull None) =
       [PostJson (yc_web_app_url sample_client) sent] \<and>
     obj_get sent (lit ''apiKey'') = Some (JString (lit ''key''))"
proof -
  obtain r requests where e: "youtube_execute sample_codec (\<lambda>_. Err []) sample_client Channel JNull None = (r, requests)"
    by fastforce
  have "requests \<noteq> []"
    using e by (auto simp: youtube_execute_def prepare_payload_def is_mutating_def Let_def)
  with sent_payload_exact [OF e] obtain sent where
    s: "requests = [PostJson (yc_web_app_url sample_client) sent]"
    "\<forall>f. f = lit ''apiKey'' \<longrightarrow> obj_get sent f = Some (JString (yc_api_key sample_client))" by auto
  have "yc_api_key sample_client = lit ''key''" by (simp add: sample_client_def)
  with s show ?thesis by (simp add: e)
qed

theorem upload_stays_private_witness:
  "\<exists>out. prepare_payload StartUpload upload_body (Some (lit ''upload-1'')) False = Ok out \<and>
     obj_get out (lit ''rightsConfirmed'') = Some (JBool True)"
proof -
  obtain m where m: "upload_body = JObject m"
    "\<forall>k. obj_get m k = map_of [(lit ''driveFileId'', JString (lit ''drive-1'')), (lit ''title'', JString (lit ''A'')),
      (lit ''rightsConfirmed'', JBool True)] k"
    using upload_body_fields by blast
  obtain out where p: "prepare_payload StartUpload upload_body (Some (lit ''upload-1'')) False = Ok out"
    by (simp add: m prepare_payload_def is_mutating_def sample_key_ok Let_def
        prepare_start_upload_def require_non_empty_string_def optional_string_def obj_simps trim_lit )
  from upload_stays_private [OF p] p show ?thesis by blast
qed

definition sample_response :: http_response where
  "sample_response =
     \<lparr>resp_status = 200, resp_final_url = yc_web_app_url sample_client, resp_location = None,
      resp_content_length = Some 2, resp_body = Ok [123, 125]\<rparr>"


end
