(* ===== verification/Routes.thy ===== *)
theory Routes
  imports Journal Auth Youtube
begin

text \<open>
  The HTTP surface: the event bus of \<open>src/nats.rs\<close> and the handlers of
  \<open>src/routes.rs\<close>, each with the calls it makes to the outside in order, and the
  rendering of their errors. Routing and body extraction are axum's: a handler gets its path
  parameter, headers and JSON payload. Time, the counter of request ids, the HTTP client and
  the encoders are arguments.
\<close>

section \<open>The event bus\<close>

text \<open>
  \<open>publish_json\<close>: the messages handed to the client. Neither an encoding error nor a
  failed publication is reported to the caller.
\<close>

definition publish_json ::
  "(json \<Rightarrow> u8 list option) \<Rightarrow> 'n option \<Rightarrow> ustr \<Rightarrow> json \<Rightarrow> (ustr \<times> u8 list) list" where
  "publish_json to_vec client subj body =
     (case client of
        None \<Rightarrow> []
      | Some _ \<Rightarrow> (case to_vec body of None \<Rightarrow> [] | Some encoded \<Rightarrow> [(subj, encoded)]))"

text \<open>
  \<open>spawn_event_subscriber\<close>: what it logs of the messages of the subscription, their
  subjects and sizes only.
\<close>

datatype bus_log =
    Subscribed ustr
  | EventReceived ustr nat
  | SubscriptionEnded
  | SubscribeFailed ustr

definition EVENT_SUBJECT :: ustr where
  "EVENT_SUBJECT = lit ''act.events.>''"

definition event_subscriber :: "(ustr, (ustr \<times> u8 list) list) result \<Rightarrow> bus_log list" where
  "event_subscriber subscription =
     (case subscription of
        Err _ \<Rightarrow> [SubscribeFailed EVENT_SUBJECT]
      | Ok messages \<Rightarrow>
          Subscribed EVENT_SUBJECT # map (\<lambda>(s, body). EventReceived s (length body)) messages
            @ [SubscriptionEnded])"

lemma event_subscriber_blind:
  assumes "map (\<lambda>(s, b). (s, length b)) ms = map (\<lambda>(s, b). (s, length b)) ns"
  shows "event_subscriber (Ok ms) = event_subscriber (Ok ns)"
proof -
  have logs: "map (\<lambda>(s, b). EventReceived s (length b)) xs =
      map (case_prod EventReceived) (map (\<lambda>(s, b). (s, length b)) xs)" for xs :: "(ustr \<times> u8 list) list"
    by (induction xs) auto
  show ?thesis by (simp only: event_subscriber_def sum.case logs [of ms] assms logs [of ns])
qed

section \<open>State, errors and responses\<close>

record 'n app_state =
  app_nats :: "'n option"
  app_youtube :: "youtube_client option"
  app_shared_auth :: "shared_auth_verifier option"
  app_operation_journal :: "(db_env, database) operation_journal option"

record api_error =
  ae_status :: status_code
  ae_code :: ustr
  ae_message :: ustr
  ae_details :: "json option"
  ae_request_id :: "ustr option"

record response =
  rs_status :: status_code
  rs_body :: json
  rs_www_authenticate :: "ustr option"

text \<open>What a request can make the server do: a NATS message or an upstream request.\<close>

datatype outside = Published ustr "u8 list" | Upstream http_request

record web =
  web_codec :: json_codec
  web_http :: http
  web_url_parse :: "ustr \<Rightarrow> url option"
  web_printers :: printers
  web_to_vec :: "json \<Rightarrow> u8 list option"
  web_version :: ustr

text \<open>The clock as one handler sees it: epoch milliseconds, and its own duration.\<close>

record clock =
  clk_millis :: "nat option"
  clk_elapsed :: nat

definition simple_error :: "status_code \<Rightarrow> string \<Rightarrow> ustr \<Rightarrow> api_error" where
  "simple_error status code message =
     \<lparr>ae_status = status, ae_code = lit code, ae_message = message, ae_details = None,
      ae_request_id = None\<rparr>"

definition youtube_not_configured :: api_error where
  "youtube_not_configured =
     simple_error 503 ''YOUTUBE_GAS_NOT_CONFIGURED''
       (lit ''set YOUTUBE_GAS_URL and YOUTUBE_GAS_API_KEY to enable channel management'')"

definition from_youtube :: "web \<Rightarrow> youtube_error \<Rightarrow> ustr \<Rightarrow> api_error" where
  "from_youtube web error rid =
     \<lparr>ae_status = (case error of Validation _ \<Rightarrow> 400 | _ \<Rightarrow> 502),
      ae_code = youtube_error_code error,
      ae_message = youtube_error_message (web_printers web) error,
      ae_details = youtube_error_details (web_url_parse web) error,
      ae_request_id = Some rid\<rparr>"

definition error_body :: "api_error \<Rightarrow> json" where
  "error_body e =
     json_object
       ([(lit ''ok'', JBool False),
         (lit ''error'', json_object
            ([(lit ''code'', JString (ae_code e)), (lit ''message'', JString (ae_message e))] @
             (case ae_details e of None \<Rightarrow> [] | Some d \<Rightarrow> [(lit ''details'', d)])))] @
        (case ae_request_id e of None \<Rightarrow> [] | Some r \<Rightarrow> [(lit ''requestId'', JString r)]))"

definition into_response :: "api_error \<Rightarrow> response" where
  "into_response e =
     \<lparr>rs_status = ae_status e, rs_body = error_body e,
      rs_www_authenticate =
        (if ae_status e = 401 then Some (lit ''Bearer realm=\"anticaptrad-admin\"'') else None)\<rparr>"

section \<open>Helpers of the handlers\<close>

definition YOUTUBE_ADMIN_SCOPES :: "ustr list" where
  "YOUTUBE_ADMIN_SCOPES = [lit ''youtube:admin'']"

definition auth_failure_error :: "auth_failure \<Rightarrow> api_error" where
  "auth_failure_error failure =
     (case failure of
        Unavailable \<Rightarrow> simple_error 503 ''SHARED_AUTH_UNAVAILABLE''
                         (lit ''Shared Auth verification is unavailable'')
      | _ \<Rightarrow> simple_error 401 ''UNAUTHORIZED''
               (lit ''a valid delegated Shared Auth bearer is required''))"

definition authorize :: "'n app_state \<Rightarrow> header_map \<Rightarrow> (api_error, ustr) result" where
  "authorize st headers =
     and_then (ok_or (simple_error 503 ''SHARED_AUTH_NOT_CONFIGURED''
                 (lit ''Shared Auth is not configured; protected routes are closed''))
                (app_shared_auth st)) (\<lambda>verifier.
     map_err auth_failure_error (verify verifier headers YOUTUBE_ADMIN_SCOPES))"

definition header_string :: "header_map \<Rightarrow> string \<Rightarrow> (api_error, ustr option) result" where
  "header_string headers name =
     (case headers (lit name) of
        None \<Rightarrow> Ok None
      | Some value \<Rightarrow>
          (case to_str value of
             Some s \<Rightarrow> Ok (Some s)
           | None \<Rightarrow> Err (simple_error 400 ''INVALID_HEADER'' (lit name @ lit '' must contain valid ASCII''))))"

text \<open>
  \<open>request_id\<close> reads the clock (0 for one before the epoch) and takes a number from the
  wrapping 64-bit counter.
\<close>

definition request_id :: "nat option \<Rightarrow> u64 \<Rightarrow> ustr \<times> u64" where
  "request_id millis counter =
     (lit ''yt-'' @ show_nat (case millis of None \<Rightarrow> 0 | Some m \<Rightarrow> m) @ lit ''-'' @
      show_nat (unat counter), counter + 1)"

section \<open>Handlers\<close>

definition health :: "web \<Rightarrow> json" where
  "health web =
     json_object [(lit ''status'', JString (lit ''ok'')),
       (lit ''service'', JString (lit ''act-api-server'')),
       (lit ''version'', JString (web_version web))]"

definition ready :: "'n app_state \<Rightarrow> json" where
  "ready st =
     json_object [(lit ''ready'', JBool True),
       (lit ''nats_connected'', JBool (app_nats st \<noteq> None)),
       (lit ''youtube_configured'', JBool (app_youtube st \<noteq> None)),
       (lit ''shared_auth_configured'', JBool (app_shared_auth st \<noteq> None)),
       (lit ''durable_operations_configured'', JBool (\<not> Option.is_none (app_operation_journal st)))]"

definition route_youtube_health ::
  "web \<Rightarrow> 'n app_state \<Rightarrow> clock \<Rightarrow> u64 \<Rightarrow> (api_error, json) result \<times> outside list \<times> u64" where
  "route_youtube_health web st clk counter =
     (let (rid, counter') = request_id (clk_millis clk) counter in
      case app_youtube st of
        None \<Rightarrow> (Err youtube_not_configured, [], counter')
      | Some client \<Rightarrow>
          let (answer, sent) = youtube_health (web_codec web) (web_http web) client in
          (case answer of
             Ok upstream \<Rightarrow>
               Ok (json_object [(lit ''ok'', JBool True), (lit ''requestId'', JString rid),
                     (lit ''durationMs'', jnat (clk_elapsed clk)), (lit ''data'', upstream)])
           | Err error \<Rightarrow> Err (from_youtube web error rid),
           map Upstream sent, counter'))"

definition client_status :: "youtube_client \<Rightarrow> json" where
  "client_status client =
     json_object
       [(lit ''configured'', JBool True),
        (lit ''expectedChannelHandle'', JString (yc_expected_channel_handle client)),
        (lit ''deploymentId'', json_str_option (deployment_id client)),
        (lit ''publicActionsEnabled'', JBool (yc_allow_public_actions client)),
        (lit ''appsScriptApiKeyPresent'', JBool True),
        (lit ''appsScriptApiKeyExposed'', JBool False)]"

definition route_youtube_status :: "'n app_state \<Rightarrow> header_map \<Rightarrow> (api_error, json) result" where
  "route_youtube_status st headers =
     and_then (authorize st headers) (\<lambda>_.
     and_then (ok_or youtube_not_configured (app_youtube st)) (\<lambda>client.
     Ok (json_object [(lit ''ok'', JBool True), (lit ''data'', client_status client)])))"

definition action_subject :: "youtube_action \<Rightarrow> string \<Rightarrow> ustr" where
  "action_subject act phase = lit ''act.youtube.'' @ action_as_str act @ lit phase"

definition requested_event :: "ustr \<Rightarrow> youtube_action \<Rightarrow> json \<Rightarrow> json" where
  "requested_event rid act audited =
     json_object [(lit ''requestId'', JString rid), (lit ''action'', JString (action_as_str act)),
       (lit ''mutating'', JBool (is_mutating act)), (lit ''fields'', audited)]"

definition succeeded_event :: "ustr \<Rightarrow> youtube_action \<Rightarrow> nat \<Rightarrow> json" where
  "succeeded_event rid act duration =
     json_object [(lit ''requestId'', JString rid), (lit ''action'', JString (action_as_str act)),
       (lit ''durationMs'', jnat duration)]"

definition failed_event :: "ustr \<Rightarrow> youtube_action \<Rightarrow> nat \<Rightarrow> youtube_error \<Rightarrow> json" where
  "failed_event rid act duration error =
     json_object [(lit ''requestId'', JString rid), (lit ''action'', JString (action_as_str act)),
       (lit ''durationMs'', jnat duration), (lit ''errorCode'', JString (youtube_error_code error))]"

definition publish_event :: "web \<Rightarrow> 'n app_state \<Rightarrow> ustr \<Rightarrow> json \<Rightarrow> outside list" where
  "publish_event web st subj body =
     map (\<lambda>(s, b). Published s b) (publish_json (web_to_vec web) (app_nats st) subj body)"

definition route_youtube_action ::
  "web \<Rightarrow> 'n app_state \<Rightarrow> clock \<Rightarrow> u64 \<Rightarrow> ustr \<Rightarrow> header_map \<Rightarrow> json \<Rightarrow>
   (api_error, json) result \<times> outside list \<times> u64" where
  "route_youtube_action web st clk counter action_name headers body =
     (case authorize st headers of
        Err e \<Rightarrow> (Err e, [], counter)
      | Ok _ \<Rightarrow>
     (case parse_action action_name of
        None \<Rightarrow> (Err (simple_error 404 ''UNKNOWN_YOUTUBE_ACTION''
                        (lit ''unsupported YouTube action: '' @ action_name)), [], counter)
      | Some act \<Rightarrow>
     (case header_string headers ''idempotency-key'' of
        Err e \<Rightarrow> (Err e, [], counter)
      | Ok idempotency_key \<Rightarrow>
          let (rid, counter') = (case idempotency_key of
                Some key \<Rightarrow> (key, counter) | None \<Rightarrow> request_id (clk_millis clk) counter) in
     (case app_youtube st of
        None \<Rightarrow> (Err youtube_not_configured, [], counter')
      | Some client \<Rightarrow>
          let requested = publish_event web st (action_subject act ''.requested'')
                (requested_event rid act (redact_map_for_audit body));
              (answer, sent) = youtube_execute (web_codec web) (web_http web) client act body
                                 idempotency_key;
              duration = clk_elapsed clk
          in (case answer of
                Ok data \<Rightarrow>
                  (Ok (json_object [(lit ''ok'', JBool True), (lit ''requestId'', JString rid),
                         (lit ''durationMs'', jnat duration), (lit ''data'', data)]),
                   requested @ map Upstream sent @
                     publish_event web st (action_subject act ''.succeeded'')
                       (succeeded_event rid act duration), counter')
              | Err error \<Rightarrow>
                  (Err (from_youtube web error rid),
                   requested @ map Upstream sent @
                     publish_event web st (action_subject act ''.failed'')
                       (failed_event rid act duration error), counter'))))))"

definition operation_status_json :: "operation_status \<Rightarrow> json" where
  "operation_status_json s =
     json_object [(lit ''operationId'', JString (os_operation_id s)),
       (lit ''status'', JString (os_status s)), (lit ''result'', json_option (os_result s))]"

definition valid_operation_id :: "ustr \<Rightarrow> bool" where
  "valid_operation_id op \<longleftrightarrow>
     \<not> (op = [] \<or> str_len op > 128 \<or> trim op \<noteq> op \<or> list_ex is_control op)"

definition route_operation_status ::
  "'n app_state \<Rightarrow> db_env \<Rightarrow> database \<Rightarrow> ustr \<Rightarrow> header_map \<Rightarrow> (api_error, json) result" where
  "route_operation_status st env db op headers =
     and_then (authorize st headers) (\<lambda>actor.
     if \<not> valid_operation_id op
     then Err (simple_error 400 ''INVALID_OPERATION_ID'' (lit ''operation id is invalid''))
     else
       and_then (ok_or (simple_error 503 ''DURABLE_OPERATIONS_NOT_CONFIGURED''
                   (lit ''durable operation status is unavailable''))
                  (app_operation_journal st)) (\<lambda>journal.
       and_then (map_err (\<lambda>_. simple_error 503 ''DURABLE_OPERATION_STATUS_UNAVAILABLE''
                   (lit ''durable operation status is unavailable''))
                  (api_status journal env op actor db)) (\<lambda>found.
       and_then (ok_or (simple_error 404 ''OPERATION_NOT_FOUND'' (lit ''operation not found'')) found)
         (\<lambda>status.
       Ok (json_object [(lit ''ok'', JBool True), (lit ''data'', operation_status_json status)])))))"

section \<open>The router\<close>

datatype endpoint =
    GetHealth
  | GetReady
  | GetYoutubeHealth
  | GetYoutubeStatus header_map
  | GetOperation ustr header_map
  | PostYoutubeAction ustr header_map json

definition json_response :: "json \<Rightarrow> response" where
  "json_response v = \<lparr>rs_status = 200, rs_body = v, rs_www_authenticate = None\<rparr>"

definition respond :: "(api_error, json) result \<Rightarrow> response" where
  "respond r = (case r of Ok v \<Rightarrow> json_response v | Err e \<Rightarrow> into_response e)"

text \<open>
  \<open>router\<close>: a matched request is answered by its handler, over the tables of the journal
  and the request counter.
\<close>

definition router ::
  "web \<Rightarrow> 'n app_state \<Rightarrow> db_env \<Rightarrow> database \<Rightarrow> clock \<Rightarrow> u64 \<Rightarrow> endpoint \<Rightarrow>
   response \<times> outside list \<times> u64" where
  "router web st env db clk counter ep =
     (case ep of
        GetHealth \<Rightarrow> (json_response (health web), [], counter)
      | GetReady \<Rightarrow> (json_response (ready st), [], counter)
      | GetYoutubeHealth \<Rightarrow>
          let (r, calls, counter') = route_youtube_health web st clk counter
          in (respond r, calls, counter')
      | GetYoutubeStatus headers \<Rightarrow> (respond (route_youtube_status st headers), [], counter)
      | GetOperation op headers \<Rightarrow>
          (respond (route_operation_status st env db op headers), [], counter)
      | PostYoutubeAction name headers body \<Rightarrow>
          let (r, calls, counter') = route_youtube_action web st clk counter name headers body
          in (respond r, calls, counter'))"

section \<open>Lemmas\<close>

lemma simple_error_status [simp]: "ae_status (simple_error status code message) = status"
  by (simp add: simple_error_def)

lemma authorize_Ok_iff:
  "authorize st headers = Ok s \<longleftrightarrow>
     (\<exists>v. app_shared_auth st = Some v \<and> verify v headers YOUTUBE_ADMIN_SCOPES = Ok s)"
  by (auto simp: authorize_def result_simps)

lemma auth_failure_status [simp]:
  "ae_status (auth_failure_error f) = (if f = Unavailable then 503 else 401)"
  by (cases f) (simp_all add: auth_failure_error_def)

lemma authorize_error:
  "authorize st headers = Err e \<Longrightarrow> ae_status e = 401 \<or> ae_status e = 503"
  by (auto simp: authorize_def result_simps)

lemma operation_status_error:
  "route_operation_status st env db op h = Err e \<Longrightarrow> ae_status e \<in> {400, 401, 404, 503}"
  by (auto simp: route_operation_status_def result_simps dest: authorize_error split: if_splits)

lemma into_response_sel [simp]:
  "rs_status (into_response e) = ae_status e"
  "rs_www_authenticate (into_response e) =
     (if ae_status e = 401 then Some (lit ''Bearer realm=\"anticaptrad-admin\"'') else None)"
  by (simp_all add: into_response_def)

lemma youtube_execute_requests:
  "youtube_execute jc send c act body key = (r, sent) \<Longrightarrow>
   sent = [] \<or> (\<exists>m. sent = [PostJson (yc_web_app_url c) m])"
  by (auto simp: youtube_execute_def Let_def split: sum.splits)

lemma publish_event_connected:
  "app_nats st = Some n \<Longrightarrow> web_to_vec web body = Some b \<Longrightarrow>
   publish_event web st subj body = [Published subj b]"
  by (simp add: publish_event_def publish_json_def)

lemma sent_notin_publish: "Upstream r \<notin> set (publish_event web st subj body)"
  by (auto simp: publish_event_def)

lemma from_youtube_status: "ae_status (from_youtube web e rid) \<noteq> 200"
  by (auto simp: from_youtube_def split: youtube_error.splits)

fun protected_headers :: "endpoint \<Rightarrow> header_map option" where
  "protected_headers (GetYoutubeStatus h) = Some h"
| "protected_headers (GetOperation _ h) = Some h"
| "protected_headers (PostYoutubeAction _ h _) = Some h"
| "protected_headers _ = None"

lemma unauthorized_router:
  "protected_headers ep = Some h \<Longrightarrow> authorize st h = Err e \<Longrightarrow>
   router web st env db clk n ep = (into_response e, [], n)"
  by (cases ep)
    (auto simp: router_def respond_def route_youtube_status_def route_operation_status_def
      route_youtube_action_def)

text \<open>The numbers of request ids can be read back from the ids.\<close>

lemma show_nat_no_dash: "45 \<notin> set (show_nat n)"
  using show_nat_digits [of n] by (auto simp: list_all_iff is_digit_char_def)

lemma request_id_number:
  assumes "fst (request_id m c) = fst (request_id m' c')"
  shows "c = c'"
proof -
  have r: "rsplit_once (fst (request_id m c)) 45 =
      Some (lit ''yt-'' @ show_nat (case m of None \<Rightarrow> 0 | Some k \<Rightarrow> k), show_nat (unat c))" for m c
    by (simp add: rsplit_once_Some_iff request_id_def show_nat_no_dash) (simp add: lit_def)
  from r [of m c] r [of m' c'] assms have "show_nat (unat c) = show_nat (unat c')" by simp
  then show ?thesis by (simp add: show_nat_inj unsigned_word_eqI)
qed

fun issue_ids :: "u64 \<Rightarrow> nat option list \<Rightarrow> ustr list" where
  "issue_ids _ [] = []"
| "issue_ids counter (m # ms) =
     (let (rid, counter') = request_id m counter in rid # issue_ids counter' ms)"

lemma issue_ids_numbers:
  "rid \<in> set (issue_ids c ms) \<Longrightarrow>
   \<exists>i < length ms. \<exists>m. rid = fst (request_id m (c + word_of_nat i))"
proof (induction ms arbitrary: c)
  case (Cons m ms)
  have "rid = fst (request_id m c) \<or> rid \<in> set (issue_ids (c + 1) ms)"
    using Cons.prems by (auto simp: request_id_def)
  then show ?case
  proof
    assume "rid \<in> set (issue_ids (c + 1) ms)"
    from Cons.IH [OF this] obtain i m' where i: "i < length ms"
      and r: "rid = fst (request_id m' (c + 1 + word_of_nat i))" by blast
    have "c + 1 + word_of_nat i = c + word_of_nat (Suc i)" by simp
    with i r show ?thesis by (metis Suc_less_eq length_Cons)
  qed (auto intro!: exI [of _ 0])
qed simp

lemma operation_status_stranger:
  assumes "journal_wf db" and "owner (entry db op) \<noteq> Some s"
  shows "journal_status sd env op s db = journal_status sd env op s empty_database"
proof -
  have "read_status_sql op s db = None"
    using assms(2) by (cases "entry db op") (auto simp: read_status_refines [OF assms(1)])
  moreover have "read_status_sql op s empty_database = None"
    by (simp add: read_status_sql_def empty_database_def)
  ultimately show ?thesis by (simp add: journal_status_def)
qed

lemma status_found_owner:
  assumes "journal_wf db" and "journal_status sd env op s db = Ok (Some x)"
  shows "owner (entry db op) = Some s"
proof (rule ccontr)
  assume "owner (entry db op) \<noteq> Some s"
  from operation_status_stranger [OF assms(1) this] assms(2) show False
    by (auto simp: journal_status_def read_status_sql_def empty_database_def run_statement_def
        result_simps split: if_splits)
qed

lemma publish_event_bus:
  "app_nats st \<noteq> None \<Longrightarrow> \<forall>j. web_to_vec web j \<noteq> None \<Longrightarrow>
   publish_event web st subj j = [Published subj (the (web_to_vec web j))]"
  using publish_event_connected by fastforce

text \<open>The last event of an action, and the call as a whole once it reaches the client.\<close>

definition outcome_event :: "clock \<Rightarrow> ustr \<Rightarrow> youtube_action \<Rightarrow> (youtube_error, json) result \<Rightarrow> json" where
  "outcome_event clk rid act answer =
     (case answer of
        Ok _ \<Rightarrow> succeeded_event rid act (clk_elapsed clk)
      | Err e \<Rightarrow> failed_event rid act (clk_elapsed clk) e)"

definition outcome_events ::
  "web \<Rightarrow> 'n app_state \<Rightarrow> clock \<Rightarrow> ustr \<Rightarrow> youtube_action \<Rightarrow> (youtube_error, json) result \<Rightarrow> outside list" where
  "outcome_events web st clk rid act answer =
     publish_event web st
       (action_subject act (case answer of Ok _ \<Rightarrow> ''.succeeded'' | Err _ \<Rightarrow> ''.failed''))
       (outcome_event clk rid act answer)"

definition action_answer :: "ustr \<Rightarrow> clock \<Rightarrow> json \<Rightarrow> json" where
  "action_answer rid clk data =
     json_object [(lit ''ok'', JBool True), (lit ''requestId'', JString rid),
       (lit ''durationMs'', jnat (clk_elapsed clk)), (lit ''data'', data)]"

lemma route_youtube_action_calls:
  assumes "router web st env db clk n (PostYoutubeAction name h body) = (resp, calls, n')"
    and "Upstream request \<in> set calls"
  obtains s act key c answer sent rid where "authorize st h = Ok s"
    "parse_action name = Some act" "app_youtube st = Some c"
    "youtube_execute (web_codec web) (web_http web) c act body key = (answer, sent)"
    "calls = publish_event web st (action_subject act ''.requested'')
        (requested_event rid act (redact_map_for_audit body)) @ map Upstream sent @
        outcome_events web st clk rid act answer"
    "resp = respond (map_err (\<lambda>e. from_youtube web e rid) (and_then answer (\<lambda>data. Ok (action_answer rid clk data))))"
proof -
  obtain s where s: "authorize st h = Ok s"
    using assms by (cases "authorize st h") (auto simp: router_def route_youtube_action_def)
  obtain act where act: "parse_action name = Some act"
    using assms s by (cases "parse_action name") (auto simp: router_def route_youtube_action_def)
  obtain key where key: "header_string h ''idempotency-key'' = Ok key"
    using assms s act
    by (cases "header_string h ''idempotency-key''") (auto simp: router_def route_youtube_action_def)
  obtain c where c: "app_youtube st = Some c"
    using assms s act key
    by (cases "app_youtube st") (auto simp: router_def route_youtube_action_def split: prod.splits)
  obtain rid n2 where rid: "(case key of Some k \<Rightarrow> (k, n) | None \<Rightarrow> request_id (clk_millis clk) n) = (rid, n2)"
    by (cases "case key of Some k \<Rightarrow> (k, n) | None \<Rightarrow> request_id (clk_millis clk) n")
  obtain answer sent where ex: "youtube_execute (web_codec web) (web_http web) c act body key = (answer, sent)"
    by (cases "youtube_execute (web_codec web) (web_http web) c act body key")
  note run = assms(1) [unfolded router_def endpoint.case route_youtube_action_def s act key c rid ex
      sum.case option.case Let_def prod.case]
  have calls: "calls = publish_event web st (action_subject act ''.requested'')
        (requested_event rid act (redact_map_for_audit body)) @ map Upstream sent @
        outcome_events web st clk rid act answer"
    using run by (cases answer) (simp_all add: outcome_events_def outcome_event_def)
  have resp: "resp = respond (map_err (\<lambda>e. from_youtube web e rid)
      (and_then answer (\<lambda>data. Ok (action_answer rid clk data))))"
    using run by (cases answer) (simp_all add: action_answer_def)
  show ?thesis by (rule that [OF s act c ex calls resp])
qed

subsection \<open>The API key\<close>

text \<open>
  The same client and state under another API key, and what a request to the outside looks
  like to one who does not see the key.
\<close>

definition with_api_key :: "ustr \<Rightarrow> youtube_client \<Rightarrow> youtube_client" where
  "with_api_key k c = c\<lparr>yc_api_key := k\<rparr>"

definition state_with_api_key :: "ustr \<Rightarrow> 'n app_state \<Rightarrow> 'n app_state" where
  "state_with_api_key k st = st\<lparr>app_youtube := map_option (with_api_key k) (app_youtube st)\<rparr>"

fun hide_request :: "http_request \<Rightarrow> http_request" where
  "hide_request (Get u) = Get u"
| "hide_request (PostJson u m) = PostJson u (obj_remove (lit ''apiKey'') m)"

fun hide_outside :: "outside \<Rightarrow> outside" where
  "hide_outside (Upstream r) = Upstream (hide_request r)"
| "hide_outside (Published s b) = Published s b"

definition key_blind :: "http \<Rightarrow> bool" where
  "key_blind send \<longleftrightarrow> (\<forall>r r'. hide_request r = hide_request r' \<longrightarrow> send r = send r')"

lemma with_api_key_sel [simp]:
  "yc_web_app_url (with_api_key k c) = yc_web_app_url c"
  "yc_expected_channel_handle (with_api_key k c) = yc_expected_channel_handle c"
  "yc_max_response_bytes (with_api_key k c) = yc_max_response_bytes c"
  "yc_allow_public_actions (with_api_key k c) = yc_allow_public_actions c"
  "yc_api_key (with_api_key k c) = k"
  by (simp_all add: with_api_key_def)

lemma state_with_api_key_sel [simp]:
  "app_nats (state_with_api_key k st) = app_nats st"
  "app_youtube (state_with_api_key k st) = map_option (with_api_key k) (app_youtube st)"
  "app_shared_auth (state_with_api_key k st) = app_shared_auth st"
  "app_operation_journal (state_with_api_key k st) = app_operation_journal st"
  by (simp_all add: state_with_api_key_def)

lemma obj_remove_insert_same: "obj_remove k (obj_insert k v m) = obj_remove k m"
  by (induction k v m rule: obj_insert.induct) (auto simp: obj_remove_def)

lemma parse_response_key [simp]: "parse_response jc (with_api_key k c) = parse_response jc c"
  by (rule ext) (simp only: parse_response_def with_api_key_sel)

lemma youtube_health_key [simp]: "youtube_health jc send (with_api_key k c) = youtube_health jc send c"
  by (simp add: youtube_health_def)

lemma deployment_id_key [simp]: "deployment_id (with_api_key k c) = deployment_id c"
  by (simp add: deployment_id_def)

lemma client_status_key [simp]: "client_status (with_api_key k c) = client_status c"
  by (simp add: client_status_def)

lemma authorize_key [simp]: "authorize (state_with_api_key k st) h = authorize st h"
  by (simp add: authorize_def)

lemma publish_event_key [simp]:
  "publish_event web (state_with_api_key k st) subj body = publish_event web st subj body"
  by (simp add: publish_event_def)

lemma route_operation_status_key [simp]:
  "route_operation_status (state_with_api_key k st) env db op h = route_operation_status st env db op h"
  by (simp only: route_operation_status_def authorize_key state_with_api_key_sel)

lemma youtube_execute_key:
  assumes "key_blind send"
  shows "fst (youtube_execute jc send (with_api_key k c) act body key) =
      fst (youtube_execute jc send c act body key) \<and>
    map hide_request (snd (youtube_execute jc send (with_api_key k c) act body key)) =
      map hide_request (snd (youtube_execute jc send c act body key))"
proof (cases "prepare_payload act body key (yc_allow_public_actions c)")
  case (Inr obj)
  let ?req = "\<lambda>a. PostJson (yc_web_app_url c) (obj_insert (lit ''apiKey'') (JString a)
      (obj_insert (lit ''action'') (JString (action_as_str act)) obj))"
  have "hide_request (?req a) = hide_request (?req b)" for a b by (simp add: obj_remove_insert_same)
  then have h: "hide_request (?req k) = hide_request (?req (yc_api_key c))" .
  then have "send (?req k) = send (?req (yc_api_key c))"
    using assms unfolding key_blind_def by blast
  with h Inr show ?thesis by (simp add: youtube_execute_def Let_def del: hide_request.simps)
qed (simp add: youtube_execute_def)

lemma hide_outside_upstream: "map hide_outside (map Upstream rs) = map Upstream (map hide_request rs)"
  by (induction rs) simp_all

lemma route_youtube_action_key:
  assumes "key_blind (web_http web)"
    and "route_youtube_action web st clk n name h body = (r, calls, n')"
  shows "\<exists>calls'. route_youtube_action web (state_with_api_key k st) clk n name h body = (r, calls', n') \<and>
    map hide_outside calls' = map hide_outside calls"
proof (cases "app_youtube st")
  case None
  with assms(2) show ?thesis
    by (auto simp: route_youtube_action_def split: sum.splits option.splits prod.splits)
next
  case (Some c)
  show ?thesis
  proof (cases "authorize st h"; cases "parse_action name"; cases "header_string h ''idempotency-key''")
    fix s act key
    assume run: "authorize st h = Ok s" "parse_action name = Some act"
      "header_string h ''idempotency-key'' = Ok key"
    obtain answer sent where ex: "youtube_execute (web_codec web) (web_http web) c act body key = (answer, sent)"
      by (cases "youtube_execute (web_codec web) (web_http web) c act body key")
    then obtain sent' where ex':
      "youtube_execute (web_codec web) (web_http web) (with_api_key k c) act body key = (answer, sent')"
      "map hide_request sent' = map hide_request sent"
      using youtube_execute_key [OF assms(1), of "web_codec web" k c act body key]
      by (metis fst_conv snd_conv surj_pair)
    have up: "map hide_outside (map Upstream sent') = map hide_outside (map Upstream sent)"
      unfolding hide_outside_upstream ex'(2) ..
    show ?thesis
      using assms(2) run Some ex ex'(1) up
      by (cases answer) (auto simp: route_youtube_action_def Let_def simp del: map_map split: prod.splits)
  qed (use assms(2) in \<open>simp_all add: route_youtube_action_def\<close>)
qed

lemma router_key:
  assumes "key_blind (web_http web)" and "router web st env db clk n ep = (resp, calls, n')"
  shows "\<exists>calls'. router web (state_with_api_key k st) env db clk n ep = (resp, calls', n') \<and>
    map hide_outside calls' = map hide_outside calls"
proof (cases ep)
  case (PostYoutubeAction name h body)
  obtain r calls1 n1 where r: "route_youtube_action web st clk n name h body = (r, calls1, n1)"
    by (cases "route_youtube_action web st clk n name h body")
  then have "resp = respond r" "calls = calls1" "n' = n1"
    using assms(2) PostYoutubeAction by (simp_all add: router_def)
  then show ?thesis
    using route_youtube_action_key [OF assms(1) r, of k] PostYoutubeAction by (auto simp: router_def)
next
  case GetReady
  with assms(2) show ?thesis by (auto simp: router_def ready_def)
next
  case GetYoutubeHealth
  with assms(2) show ?thesis
    by (cases "app_youtube st") (auto simp: router_def route_youtube_health_def Let_def split: prod.splits)
next
  case (GetYoutubeStatus h)
  with assms(2) show ?thesis
    by (cases "app_youtube st") (auto simp: router_def route_youtube_status_def)
next
  case (GetOperation op h)
  with assms(2) show ?thesis by (auto simp: router_def)
qed (use assms(2) in \<open>simp add: router_def\<close>)

text \<open>The action route, when it reaches the web app.\<close>

lemma action_calls_audited:
  assumes "router web st env db clk n (PostYoutubeAction name h body) = (resp, calls, n')"
    and "Upstream request \<in> set calls"
  shows "\<exists>v s act c m. app_shared_auth st = Some v \<and> verify v h YOUTUBE_ADMIN_SCOPES = Ok s \<and>
    parse_action name = Some act \<and> app_youtube st = Some c \<and>
    request = PostJson (yc_web_app_url c) m \<and>
    (app_nats st \<noteq> None \<and> (\<forall>j. web_to_vec web j \<noteq> None) \<longrightarrow>
      (\<exists>rid outcome.
         calls = [Published (action_subject act ''.requested'')
                    (the (web_to_vec web (requested_event rid act (redact_map_for_audit body)))),
                  Upstream request,
                  Published (action_subject act (if rs_status resp = 200 then ''.succeeded'' else ''.failed''))
                    (the (web_to_vec web outcome))] \<and>
         (rs_status resp = 200 \<longrightarrow> outcome = succeeded_event rid act (clk_elapsed clk)) \<and>
         (rs_status resp \<noteq> 200 \<longrightarrow> (\<exists>e. outcome = failed_event rid act (clk_elapsed clk) e))))"
proof -
  from assms obtain s act key c answer sent rid where run: "authorize st h = Ok s"
    "parse_action name = Some act" "app_youtube st = Some c"
    "youtube_execute (web_codec web) (web_http web) c act body key = (answer, sent)"
    "calls = publish_event web st (action_subject act ''.requested'')
        (requested_event rid act (redact_map_for_audit body)) @ map Upstream sent @
        outcome_events web st clk rid act answer"
    "resp = respond (map_err (\<lambda>e. from_youtube web e rid) (and_then answer (\<lambda>data. Ok (action_answer rid clk data))))"
    by (rule route_youtube_action_calls)
  have "request \<in> set sent"
    using assms(2) run(5) by (auto simp: sent_notin_publish outcome_events_def split: sum.splits)
  with youtube_execute_requests [OF run(4)] obtain m
    where m: "sent = [request]" "request = PostJson (yc_web_app_url c) m" by auto
  have "calls = [Published (action_subject act ''.requested'')
            (the (web_to_vec web (requested_event rid act (redact_map_for_audit body)))),
          Upstream request,
          Published (action_subject act (if rs_status resp = 200 then ''.succeeded'' else ''.failed''))
            (the (web_to_vec web (outcome_event clk rid act answer)))]"
    if bus: "app_nats st \<noteq> None" "\<forall>j. web_to_vec web j \<noteq> None"
    using run(5,6) m(1) publish_event_bus [OF bus] from_youtube_status
    by (cases answer) (simp_all add: outcome_events_def outcome_event_def respond_def json_response_def)
  moreover have "(rs_status resp = 200 \<longrightarrow> outcome_event clk rid act answer = succeeded_event rid act (clk_elapsed clk)) \<and>
      (rs_status resp \<noteq> 200 \<longrightarrow> (\<exists>e. outcome_event clk rid act answer = failed_event rid act (clk_elapsed clk) e))"
    using run(6) from_youtube_status
    by (cases answer) (auto simp: outcome_event_def respond_def json_response_def)
  moreover obtain v where "app_shared_auth st = Some v" "verify v h YOUTUBE_ADMIN_SCOPES = Ok s"
    using run(1) by (auto simp: authorize_Ok_iff)
  ultimately show ?thesis using run(2,3) m(2) by blast
qed

section \<open>Properties\<close>

text \<open>
  C11: The protected routes fail closed: without Shared Auth, or without a caller it
  verifies for the administration scope, every one of them, whatever its parameters, answers
  the same refusal, 401 with a challenge or 503 without, touches nothing outside and takes no
  request number.
\<close>

theorem protected_routes_fail_closed:
  assumes "protected_headers ep = Some h"
    and "\<forall>v s. app_shared_auth st = Some v \<longrightarrow> verify v h YOUTUBE_ADMIN_SCOPES \<noteq> Ok s"
  shows "\<exists>e. authorize st h = Err e \<and> router web st env db clk n ep = (into_response e, [], n) \<and>
    (ae_status e = 401 \<or> ae_status e = 503) \<and>
    (rs_www_authenticate (into_response e) \<noteq> None \<longleftrightarrow> ae_status e = 401)"
proof -
  have "\<nexists>s. authorize st h = Ok s" using assms(2) by (simp add: authorize_Ok_iff)
  then obtain e where e: "authorize st h = Err e" by (cases "authorize st h") auto
  with unauthorized_router [OF assms(1) e] authorize_error [OF e] show ?thesis by auto
qed

text \<open>
  C12: A request reaches the web app from two routes only. The health route asks for no
  caller and sends one request, the configured URL with the health query, and publishes
  nothing. The action route sends one only for a verified caller, a supported action and a
  configured client; and with the event bus connected it is bracketed by two events under one
  request id: the request before it, and after it the success exactly when the caller is
  answered 200, else the failure.
\<close>

theorem upstream_calls_are_audited:
  assumes "router web st env db clk n ep = (resp, calls, n')" and "Upstream request \<in> set calls"
  shows "(ep = GetYoutubeHealth \<and> calls = [Upstream request] \<and>
      (\<exists>c. app_youtube st = Some c \<and>
         request = Get (append_query (yc_web_app_url c) (lit ''action=health'')))) \<or>
    (\<exists>name h body v s act c m. ep = PostYoutubeAction name h body \<and>
      app_shared_auth st = Some v \<and> verify v h YOUTUBE_ADMIN_SCOPES = Ok s \<and>
      parse_action name = Some act \<and> app_youtube st = Some c \<and>
      request = PostJson (yc_web_app_url c) m \<and>
      (app_nats st \<noteq> None \<and> (\<forall>j. web_to_vec web j \<noteq> None) \<longrightarrow>
        (\<exists>rid outcome.
           calls = [Published (action_subject act ''.requested'')
                      (the (web_to_vec web (requested_event rid act (redact_map_for_audit body)))),
                    Upstream request,
                    Published (action_subject act (if rs_status resp = 200 then ''.succeeded'' else ''.failed''))
                      (the (web_to_vec web outcome))] \<and>
           (rs_status resp = 200 \<longrightarrow> outcome = succeeded_event rid act (clk_elapsed clk)) \<and>
           (rs_status resp \<noteq> 200 \<longrightarrow> (\<exists>e. outcome = failed_event rid act (clk_elapsed clk) e)))))"
proof (cases ep)
  case GetYoutubeHealth
  with assms show ?thesis
    by (auto simp: router_def route_youtube_health_def youtube_health_def Let_def
        split: prod.splits option.splits)
next
  case (PostYoutubeAction name h body)
  from action_calls_audited [OF assms(1) [unfolded PostYoutubeAction] assms(2)]
  show ?thesis unfolding PostYoutubeAction by blast
qed (use assms in \<open>simp_all add: router_def\<close>)

text \<open>
  C13: The status route shows an operation to its verified owner only: the answer 200 means
  the caller is the subject that owns the operation, and any other caller is answered exactly
  as if the journal were empty.
\<close>

theorem operation_status_isolated:
  assumes "journal_wf db" and "app_operation_journal st = Some (sea_orm_journal eng digest sd)"
  shows "(rs_status (fst (router web st env db clk n (GetOperation op h))) = 200 \<longrightarrow>
      (\<exists>s. authorize st h = Ok s \<and> owner (entry db op) = Some s)) \<and>
    ((\<forall>s. authorize st h = Ok s \<longrightarrow> owner (entry db op) \<noteq> Some s) \<longrightarrow>
      router web st env db clk n (GetOperation op h) =
      router web st env empty_database clk n (GetOperation op h))"
proof (cases "authorize st h")
  case (Inl e)
  with authorize_error [OF Inl] show ?thesis
    using unauthorized_router [of "GetOperation op h" h st e] by auto
next
  case (Inr s)
  let ?r = "route_operation_status st env db op h"
  have found: "owner (entry db op) = Some s" if "is_ok ?r"
    using that Inr assms status_found_owner [OF assms(1)]
    by (auto simp: route_operation_status_def is_ok_iff result_simps split: if_splits)
  have ok: "is_ok ?r" if "rs_status (respond ?r) = 200"
  proof (cases ?r)
    case (Inl e)
    with operation_status_error [OF Inl] that show ?thesis by (auto simp: respond_def)
  qed simp
  have stranger: "route_operation_status st env db op h = route_operation_status st env empty_database op h"
    if "owner (entry db op) \<noteq> Some s"
    using operation_status_stranger [OF assms(1) that, of sd env] Inr assms(2)
    by (simp add: route_operation_status_def)
  have r: "router web st env d clk n (GetOperation op h) =
      (respond (route_operation_status st env d op h), [], n)" for d
    by (simp add: router_def)
  show ?thesis
    unfolding r fst_conv
  proof (intro conjI impI)
    assume "rs_status (respond ?r) = 200"
    then have "owner (entry db op) = Some s" by (intro found ok)
    with Inr show "\<exists>s. authorize st h = Ok s \<and> owner (entry db op) = Some s" by blast
  next
    assume "\<forall>s. authorize st h = Ok s \<longrightarrow> owner (entry db op) \<noteq> Some s"
    with Inr have "owner (entry db op) \<noteq> Some s" by blast
    from stranger [OF this] show "(respond ?r, [], n) =
        (respond (route_operation_status st env empty_database op h), [], n)" by simp
  qed
qed

text \<open>
  C39: Request ids are unique: whatever the clock answers, even standing still or going
  back, the ids of up to \<open>2 ^ 64\<close> consecutive requests are distinct.
\<close>

theorem request_ids_unique:
  assumes "length millis \<le> 2 ^ 64"
  shows "distinct (issue_ids counter millis)"
  using assms
proof (induction millis arbitrary: counter)
  case (Cons m ms)
  have "fst (request_id m counter) \<notin> set (issue_ids (counter + 1) ms)"
  proof
    assume "fst (request_id m counter) \<in> set (issue_ids (counter + 1) ms)"
    from issue_ids_numbers [OF this] obtain i m' where i: "i < length ms"
      and "fst (request_id m counter) = fst (request_id m' (counter + 1 + word_of_nat i))" by blast
    then have "counter = counter + word_of_nat (Suc i)"
      using request_id_number by (metis add.assoc of_nat_Suc)
    then have "(word_of_nat (Suc i) :: u64) = 0" by simp
    then have "2 ^ 64 dvd Suc i" unfolding word_of_nat_eq_0_iff by simp
    with i Cons.prems show False by (auto dest: dvd_imp_le)
  qed
  moreover have "distinct (issue_ids (counter + 1) ms)" using Cons by simp
  ultimately show ?case by (simp add: request_id_def)
qed simp

section \<open>A request\<close>

definition sample_verifier :: shared_auth_verifier where
  "sample_verifier =
     \<lparr>introspect = \<lambda>_ _ _. Ok \<lparr>claims_active = True, claims_aud = Some (lit ''act-api''),
        claims_sub = Some (lit ''shared-user-1'')\<rparr>,
      verifier_audience = lit ''act-api''\<rparr>"

definition sample_state :: "unit app_state" where
  "sample_state =
     \<lparr>app_nats = Some (), app_youtube = Some sample_client, app_shared_auth = Some sample_verifier,
      app_operation_journal = Some (sea_orm_journal ConflictFirst sample_digest
        \<lparr>envelope_to_vec = \<lambda>_. None, operation_from_slice = \<lambda>_. None, operation_from_str = \<lambda>_. None,
         reply_to_vec = \<lambda>_. None, value_from_str = \<lambda>_. None\<rparr>)\<rparr>"

definition sample_web :: web where
  "sample_web =
     \<lparr>web_codec = \<lparr>gas_from_slice = \<lambda>_. Err [], from_utf8_lossy = \<lambda>_. []\<rparr>,
      web_http = \<lambda>_. Err (lit ''down''), web_url_parse = \<lambda>_. None,
      web_printers = \<lparr>debug_str = id, debug_str_option = \<lambda>_. [], show_status = show_nat, show_url = \<lambda>_. []\<rparr>,
      web_to_vec = \<lambda>_. Some [], web_version = lit ''0.2.0''\<rparr>"

definition sample_headers :: header_map where
  "sample_headers = [AUTHORIZATION \<mapsto> Readable (lit ''Bearer opaque'')]"

definition sample_clock :: clock where
  "sample_clock = \<lparr>clk_millis = Some 5, clk_elapsed = 1\<rparr>"

lemma sample_verified: "verify sample_verifier sample_headers scopes = Ok (lit ''shared-user-1'')"
proof -
  have "lit ''Bearer opaque'' = lit ''Bearer'' @ 32 # lit ''opaque''" by (simp add: lit_def)
  moreover have "\<not> list_ex is_whitespace (lit ''opaque'')"
    by (simp add: is_whitespace_def lit_def)
  ultimately have "bearer_token sample_headers = Ok (lit ''opaque'')"
    unfolding bearer_token_Ok_iff sample_headers_def using scheme_bearer
    by (intro exI [of _ "lit ''Bearer''"]) simp
  moreover have "trim (lit ''shared-user-1'') = lit ''shared-user-1''"
    by (simp add: trim_id_iff is_whitespace_def lit_def)
  ultimately show ?thesis by (simp add: verify_Ok_iff_claims sample_verifier_def)
qed

lemma sample_authorized: "authorize sample_state sample_headers = Ok (lit ''shared-user-1'')"
  by (simp add: authorize_Ok_iff sample_state_def sample_verified)

theorem protected_routes_fail_closed_witness:
  "\<exists>e. router sample_web (sample_state\<lparr>app_shared_auth := None\<rparr>) (calm 5) empty_database sample_clock 1
        (GetYoutubeStatus sample_headers) = (into_response e, [], 1) \<and> (ae_status e = 401 \<or> ae_status e = 503)"
  using protected_routes_fail_closed [of "GetYoutubeStatus sample_headers" sample_headers
      "sample_state\<lparr>app_shared_auth := None\<rparr>" sample_web "calm 5" empty_database sample_clock 1]
  by auto

theorem upstream_calls_are_audited_witness:
  "\<exists>resp calls n request. router sample_web sample_state (calm 5) empty_database sample_clock 1
      (PostYoutubeAction (lit ''channel'') sample_headers JNull) = (resp, calls, n) \<and>
    (\<exists>a b. calls = [a, Upstream request, b])"
proof -
  obtain resp calls n where r: "router sample_web sample_state (calm 5) empty_database sample_clock 1
      (PostYoutubeAction (lit ''channel'') sample_headers JNull) = (resp, calls, n)"
    by (cases "router sample_web sample_state (calm 5) empty_database sample_clock 1
      (PostYoutubeAction (lit ''channel'') sample_headers JNull)")
  have p: "parse_action (lit ''channel'') = Some Channel" by (simp add: parse_action_def)
  have h: "header_string sample_headers ''idempotency-key'' = Ok None"
    by (simp add: header_string_def sample_headers_def AUTHORIZATION_def)
  have c: "app_youtube sample_state = Some sample_client" by (simp add: sample_state_def)
  have "\<exists>request. Upstream request \<in> set calls"
    using r
    by (auto simp: ex_disj_distrib router_def route_youtube_action_def sample_authorized p h c youtube_execute_def
        prepare_payload_def is_mutating_def Let_def sample_web_def split: prod.splits)
  then obtain request where "Upstream request \<in> set calls" by blast
  from upstream_calls_are_audited [OF r this] show ?thesis
    unfolding r by (auto simp: sample_state_def sample_web_def)
qed

theorem operation_status_isolated_witness:
  "\<exists>resp. router sample_web sample_state (calm 6) sample_claimed sample_clock 1
      (GetOperation sample_op (\<lambda>_. None)) = resp \<and>
    resp = router sample_web sample_state (calm 6) empty_database sample_clock 1
      (GetOperation sample_op (\<lambda>_. None))"
proof -
  have "authorize sample_state (\<lambda>_. None) \<noteq> Ok s" for s
    by (simp add: authorize_Ok_iff verify_Ok_iff_claims bearer_token_Ok_iff)
  then show ?thesis
    using operation_status_isolated [OF sample_wf, of sample_state] by (simp add: sample_state_def)
qed

theorem request_ids_unique_witness: "distinct (issue_ids (- 1) [None, Some 7, Some 3])"
  by (rule request_ids_unique) simp

end
