(* ===== verification/Server.thy ===== *)
theory Server
  imports JetStream Routes Config
begin

text \<open>
  \<open>src/server.rs\<close>: the operation service behind the mTLS listener and the durable
  worker, the TLS acceptor, and the wiring of the process from its configuration. The
  connections it opens (NATS, the database, sockets), the PEM reader and rustls are
  parameters; what it spawns is the value it returns.
\<close>

section \<open>The operation service\<close>

record runtime_operation_service =
  ros_shared_auth :: shared_auth_verifier
  ros_youtube :: "youtube_client option"
  ros_attestation_key :: "u8 list option"

text \<open>HMAC, serde_json and \<open>HeaderValue::from_str\<close>.\<close>

record service_env =
  sv_mac :: "u8 list \<Rightarrow> u8 list \<Rightarrow> u8 list option"
  sv_serde :: serde
  sv_header_from_str :: "ustr \<Rightarrow> header_value option"

definition service_auth_error :: "auth_failure \<Rightarrow> transport_error" where
  "service_auth_error failure =
     (case failure of Unavailable \<Rightarrow> AuthUnavailable | _ \<Rightarrow> Unauthorized)"

definition authenticate_operation ::
  "service_env \<Rightarrow> runtime_operation_service \<Rightarrow> authenticated_operation \<Rightarrow> web_api_mode \<Rightarrow>
   (transport_error, unit) result" where
  "authenticate_operation ev svc request mode =
     (if mode = JetStreamAsync
      then and_then (ok_or Unauthorized (ros_attestation_key svc)) (\<lambda>key.
        verify_operation_attestation (sv_mac ev) (envelope_to_vec (sv_serde ev)) key
          (envelope request) (authorization request))
      else
        and_then (ok_or Unauthorized (sv_header_from_str ev (authorization request))) (\<lambda>header.
        and_then (map_err service_auth_error
                    (verify (ros_shared_auth svc) [AUTHORIZATION \<mapsto> header] [lit ''youtube:admin'']))
          (\<lambda>actor.
        if actor \<noteq> subject (envelope request) then Err Unauthorized else Ok ())))"

definition youtube_status_result :: "youtube_client \<Rightarrow> json" where
  "youtube_status_result client =
     json_object
       [(lit ''configured'', JBool True),
        (lit ''expectedChannelHandle'', JString (yc_expected_channel_handle client)),
        (lit ''deploymentId'', json_str_option (deployment_id client)),
        (lit ''publicActionsEnabled'', JBool (yc_allow_public_actions client)),
        (lit ''appsScriptApiKeyPresent'', JBool True),
        (lit ''appsScriptApiKeyExposed'', JBool False)]"

definition runtime_execute :: "service_env \<Rightarrow> runtime_operation_service \<Rightarrow> service" where
  "runtime_execute ev svc request mode =
     and_then (authenticate_operation ev svc request mode) (\<lambda>_.
     if resource (envelope request) \<noteq> lit ''youtube_status''
        \<or> operation (envelope request) \<noteq> Read \<or> payload (envelope request) \<noteq> JObject []
     then Err UnsupportedOperation
     else
       and_then (ok_or UnsupportedOperation (ros_youtube svc)) (\<lambda>client.
       Ok (youtube_status_result client)))"

definition authentic_operation ::
  "service_env \<Rightarrow> runtime_operation_service \<Rightarrow> authenticated_operation \<Rightarrow> web_api_mode \<Rightarrow> bool" where
  "authentic_operation ev svc request mode \<longleftrightarrow> authenticate_operation ev svc request mode = Ok ()"

lemma runtime_execute_Ok_iff:
  "runtime_execute ev svc r mode = Ok v \<longleftrightarrow>
     authentic_operation ev svc r mode \<and> resource (envelope r) = lit ''youtube_status'' \<and>
     operation (envelope r) = Read \<and> payload (envelope r) = JObject [] \<and>
     (\<exists>c. ros_youtube svc = Some c \<and> v = youtube_status_result c)"
  by (auto simp: runtime_execute_def authentic_operation_def result_simps)

interpretation runtime: operation_service "runtime_execute ev svc" "authentic_operation ev svc" for ev svc
  by unfold_locales (simp add: runtime_execute_Ok_iff)

lemma authentic_bearer_iff:
  "mode \<noteq> JetStreamAsync \<Longrightarrow> authentic_operation ev svc r mode \<longleftrightarrow>
     (\<exists>h. sv_header_from_str ev (authorization r) = Some h \<and>
        verify (ros_shared_auth svc) [AUTHORIZATION \<mapsto> h] [lit ''youtube:admin''] =
          Ok (subject (envelope r)))"
  by (auto simp: authentic_operation_def authenticate_operation_def result_simps split: if_splits)

lemma authentic_attested_iff:
  "authentic_operation ev svc r JetStreamAsync \<longleftrightarrow>
     (\<exists>key. ros_attestation_key svc = Some key \<and>
        verify_operation_attestation (sv_mac ev) (envelope_to_vec (sv_serde ev)) key
          (envelope r) (authorization r) = Ok ())"
  by (simp add: authentic_operation_def authenticate_operation_def result_simps)

text \<open>
  \<open>HeaderValue::from_str\<close> keeps the text it is given, as far as it can be read back.
\<close>

definition header_faithful :: "(ustr \<Rightarrow> header_value option) \<Rightarrow> bool" where
  "header_faithful from_str \<longleftrightarrow> (\<forall>s h t. from_str s = Some h \<and> to_str h = Some t \<longrightarrow> t = s)"

lemma authentic_bearer_claims:
  assumes f: "header_faithful (sv_header_from_str ev)" and m: "mode \<noteq> JetStreamAsync"
    and v: "validate_authorization (authorization r) = Ok ()"
    and a: "authentic_operation ev svc r mode"
  obtains token claims where "authorization r = lit ''Bearer '' @ token"
    "introspect (ros_shared_auth svc) token (verifier_audience (ros_shared_auth svc))
       [lit ''youtube:admin''] = Ok claims"
    "claims_active claims" "claims_aud claims = Some (verifier_audience (ros_shared_auth svc))"
    "claims_sub claims = Some (subject (envelope r))"
proof -
  obtain h where h: "sv_header_from_str ev (authorization r) = Some h"
    "verify (ros_shared_auth svc) [AUTHORIZATION \<mapsto> h] [lit ''youtube:admin''] = Ok (subject (envelope r))"
    using a m by (auto simp: authentic_bearer_iff)
  obtain tok claims where c: "bearer_token [AUTHORIZATION \<mapsto> h] = Ok tok"
    "introspect (ros_shared_auth svc) tok (verifier_audience (ros_shared_auth svc)) [lit ''youtube:admin''] = Ok claims"
    "claims_active claims" "claims_aud claims = Some (verifier_audience (ros_shared_auth svc))"
    "claims_sub claims = Some (subject (envelope r))"
    using h(2) unfolding verify_Ok_iff_claims by auto
  obtain t where "h = Readable t" using c(1) by (auto simp: bearer_token_Ok_iff)
  moreover from this have "to_str h = Some t" by (simp add: to_str_def)
  with f h(1) have "t = authorization r" by (simp add: header_faithful_def)
  ultimately have "h = Readable (authorization r)" by simp
  with transport_bearer [OF v] c(1) have "authorization r = lit ''Bearer '' @ tok" by auto
  with c show ?thesis by (intro that)
qed

section \<open>The TLS acceptor\<close>

type_synonym certificate = "u8 list"

text \<open>The PEM reader and rustls, as far as they can refuse.\<close>

record tls_env =
  read_certificates :: "ustr \<Rightarrow> (ustr, certificate list) result"
  read_private_key :: "ustr \<Rightarrow> (ustr, u8 list) result"
  root_add :: "certificate \<Rightarrow> (ustr, unit) result"
  build_client_verifier :: "certificate list \<Rightarrow> (ustr, unit) result"
  with_single_cert :: "certificate list \<Rightarrow> u8 list \<Rightarrow> (ustr, unit) result"

text \<open>An acceptor: what it presents, and the roots it demands of a client's certificate.\<close>

record tls_acceptor =
  ta_chain :: "certificate list"
  ta_private_key :: "u8 list"
  ta_client_roots :: "certificate list"

fun add_roots :: "tls_env \<Rightarrow> certificate list \<Rightarrow> certificate list \<Rightarrow> (ustr, certificate list) result" where
  "add_roots tls roots [] = Ok roots"
| "add_roots tls roots (c # cs) = and_then (root_add tls c) (\<lambda>_. add_roots tls (roots @ [c]) cs)"

definition mtls_acceptor :: "tls_env \<Rightarrow> mtls_config \<Rightarrow> (ustr, tls_acceptor) result" where
  "mtls_acceptor tls mc =
     and_then (read_certificates tls (certificate_file mc)) (\<lambda>certificates.
     if certificates = [] then Err (lit ''ACT_API_TLS_CERT_FILE contains no certificates'')
     else
       and_then (map_err (\<lambda>_. lit ''ACT_API_TLS_KEY_FILE contains no usable private key'')
                   (read_private_key tls (private_key_file mc))) (\<lambda>key.
       and_then (read_certificates tls (client_ca_file mc)) (\<lambda>client_certificates.
       if client_certificates = [] then Err (lit ''ACT_API_CLIENT_CA_FILE contains no certificates'')
       else
         and_then (add_roots tls [] client_certificates) (\<lambda>roots.
         and_then (build_client_verifier tls roots) (\<lambda>_.
         and_then (with_single_cert tls certificates key) (\<lambda>_.
         Ok \<lparr>ta_chain = certificates, ta_private_key = key, ta_client_roots = roots\<rparr>))))))"

lemma add_roots_Ok: "add_roots tls roots cs = Ok all \<Longrightarrow> all = roots @ cs"
  by (induction tls roots cs rule: add_roots.induct) (auto simp: result_simps)

lemma mtls_acceptor_Ok:
  "mtls_acceptor tls mc = Ok a \<Longrightarrow>
   read_certificates tls (client_ca_file mc) = Ok (ta_client_roots a) \<and> ta_client_roots a \<noteq> [] \<and>
   read_certificates tls (certificate_file mc) = Ok (ta_chain a) \<and> ta_chain a \<noteq> [] \<and>
   read_private_key tls (private_key_file mc) = Ok (ta_private_key a)"
  by (auto simp: mtls_acceptor_def result_simps dest!: add_roots_Ok split: if_splits)

section \<open>Wiring\<close>

text \<open>Octets and port.\<close>

datatype socket_addr = SocketAddr "u8 list" u16

definition bind_address :: "nat \<Rightarrow> socket_addr" where
  "bind_address p = SocketAddr [0, 0, 0, 0] (word_of_nat p)"

record ('n, 'c) serve_env =
  env_service :: service_env
  env_digest :: "u8 list \<Rightarrow> u8 list"
  env_tls :: tls_env
  async_nats_connect :: "ustr \<Rightarrow> (ustr, 'n) result"
  http_client_build :: "youtube_config \<Rightarrow> (ustr, unit) result"
  auth_client_try_new :: "ustr \<Rightarrow> (client_error, 'c) result"
  auth_client_introspect ::
    "'c \<Rightarrow> ustr \<Rightarrow> nat \<Rightarrow> ustr \<Rightarrow> ustr \<Rightarrow> ustr list \<Rightarrow> (client_error, token_claims) result"
  parse_socket_addr :: "ustr \<Rightarrow> socket_addr option"
  bind_listener :: "socket_addr \<Rightarrow> (ustr, unit) result"
  database_connect :: "ustr \<Rightarrow> (ustr, engine) result"

text \<open>\<open>connect\<close> of \<open>src/nats.rs\<close>: without a broker the process runs without one.\<close>

definition nats_connect :: "('n, 'c) serve_env \<Rightarrow> ustr \<Rightarrow> 'n option" where
  "nats_connect env url =
     (case async_nats_connect env url of Ok client \<Rightarrow> Some client | Err _ \<Rightarrow> None)"

text \<open>What the process runs; the durable worker over the journal on its database engine.\<close>

datatype 'n task =
    EventSubscriber 'n
  | MtlsListener socket_addr tls_acceptor runtime_operation_service listener
  | DurableWorker worker "(db_env, database) operation_journal" jet_stream_config
  | HttpServer socket_addr "'n app_state"

datatype serve_error =
    YoutubeClientFailed youtube_error
  | AuthClientFailed client_error
  | MtlsNeedsSharedAuth
  | AcceptorFailed ustr
  | AddressInvalid
  | BindFailed ustr

definition build_youtube ::
  "('n, 'c) serve_env \<Rightarrow> config \<Rightarrow> (serve_error, youtube_client option) result" where
  "build_youtube env cfg =
     (case youtube cfg of
        None \<Rightarrow> Ok None
      | Some y \<Rightarrow> and_then (map_err YoutubeClientFailed (new_client (http_client_build env) y))
                   (\<lambda>c. Ok (Some c)))"

definition build_verifier ::
  "('n, 'c) serve_env \<Rightarrow> config \<Rightarrow> (serve_error, shared_auth_verifier option) result" where
  "build_verifier env cfg =
     (case shared_auth cfg of
        None \<Rightarrow> Ok None
      | Some a \<Rightarrow>
          and_then (map_err AuthClientFailed
                      (new_verifier (auth_client_try_new env) (auth_client_introspect env)
                         (auth_base_url a) (service_credential a) (audience a)))
            (\<lambda>v. Ok (Some v)))"

definition operation_service_of ::
  "config \<Rightarrow> shared_auth_verifier option \<Rightarrow> youtube_client option \<Rightarrow> runtime_operation_service option" where
  "operation_service_of cfg verifier client =
     map_option (\<lambda>v. \<lparr>ros_shared_auth = v, ros_youtube = client,
        ros_attestation_key = map_option str_bytes (operation_attestation_key cfg)\<rparr>) verifier"

definition start_mtls ::
  "('n, 'c) serve_env \<Rightarrow> config \<Rightarrow> runtime_operation_service option \<Rightarrow> (serve_error, 'n task list) result" where
  "start_mtls env cfg svc =
     (case mtls cfg of
        None \<Rightarrow> Ok []
      | Some tls \<Rightarrow>
          and_then (ok_or MtlsNeedsSharedAuth svc) (\<lambda>service.
          and_then (map_err AcceptorFailed (mtls_acceptor (env_tls env) tls)) (\<lambda>acceptor.
          and_then (ok_or AddressInvalid (parse_socket_addr env (address tls))) (\<lambda>addr.
          and_then (map_err BindFailed (bind_listener env addr)) (\<lambda>_.
          case serve_mtls_tcp MAX_TCP_CONNECTIONS of
            Err _ \<Rightarrow> Ok []
          | Ok l \<Rightarrow> Ok [MtlsListener addr acceptor service l])))))"

definition durable_worker_of ::
  "('n, 'c) serve_env \<Rightarrow> runtime_operation_service \<Rightarrow> u8 list \<Rightarrow> worker" where
  "durable_worker_of env service key =
     \<lparr>w_serde = sv_serde (env_service env), w_mac = sv_mac (env_service env), w_key = key,
      w_service = runtime_execute (env_service env) service\<rparr>"

definition start_journal ::
  "('n, 'c) serve_env \<Rightarrow> config \<Rightarrow> 'n option \<Rightarrow> runtime_operation_service option \<Rightarrow>
   (db_env, database) operation_journal option \<times> 'n task list" where
  "start_journal env cfg nats svc =
     (case operation_database_url cfg of
        None \<Rightarrow> (None, [])
      | Some database_url \<Rightarrow>
          (case database_connect env database_url of
             Err _ \<Rightarrow> (None, [])
           | Ok eng \<Rightarrow>
               let journal = sea_orm_journal eng (env_digest env) (sv_serde (env_service env)) in
               (Some journal,
                case (nats, svc, operation_attestation_key cfg) of
                  (Some _, Some service, Some key) \<Rightarrow>
                    [DurableWorker (durable_worker_of env service (str_bytes key)) journal
                       default_jet_stream_config]
                | _ \<Rightarrow> [])))"

text \<open>
  \<open>serve\<close> up to the HTTP server: the tasks it has started, in order, and its error if it
  fails before the server runs.
\<close>

definition serve :: "('n, 'c) serve_env \<Rightarrow> config \<Rightarrow> (serve_error, unit) result \<times> 'n task list" where
  "serve env cfg =
     (let nats = nats_connect env (nats_url cfg);
          subscriber = (case nats of None \<Rightarrow> [] | Some client \<Rightarrow> [EventSubscriber client])
      in case build_youtube env cfg of
           Err e \<Rightarrow> (Err e, subscriber)
         | Ok client \<Rightarrow>
      (case build_verifier env cfg of
           Err e \<Rightarrow> (Err e, subscriber)
         | Ok verifier \<Rightarrow>
             let svc = operation_service_of cfg verifier client in
      (case start_mtls env cfg svc of
           Err e \<Rightarrow> (Err e, subscriber)
         | Ok mtls_tasks \<Rightarrow>
             let (journal, worker_tasks) = start_journal env cfg nats svc;
                 app = \<lparr>app_nats = nats, app_youtube = client, app_shared_auth = verifier,
                        app_operation_journal = journal\<rparr>;
                 addr = bind_address (port cfg)
             in (case bind_listener env addr of
                   Err e \<Rightarrow> (Err (BindFailed e), subscriber @ mtls_tasks @ worker_tasks)
                 | Ok _ \<Rightarrow> (Ok (), subscriber @ mtls_tasks @ worker_tasks @ [HttpServer addr app])))))"

section \<open>Lemmas on the wiring\<close>

definition service_with_api_key :: "ustr \<Rightarrow> runtime_operation_service \<Rightarrow> runtime_operation_service" where
  "service_with_api_key k svc = svc\<lparr>ros_youtube := map_option (with_api_key k) (ros_youtube svc)\<rparr>"

lemma youtube_status_result_key [simp]:
  "youtube_status_result (with_api_key k c) = youtube_status_result c"
  by (simp add: youtube_status_result_def)

lemma runtime_execute_key [simp]:
  "runtime_execute ev (service_with_api_key k svc) = runtime_execute ev svc"
  by (intro ext, cases "ros_youtube svc")
    (simp_all add: runtime_execute_def authenticate_operation_def service_with_api_key_def)

lemma build_verifier_audience:
  "build_verifier env cfg = Ok (Some v) \<Longrightarrow>
   \<exists>a. shared_auth cfg = Some a \<and> verifier_audience v = audience a"
  by (auto simp: build_verifier_def new_verifier_def result_simps split: option.splits)

lemma build_verifier_None_iff: "build_verifier env cfg = Ok v \<Longrightarrow> v = None \<longleftrightarrow> shared_auth cfg = None"
  by (auto simp: build_verifier_def result_simps split: option.splits)

lemma build_youtube_Ok:
  "build_youtube env cfg = Ok c \<Longrightarrow> c = map_option client_of (youtube cfg)"
  by (auto simp: build_youtube_def new_client_def result_simps split: option.splits)

lemma start_mtls_Ok:
  assumes "start_mtls env cfg svc = Ok tasks"
  shows "tasks = [] \<or> (\<exists>tls service addr acceptor. mtls cfg = Some tls \<and> svc = Some service \<and>
    mtls_acceptor (env_tls env) tls = Ok acceptor \<and> parse_socket_addr env (address tls) = Some addr \<and>
    tasks = [MtlsListener addr acceptor service (start_listener MAX_TCP_CONNECTIONS)])"
  using assms
  by (auto simp: start_mtls_def result_simps serve_mtls_tcp_def in_range_def MAX_TCP_CONNECTIONS_def
      split: option.splits)

lemma start_mtls_not_needing_auth:
  "start_mtls env cfg svc = Err MtlsNeedsSharedAuth \<Longrightarrow> mtls cfg \<noteq> None \<and> svc = None"
  by (auto simp: start_mtls_def serve_mtls_tcp_def in_range_def MAX_TCP_CONNECTIONS_def result_simps
      split: option.splits)

lemma start_journal_tasks:
  assumes "t \<in> set (snd (start_journal env cfg nats svc))"
  shows "\<exists>service key eng url client. svc = Some service \<and> operation_attestation_key cfg = Some key \<and>
    operation_database_url cfg = Some url \<and> nats = Some client \<and>
    fst (start_journal env cfg nats svc) = Some (sea_orm_journal eng (env_digest env) (sv_serde (env_service env))) \<and>
    t = DurableWorker (durable_worker_of env service (str_bytes key))
          (sea_orm_journal eng (env_digest env) (sv_serde (env_service env))) default_jet_stream_config"
  using assms
  by (cases "operation_database_url cfg"; cases nats; cases svc; cases "operation_attestation_key cfg")
    (auto simp: start_journal_def Let_def split: sum.splits)

text \<open>What a started process consists of.\<close>

definition service_of_config ::
  "('n, 'c) serve_env \<Rightarrow> config \<Rightarrow> runtime_operation_service \<Rightarrow> bool" where
  "service_of_config env cfg svc \<longleftrightarrow>
     build_verifier env cfg = Ok (Some (ros_shared_auth svc)) \<and>
     ros_youtube svc = map_option client_of (youtube cfg) \<and>
     ros_attestation_key svc = map_option str_bytes (operation_attestation_key cfg)"

lemma operation_service_of_config:
  "build_verifier env cfg = Ok v \<Longrightarrow> build_youtube env cfg = Ok c \<Longrightarrow>
   operation_service_of cfg v c = Some svc \<Longrightarrow> service_of_config env cfg svc"
  by (auto simp: operation_service_of_def service_of_config_def dest: build_youtube_Ok)

lemma serve_tasks:
  assumes "serve env cfg = (r, tasks)" and "t \<in> set tasks"
  obtains (subscriber) client where "t = EventSubscriber client"
    | (listener) tls service addr acceptor where "mtls cfg = Some tls" "service_of_config env cfg service"
        "mtls_acceptor (env_tls env) tls = Ok acceptor" "parse_socket_addr env (address tls) = Some addr"
        "t = MtlsListener addr acceptor service (start_listener MAX_TCP_CONNECTIONS)"
    | (worker) service key eng url where "service_of_config env cfg service"
        "operation_attestation_key cfg = Some key" "operation_database_url cfg = Some url"
        "t = DurableWorker (durable_worker_of env service (str_bytes key))
          (sea_orm_journal eng (env_digest env) (sv_serde (env_service env))) default_jet_stream_config"
    | (http) app where "r = Ok ()" "t = HttpServer (bind_address (port cfg)) app"
        "build_verifier env cfg = Ok (app_shared_auth app)"
        "app_youtube app = map_option client_of (youtube cfg)"
proof -
  let ?nats = "nats_connect env (nats_url cfg)"
  consider (sub) client where "t = EventSubscriber client"
    | (rest) c v ms where "build_youtube env cfg = Ok c" "build_verifier env cfg = Ok v"
      "start_mtls env cfg (operation_service_of cfg v c) = Ok ms"
      "t \<in> set ms \<or> t \<in> set (snd (start_journal env cfg ?nats (operation_service_of cfg v c))) \<or>
       (r = Ok () \<and> t = HttpServer (bind_address (port cfg)) \<lparr>app_nats = ?nats, app_youtube = c,
          app_shared_auth = v,
          app_operation_journal = fst (start_journal env cfg ?nats (operation_service_of cfg v c))\<rparr>)"
    using assms
    by (auto simp: serve_def Let_def split: sum.splits option.splits prod.splits)
  then show ?thesis
  proof cases
    case sub
    then show ?thesis by (rule subscriber)
  next
    case rest
    note svc = operation_service_of_config [OF rest(2,1)]
    from rest(4) consider "t \<in> set ms"
      | "t \<in> set (snd (start_journal env cfg ?nats (operation_service_of cfg v c)))"
      | "r = Ok ()" "t = HttpServer (bind_address (port cfg)) \<lparr>app_nats = ?nats, app_youtube = c,
          app_shared_auth = v,
          app_operation_journal = fst (start_journal env cfg ?nats (operation_service_of cfg v c))\<rparr>"
      by blast
    then show ?thesis
    proof cases
      case 1
      with start_mtls_Ok [OF rest(3)] svc listener show ?thesis by auto
    next
      case 2
      from start_journal_tasks [OF this] svc worker show ?thesis by blast
    next
      case 3
      from rest(2) build_youtube_Ok [OF rest(1)] show ?thesis by (intro http [OF 3]) simp_all
    qed
  qed
qed

lemma serve_error_not_auth:
  assumes "serve env cfg = (r, tasks)" and "mtls cfg \<noteq> None \<Longrightarrow> shared_auth cfg \<noteq> None"
  shows "r \<noteq> Err MtlsNeedsSharedAuth"
proof
  assume r: "r = Err MtlsNeedsSharedAuth"
  obtain c v where cv: "build_youtube env cfg = Ok c" "build_verifier env cfg = Ok v"
    "start_mtls env cfg (operation_service_of cfg v c) = Err MtlsNeedsSharedAuth"
    using assms(1) r
    by (auto simp: serve_def Let_def build_youtube_def build_verifier_def result_simps
        split: sum.splits option.splits prod.splits)
  from start_mtls_not_needing_auth [OF cv(3)] have "mtls cfg \<noteq> None" "v = None"
    by (auto simp: operation_service_of_def)
  with assms(2) build_verifier_None_iff [OF cv(2)] show False by simp
qed

lemma serve_http_last:
  assumes "serve env cfg = (r, tasks)" and "HttpServer addr app \<in> set tasks"
  shows "last tasks = HttpServer addr app"
proof -
  have no: "HttpServer addr app \<notin> set ms" if "start_mtls env cfg svc = Ok ms" for ms svc
    using start_mtls_Ok [OF that] by auto
  have nj: "HttpServer addr app \<notin> set ws" if "start_journal env cfg nats svc = (j, ws)" for nats svc j ws
    using start_journal_tasks [of "HttpServer addr app" env cfg nats svc] that by auto
  show ?thesis
    using assms no nj
    by (auto simp: serve_def Let_def split: sum.splits option.splits prod.splits)
qed

lemma length_str_bytes: "length (str_bytes s) = str_len s"
  by (simp add: str_bytes_def str_len_def)

lemma serve_closed:
  assumes "config_from_env url_parse is_socket_addr var = Ok cfg" and "serve env cfg = (r, tasks)"
  shows "r \<noteq> Err MtlsNeedsSharedAuth \<and>
    (\<forall>addr acceptor service l. MtlsListener addr acceptor service l \<in> set tasks \<longrightarrow>
       (\<exists>tls. mtls cfg = Some tls \<and>
          read_certificates (env_tls env) (client_ca_file tls) = Ok (ta_client_roots acceptor)) \<and>
       ta_client_roots acceptor \<noteq> [] \<and> l = start_listener 128 \<and>
       verifier_audience (ros_shared_auth service) = lit ''act-api'') \<and>
    (\<forall>w J c. DurableWorker w J c \<in> set tasks \<longrightarrow>
       operation_database_url cfg \<noteq> None \<and> shared_auth cfg \<noteq> None \<and> 32 \<le> length (w_key w)) \<and>
    (\<forall>addr app. HttpServer addr app \<in> set tasks \<longrightarrow>
       r = Ok () \<and> last tasks = HttpServer addr app \<and> addr = SocketAddr [0, 0, 0, 0] (word_of_nat (port cfg)) \<and>
       (app_youtube app \<noteq> None \<longrightarrow> app_shared_auth app \<noteq> None))"
proof -
  note cfg = config_accepted [OF assms(1)]
  have auth: "verifier_audience v = lit ''act-api''" if "build_verifier env cfg = Ok (Some v)" for v
    using build_verifier_audience [OF that] cfg(4) by (auto simp: shared_auth_ok_def)
  have 1: "r \<noteq> Err MtlsNeedsSharedAuth"
    using assms(2) cfg(1) by (rule serve_error_not_auth)
  have 2: "(\<exists>tls. mtls cfg = Some tls \<and>
          read_certificates (env_tls env) (client_ca_file tls) = Ok (ta_client_roots acceptor)) \<and>
       ta_client_roots acceptor \<noteq> [] \<and> l = start_listener 128 \<and>
       verifier_audience (ros_shared_auth service) = lit ''act-api''"
    if "MtlsListener addr acceptor service l \<in> set tasks" for addr acceptor service l
    using assms(2) that
    by (rule serve_tasks)
      (auto simp: service_of_config_def auth MAX_TCP_CONNECTIONS_def dest: mtls_acceptor_Ok)
  have 3: "operation_database_url cfg \<noteq> None \<and> shared_auth cfg \<noteq> None \<and> 32 \<le> length (w_key w)"
    if "DurableWorker w J c \<in> set tasks" for w J c
    using assms(2) that
    by (rule serve_tasks)
      (auto simp: durable_worker_of_def service_of_config_def length_str_bytes cfg(3)
        dest: build_verifier_None_iff)
  have 4: "r = Ok () \<and> last tasks = HttpServer addr app \<and> addr = SocketAddr [0, 0, 0, 0] (word_of_nat (port cfg)) \<and>
       (app_youtube app \<noteq> None \<longrightarrow> app_shared_auth app \<noteq> None)"
    if h: "HttpServer addr app \<in> set tasks" for addr app
    using assms(2) h
    by (rule serve_tasks)
      (use cfg(2) serve_http_last [OF assms(2) h] in
        \<open>auto simp: bind_address_def dest: build_verifier_None_iff\<close>)
  from 1 2 3 4 show ?thesis by blast
qed

section \<open>Properties\<close>

text \<open>
  C8: Every reply the mTLS listener sends is at most 64 KiB, and one that carries a result
  answers a frame whose bearer token Shared Auth introspected, for this service and the
  administration scope, to active claims of the very subject the envelope names; the result
  is the status of the configured client.
\<close>

theorem tcp_results_authenticated:
  assumes "header_faithful (sv_header_from_str ev)"
    and "serve_tls_connection (sv_serde ev) (runtime_execute ev svc) turns = (r, sent)"
    and "encoded \<in> set sent"
  shows "length encoded \<le> 64 * 1024 \<and> (\<exists>t \<in> set turns. \<exists>reply.
    reply = turn_reply (sv_serde ev) (runtime_execute ev svc) t \<and>
    reply_to_vec (sv_serde ev) reply = Some encoded \<and>
    (\<forall>v. reply_result reply = Some v \<longrightarrow> (\<exists>bytes request token claims c.
       turn_item t = Frame bytes \<and> operation_from_slice (sv_serde ev) bytes = Some request \<and>
       authorization request = lit ''Bearer '' @ token \<and>
       introspect (ros_shared_auth svc) token (verifier_audience (ros_shared_auth svc))
         [lit ''youtube:admin''] = Ok claims \<and> claims_active claims \<and>
       claims_sub claims = Some (subject (envelope request)) \<and>
       ros_youtube svc = Some c \<and>
       reply = reply_ok (operation_id (envelope request)) (youtube_status_result c))))"
proof -
  obtain t where t: "t \<in> set turns" "length encoded \<le> MAX_TRANSPORT_BYTES"
    "reply_to_vec (sv_serde ev) (turn_reply (sv_serde ev) (runtime_execute ev svc) t) = Some encoded"
    using serve_tls_connection_sent [of encoded "sv_serde ev" "runtime_execute ev svc" turns] assms(2,3)
    by auto
  let ?reply = "turn_reply (sv_serde ev) (runtime_execute ev svc) t"
  have "\<exists>bytes request token claims c.
       turn_item t = Frame bytes \<and> operation_from_slice (sv_serde ev) bytes = Some request \<and>
       authorization request = lit ''Bearer '' @ token \<and>
       introspect (ros_shared_auth svc) token (verifier_audience (ros_shared_auth svc))
         [lit ''youtube:admin''] = Ok claims \<and> claims_active claims \<and>
       claims_sub claims = Some (subject (envelope request)) \<and>
       ros_youtube svc = Some c \<and>
       ?reply = reply_ok (operation_id (envelope request)) (youtube_status_result c)"
    if v: "reply_result ?reply = Some v" for v
  proof -
    obtain bytes where b: "turn_item t = Frame bytes"
      using v by (cases "turn_item t") (auto simp: turn_reply_def reply_err_def)
    with v have "reply_result (process_payload (sv_serde ev) (runtime_execute ev svc) (turn_now t)
        (turn_timed_out t) bytes StatefulMtlsTcp) = Some v" by (simp add: turn_reply_def)
    then obtain request where q: "operation_from_slice (sv_serde ev) bytes = Some request"
      "validate_operation (sv_serde ev) (turn_now t) request StatefulMtlsTcp = Ok ()"
      "runtime_execute ev svc request StatefulMtlsTcp = Ok v"
      "authentic_operation ev svc request StatefulMtlsTcp"
      "?reply = reply_ok (operation_id (envelope request)) v"
      by (rule runtime.process_payload_result) (auto simp: turn_reply_def b)
    have "validate_authorization (authorization request) = Ok ()"
      using q(2) by (simp add: validate_operation_Ok_iff is_ok_iff)
    obtain token claims where "authorization request = lit ''Bearer '' @ token"
        "introspect (ros_shared_auth svc) token (verifier_audience (ros_shared_auth svc))
           [lit ''youtube:admin''] = Ok claims"
        "claims_active claims" "claims_sub claims = Some (subject (envelope request))"
      by (rule authentic_bearer_claims [OF assms(1) _ \<open>validate_authorization _ = _\<close> q(4)])
        (simp, blast intro: that)
    with b q show ?thesis by (auto simp: runtime_execute_Ok_iff)
  qed
  with t show ?thesis by (auto simp: MAX_TRANSPORT_BYTES_def)
qed

text \<open>A recorded result answers the attested request that holds the entry.\<close>

lemma recorded_result_owned:
  assumes "serve env cfg = (r, tasks)" and "DurableWorker w J c \<in> set tasks"
    and "reachable (\<lambda>y. y = start_system empty_database) (system_step w J) y"
    and "entry (store y) op = Finished u h res d"
  obtains j where "attested w op u j" "request_fingerprint (env_digest env) (str_bytes j) = h"
    "reply_to w j (str_bytes res)"
proof -
  obtain service key eng where s: "w = durable_worker_of env service (str_bytes key)"
    "J = sea_orm_journal eng (env_digest env) (sv_serde (env_service env))"
    using assms(1,2) by (rule serve_tasks) auto
  have "sow.entry_ok (env_digest env) w op (entry (store y) op)"
    by (rule sow.entries_ok) (rule assms(3) [unfolded s(2)])
  with assms(4) show thesis by (auto simp: sow.entry_ok_def intro: that)
qed

text \<open>And a reply of the worker with a result is authentic.\<close>

lemma reply_authentic:
  assumes "serve env cfg = (r, tasks)" and "DurableWorker w J c \<in> set tasks"
    and "operation_attestation_key cfg = Some key"
    and "reply_result (process_payload (w_serde w) (w_service w) now late bytes JetStreamAsync) = Some v"
  shows "\<exists>request yt. operation_from_slice (w_serde w) bytes = Some request \<and>
    verify_operation_attestation (w_mac w) (envelope_to_vec (w_serde w)) (str_bytes key)
      (envelope request) (authorization request) = Ok () \<and>
    youtube cfg = Some yt \<and> v = youtube_status_result (client_of yt) \<and>
    process_payload (w_serde w) (w_service w) now late bytes JetStreamAsync =
      reply_ok (operation_id (envelope request)) v"
proof -
  obtain service eng where s: "service_of_config env cfg service"
    "w = durable_worker_of env service (str_bytes key)"
    using assms(1,2) by (rule serve_tasks) (use assms(3) in auto)
  let ?ev = "env_service env"
  have w: "w_serde w = sv_serde ?ev" "w_mac w = sv_mac ?ev" "w_service w = runtime_execute ?ev service"
    by (simp_all add: s(2) durable_worker_of_def)
  from assms(4) [unfolded w(3)] obtain request where q: "operation_from_slice (w_serde w) bytes = Some request"
    "runtime_execute ?ev service request JetStreamAsync = Ok v"
    "authentic_operation ?ev service request JetStreamAsync"
    "process_payload (w_serde w) (runtime_execute ?ev service) now late bytes JetStreamAsync =
       reply_ok (operation_id (envelope request)) v"
    by (rule runtime.process_payload_result)
  with s(1) assms(3) w show ?thesis
    by (auto simp: runtime_execute_Ok_iff authentic_attested_iff service_of_config_def)
qed

lemma worker_key:
  assumes "serve env cfg = (r, tasks)" and "DurableWorker w J c \<in> set tasks"
  obtains key where "operation_attestation_key cfg = Some key" "w_key w = str_bytes key"
  using assms by (rule serve_tasks) (auto simp: durable_worker_of_def intro: that)

text \<open>
  C7: The durable worker that the process starts records only what its configuration vouches
  for: whatever is delivered, in whatever order and with whatever faults, a recorded result
  is an encoded reply, and one with a result answers a request attested under the configured
  key with the status of the configured client.
\<close>

theorem durable_results_authentic:
  assumes "serve env cfg = (r, tasks)" and "DurableWorker w J c \<in> set tasks"
    and "reachable (\<lambda>y. y = start_system empty_database) (system_step w J) y"
    and "entry (store y) op = Finished u h res d"
  shows "\<exists>key reply. operation_attestation_key cfg = Some key \<and> w_key w = str_bytes key \<and>
    reply_to_vec (w_serde w) reply = Some (str_bytes res) \<and>
    (\<forall>v. reply_result reply = Some v \<longrightarrow> (\<exists>bytes request yt.
       operation_from_slice (w_serde w) bytes = Some request \<and>
       verify_operation_attestation (w_mac w) (envelope_to_vec (w_serde w)) (str_bytes key)
         (envelope request) (authorization request) = Ok () \<and>
       youtube cfg = Some yt \<and> v = youtube_status_result (client_of yt) \<and>
       reply = reply_ok (operation_id (envelope request)) v))"
proof -
  obtain key where key: "operation_attestation_key cfg = Some key" "w_key w = str_bytes key"
    using assms(1,2) by (rule worker_key)
  obtain j where "reply_to w j (str_bytes res)"
    using assms by (rule recorded_result_owned)
  then obtain now late where reply: "reply_to_vec (w_serde w) (process_payload (w_serde w) (w_service w)
      now late (str_bytes j) JetStreamAsync) = Some (str_bytes res)" by (auto simp: reply_to_def)
  with key reply_authentic [OF assms(1,2) key(1), of now late "str_bytes j"] show ?thesis by blast
qed

text \<open>
  C24: The API key of the web app goes nowhere but into the requests to the web app: with
  another key, and a web app that does not look at it, every HTTP request is answered the
  same, with the same events and, but for the key, the same upstream requests; and every
  connection of the mTLS listener sends the same bytes.
\<close>

theorem api_key_confined:
  assumes "key_blind (web_http web)"
    and "router web st env db clk n ep = (resp, calls, n')"
  shows "(\<exists>calls'. router web (state_with_api_key k st) env db clk n ep = (resp, calls', n') \<and>
      map hide_outside calls' = map hide_outside calls) \<and>
    serve_tls_connection (sv_serde ev) (runtime_execute ev (service_with_api_key k svc)) turns =
      serve_tls_connection (sv_serde ev) (runtime_execute ev svc) turns"
  using router_key [OF assms, of k] by simp

section \<open>Witnesses\<close>

definition bearer_request :: authenticated_operation where
  "bearer_request = \<lparr>authorization = lit ''Bearer opaque'', envelope = sample_envelope\<rparr>"

definition sample_service_env :: "authenticated_operation \<Rightarrow> service_env" where
  "sample_service_env r =
     \<lparr>sv_mac = w_mac sample_worker, sv_serde = w_serde sample_worker\<lparr>operation_from_slice := \<lambda>_. Some r\<rparr>,
      sv_header_from_str = \<lambda>s. Some (Readable s)\<rparr>"

definition sample_service :: runtime_operation_service where
  "sample_service =
     \<lparr>ros_shared_auth = sample_verifier, ros_youtube = Some sample_client,
      ros_attestation_key = Some (replicate 32 97)\<rparr>"

definition sample_turn :: connection_turn where
  "sample_turn = \<lparr>turn_item = Frame [], turn_now = 1, turn_timed_out = False, turn_send = Sent\<rparr>"

lemma sample_service_env_sel [simp]:
  "operation_from_slice (sv_serde (sample_service_env r)) = (\<lambda>_. Some r)"
  "envelope_to_vec (sv_serde (sample_service_env r)) = (\<lambda>_. Some [123, 125])"
  "reply_to_vec (sv_serde (sample_service_env r)) = (\<lambda>_. Some [])"
  "sv_header_from_str (sample_service_env r) = (\<lambda>s. Some (Readable s))"
  by (simp_all add: sample_service_env_def sample_worker_def)

lemma bearer_request_valid:
  "validate_operation (sv_serde (sample_service_env r)) 1 bearer_request StatefulMtlsTcp = Ok ()"
proof -
  have l: "lit ''Bearer opaque'' = lit ''Bearer '' @ lit ''opaque''" by (simp add: lit_def)
  have "\<not> list_ex is_whitespace (lit ''opaque'')" "lit ''opaque'' \<noteq> []"
    by (simp_all add: is_whitespace_def lit_def)
  moreover have "str_len (lit ''Bearer opaque'') \<le> MAX_AUTHORIZATION_BYTES"
    by (simp add: ascii_str_len ascii_def lit_def MAX_AUTHORIZATION_BYTES_def)
  ultimately have "validate_authorization (authorization bearer_request) = Ok ()"
    unfolding validate_authorization_Ok_iff bearer_request_def using l by auto
  moreover have "validate_for (\<lambda>_. Some [123, 125]) 1 sample_envelope StatefulMtlsTcp = Ok ()"
    using sample_validates by (simp add: validate_for_Ok_iff admissible_for_def)
  ultimately show ?thesis
    by (simp add: validate_operation_Ok_iff bearer_request_def is_ok_iff)
qed

lemma bearer_request_executes:
  "runtime_execute (sample_service_env r) sample_service bearer_request StatefulMtlsTcp =
     Ok (youtube_status_result sample_client)"
proof -
  have "verify sample_verifier [AUTHORIZATION \<mapsto> Readable (lit ''Bearer opaque'')] scopes =
      Ok (lit ''shared-user-1'')" for scopes
    using sample_verified [of scopes] by (simp add: sample_headers_def)
  then show ?thesis
    by (simp add: runtime_execute_Ok_iff authentic_bearer_iff bearer_request_def sample_service_def
        sample_envelope_def)
qed

theorem tcp_results_authenticated_witness:
  "\<exists>token claims. lit ''Bearer opaque'' = lit ''Bearer '' @ token \<and>
     introspect sample_verifier token (lit ''act-api'') [lit ''youtube:admin''] = Ok claims \<and>
     claims_sub claims = Some (lit ''shared-user-1'')"
proof -
  let ?ev = "sample_service_env bearer_request"
  let ?reply = "turn_reply (sv_serde ?ev) (runtime_execute ?ev sample_service) sample_turn"
  have reply: "?reply = reply_ok (operation_id sample_envelope) (youtube_status_result sample_client)"
    using bearer_request_valid [of bearer_request] bearer_request_executes [of bearer_request]
    by (simp add: turn_reply_def sample_turn_def process_payload_def MAX_TRANSPORT_BYTES_def
        bearer_request_def Let_def)
  have "serve_tls_connection (sv_serde ?ev) (runtime_execute ?ev sample_service) [sample_turn] =
      (Ok (), [[]])"
    by (simp add: sample_turn_def)
  moreover have "header_faithful (sv_header_from_str ?ev)"
    by (simp add: header_faithful_def to_str_def)
  ultimately have "\<forall>v. reply_result ?reply = Some v \<longrightarrow> (\<exists>bytes request token claims c.
       turn_item sample_turn = Frame bytes \<and> operation_from_slice (sv_serde ?ev) bytes = Some request \<and>
       authorization request = lit ''Bearer '' @ token \<and>
       introspect (ros_shared_auth sample_service) token (verifier_audience (ros_shared_auth sample_service))
         [lit ''youtube:admin''] = Ok claims \<and> claims_active claims \<and>
       claims_sub claims = Some (subject (envelope request)) \<and>
       ros_youtube sample_service = Some c \<and>
       ?reply = reply_ok (operation_id (envelope request)) (youtube_status_result c))"
    using tcp_results_authenticated [of ?ev sample_service "[sample_turn]" "Ok ()" "[[]]" "[]"] by simp
  moreover have "reply_result ?reply = Some (youtube_status_result sample_client)"
    unfolding reply by (simp add: reply_ok_def)
  ultimately obtain token claims where
    "authorization bearer_request = lit ''Bearer '' @ token"
    "introspect (ros_shared_auth sample_service) token (verifier_audience (ros_shared_auth sample_service))
       [lit ''youtube:admin''] = Ok claims"
    "claims_sub claims = Some (subject (envelope bearer_request))" by auto
  then show ?thesis
    by (auto simp: bearer_request_def sample_service_def sample_verifier_def sample_envelope_def)
qed

definition sample_config :: config where
  "sample_config =
     \<lparr>port = 8080, nats_url = lit ''nats://localhost:4222'', service_name = lit ''act-api-server'',
      shared_auth = Some \<lparr>auth_base_url = lit ''https://auth'', service_credential = replicate 16 97,
        audience = lit ''act-api''\<rparr>,
      youtube = None, operation_database_url = Some (lit ''postgres://db''),
      operation_attestation_key = Some (replicate 32 97), mtls = None\<rparr>"

definition sample_serve_env :: "(unit, unit) serve_env" where
  "sample_serve_env =
     \<lparr>env_service = sample_service_env sample_request, env_digest = sample_digest,
      env_tls = \<lparr>read_certificates = \<lambda>_. Ok [[1]], read_private_key = \<lambda>_. Ok [2], root_add = \<lambda>_. Ok (),
        build_client_verifier = \<lambda>_. Ok (), with_single_cert = \<lambda>_ _. Ok ()\<rparr>,
      async_nats_connect = \<lambda>_. Ok (), http_client_build = \<lambda>_. Ok (), auth_client_try_new = \<lambda>_. Ok (),
      auth_client_introspect = \<lambda>_ _ _. introspect sample_verifier,
      parse_socket_addr = \<lambda>_. Some (SocketAddr [0, 0, 0, 0] 7443), bind_listener = \<lambda>_. Ok (),
      database_connect = \<lambda>_. Ok ConflictFirst\<rparr>"

lemma sample_key_bytes: "str_bytes (replicate 32 97) = replicate 32 97"
  by (subst ascii_str_bytes) (simp_all add: ascii_def list_all_iff)

lemma sample_durable_worker:
  "durable_worker_of sample_serve_env svc (str_bytes (replicate 32 97)) =
     sample_worker\<lparr>w_service := runtime_execute (sample_service_env sample_request) svc\<rparr>"
  by (simp add: durable_worker_of_def sample_serve_env_def sample_service_env_def sample_worker_def
      sample_key_bytes)

lemma sample_serve:
  "\<exists>svc r tasks. serve sample_serve_env sample_config = (r, tasks) \<and>
     DurableWorker (durable_worker_of sample_serve_env svc (str_bytes (replicate 32 97)))
       (sea_orm_journal ConflictFirst sample_digest (sv_serde (sample_service_env sample_request)))
       default_jet_stream_config \<in> set tasks"
  by (simp add: serve_def build_youtube_def build_verifier_def new_verifier_def start_mtls_def
      start_journal_def operation_service_of_def sample_config_def sample_serve_env_def nats_connect_def Let_def)
    (rule exI, rule refl)

theorem durable_results_authentic_witness:
  "\<exists>reply. reply_to_vec (w_serde sample_worker) reply = Some [] \<and>
     operation_attestation_key sample_config = Some (replicate 32 97)"
proof -
  obtain svc r tasks where s: "serve sample_serve_env sample_config = (r, tasks)"
    and w: "DurableWorker (durable_worker_of sample_serve_env svc (str_bytes (replicate 32 97)))
       (sea_orm_journal ConflictFirst sample_digest (sv_serde (sample_service_env sample_request)))
       default_jet_stream_config \<in> set tasks"
    using sample_serve by blast
  obtain y where y: "reachable (\<lambda>y. y = start_system empty_database)
      (system_step (durable_worker_of sample_serve_env svc (str_bytes (replicate 32 97)))
        (sea_orm_journal ConflictFirst sample_digest (sv_serde (sample_service_env sample_request)))) y"
    "entry (store y) sample_id = Finished (subject sample_envelope) sample_hash [] True"
    unfolding sample_durable_worker
    using sample_run_service [of "runtime_execute (sample_service_env sample_request) svc"] by blast
  from durable_results_authentic [OF s w y] show ?thesis
    by (auto simp: durable_worker_of_def sample_serve_env_def sample_worker_def sample_service_env_def
        sample_config_def)
qed

theorem api_key_confined_witness:
  "\<exists>resp calls calls' n. router sample_web sample_state (calm 5) empty_database sample_clock 1
      (PostYoutubeAction (lit ''channel'') sample_headers JNull) = (resp, calls, n) \<and>
    router sample_web (state_with_api_key (lit ''other'') sample_state) (calm 5) empty_database sample_clock 1
      (PostYoutubeAction (lit ''channel'') sample_headers JNull) = (resp, calls', n) \<and>
    map hide_outside calls' = map hide_outside calls"
proof -
  obtain resp calls n where r: "router sample_web sample_state (calm 5) empty_database sample_clock 1
      (PostYoutubeAction (lit ''channel'') sample_headers JNull) = (resp, calls, n)"
    by (cases "router sample_web sample_state (calm 5) empty_database sample_clock 1
      (PostYoutubeAction (lit ''channel'') sample_headers JNull)")
  have "key_blind (web_http sample_web)" by (simp add: key_blind_def sample_web_def)
  from api_key_confined [OF this r] r show ?thesis by blast
qed

end
