(* ===== verification/DurableService.thy ===== *)
theory DurableService
  imports JetStream
begin

text \<open>
  The durable worker as it runs: the pull loop of \<open>serve_jetstream\<close> in
  \<open>src/transport_runtime.rs\<close> together with the handlers it spawns. The loop pulls one
  message, waits for a permit, and moves permit and message into a task; the permit comes
  back when the task ends, whether its handler returned or died. A process may end at any
  time and be started again over the same journal. \<open>Workers\<close> has the loop alone and
  \<open>JetStream\<close> the handlers alone; here their steps are synchronised.
\<close>

section \<open>The loop and its tasks\<close>

fun live :: "stage \<Rightarrow> bool" where
  "live (Done _) = False"
| "live _ = True"

definition live_handlers :: "stage list \<Rightarrow> nat" where
  "live_handlers hs = length (filter live hs)"

record 's durable =
  pull_loop :: puller
  pulled_message :: "u8 list option"
  worker_tasks :: "'s system"

datatype 'f durable_event =
  Message "u8 list" | Spawn | Stop puller_event | Step nat "'f moment" | Die nat | Restart

definition start_durable :: "puller \<Rightarrow> 's \<Rightarrow> 's durable" where
  "start_durable p s = \<lparr>pull_loop = p, pulled_message = None, worker_tasks = start_system s\<rparr>"

text \<open>The end of a process: every task that is not done is gone, the tables stay.\<close>

fun killed :: "stage \<Rightarrow> stage" where
  "killed (Done r) = Done r"
| "killed _ = Done (Err Crashed)"

inductive durable_step ::
  "puller \<Rightarrow> worker \<Rightarrow> ('f, 's) operation_journal \<Rightarrow>
   's durable \<Rightarrow> 'f durable_event \<Rightarrow> 's durable \<Rightarrow> bool"
  for p0 w J where
  message: "puller_step (pull_loop d) Pulled p \<Longrightarrow>
    durable_step p0 w J d (Message bytes) (d\<lparr>pull_loop := p, pulled_message := Some bytes\<rparr>)"
| spawn: "pulled_message d = Some bytes \<Longrightarrow>
    puller_step (pull_loop d) PermitAcquired p \<Longrightarrow>
    system_step w J (worker_tasks d) (Deliver bytes) y \<Longrightarrow>
    durable_step p0 w J d Spawn
      (d\<lparr>pull_loop := p, pulled_message := None, worker_tasks := y\<rparr>)"
| stop: "e = StreamFailed \<or> e = StreamEnded \<Longrightarrow> puller_step (pull_loop d) e p \<Longrightarrow>
    durable_step p0 w J d (Stop e) (d\<lparr>pull_loop := p\<rparr>)"
| resume: "live (handlers (worker_tasks d) ! i) \<Longrightarrow>
    system_step w J (worker_tasks d) (Advance i t) y \<Longrightarrow> live (handlers y ! i) \<Longrightarrow>
    durable_step p0 w J d (Step i t) (d\<lparr>worker_tasks := y\<rparr>)"
| return: "live (handlers (worker_tasks d) ! i) \<Longrightarrow>
    system_step w J (worker_tasks d) (Advance i t) y \<Longrightarrow> \<not> live (handlers y ! i) \<Longrightarrow>
    puller_step (pull_loop d) HandlerEnded p \<Longrightarrow>
    durable_step p0 w J d (Step i t) (d\<lparr>pull_loop := p, worker_tasks := y\<rparr>)"
| die: "live (handlers (worker_tasks d) ! i) \<Longrightarrow>
    system_step w J (worker_tasks d) (Crash i) y \<Longrightarrow>
    puller_step (pull_loop d) HandlerEnded p \<Longrightarrow>
    durable_step p0 w J d (Die i) (d\<lparr>pull_loop := p, worker_tasks := y\<rparr>)"
| restart: "durable_step p0 w J d Restart
    (d\<lparr>pull_loop := p0, pulled_message := None,
       worker_tasks := (worker_tasks d)\<lparr>handlers := map killed (handlers (worker_tasks d))\<rparr>\<rparr>)"

inductive_cases durable_stepE: "durable_step p0 w J d l e"

inductive_cases system_deliverE: "system_step w J y (Deliver bytes) y'"
inductive_cases system_advanceE: "system_step w J y (Advance i t) y'"
inductive_cases system_crashE: "system_step w J y (Crash i) y'"

lemmas system_stepEs = system_deliverE system_advanceE system_crashE

section \<open>Counting live handlers\<close>

lemma live_iff: "live g \<longleftrightarrow> stage_rank g \<noteq> 0"
  by (cases g) simp_all

lemma live_killed [simp]: "\<not> live (killed g)"
  by (cases g) simp_all

lemma killed_id: "\<not> live g \<Longrightarrow> killed g = g"
  by (cases g) simp_all

lemma live_handlers_simps [simp]:
  "live_handlers [] = 0"
  "live_handlers (hs @ [Received bytes]) = Suc (live_handlers hs)"
  "live_handlers (map killed hs) = 0"
  by (simp_all add: live_handlers_def filter_empty_conv)

lemma live_handlers_update:
  "i < length hs \<Longrightarrow> live (hs ! i) \<Longrightarrow>
   live_handlers (hs[i := g]) + (if live g then 0 else 1) = live_handlers hs \<and> 0 < live_handlers hs"
  using length_filter_update [of i hs live g] length_filter_pos [of i hs live]
  by (simp add: live_handlers_def split: if_splits)

lemma live_handlers_pos: "0 < live_handlers hs \<Longrightarrow> \<exists>i < length hs. live (hs ! i)"
  by (auto simp: live_handlers_def filter_empty_conv in_set_conv_nth)

section \<open>The parts move as they do alone\<close>

text \<open>Killing what is live is a run of crashes.\<close>

lemma killed_by_crashes:
  "k \<le> length (handlers y) \<Longrightarrow>
   \<exists>ls. steps (system_step w J) y ls
     (y\<lparr>handlers := map killed (take k (handlers y)) @ drop k (handlers y)\<rparr>)"
proof (induction k)
  case 0
  show ?case using steps_refl [of "system_step w J" y] by auto
next
  case (Suc k)
  let ?hs = "handlers y" and ?y = "\<lambda>k. y\<lparr>handlers := map killed (take k (handlers y)) @ drop k (handlers y)\<rparr>"
  from Suc obtain ls where ls: "steps (system_step w J) y ls (?y k)" by auto
  have split: "drop k ?hs = ?hs ! k # drop (Suc k) ?hs" "take (Suc k) ?hs = take k ?hs @ [?hs ! k]"
    using Suc.prems by (simp_all add: Cons_nth_drop_Suc take_Suc_conv_app_nth)
  show ?case
  proof (cases "live (?hs ! k)")
    case True
    then have "killed (?hs ! k) = Done (Err Crashed)" by (cases "?hs ! k") simp_all
    moreover have "system_step w J (?y k) (Crash k)
        (?y k\<lparr>handlers := (handlers (?y k))[k := Done (Err Crashed)]\<rparr>)"
      using Suc.prems by (intro crash) simp
    ultimately have "system_step w J (?y k) (Crash k) (?y (Suc k))"
      using Suc.prems by (simp add: split list_update_append)
    with ls show ?thesis by (blast intro: steps_snoc)
  next
    case False
    then have "?y (Suc k) = ?y k" by (simp only: split) (simp add: killed_id)
    with ls show ?thesis by metis
  qed
qed

lemma killed_steps:
  "\<exists>ls. steps (system_step w J) y ls (y\<lparr>handlers := map killed (handlers y)\<rparr>)"
  using killed_by_crashes [of "length (handlers y)" y w J] by simp

lemma tasks_move:
  "durable_step p0 w J d l e \<Longrightarrow>
   \<exists>ls. steps (system_step w J) (worker_tasks d) ls (worker_tasks e)"
  by (erule durable_stepE) (simp_all add: steps_none killed_steps steps_one)

lemma loop_moves:
  "durable_step p0 w J d l e \<Longrightarrow>
   pull_loop e = p0 \<or> (\<exists>ls. steps puller_step (pull_loop d) ls (pull_loop e))"
  by (erule durable_stepE) (simp_all add: steps_none steps_one)

interpretation service_tasks: carrying_system
    "\<lambda>d. d = start_durable p0 s" "durable_step p0 w J"
    "\<lambda>y. y = start_system s" "system_step w J" worker_tasks for p0 w J s
  by unfold_locales (simp add: start_durable_def, blast dest: tasks_move)

interpretation service_loop: carrying_system
    "\<lambda>d. d = start_durable p0 s" "durable_step p0 w J"
    "\<lambda>p. p = p0" puller_step pull_loop for p0 w J s
  by unfold_locales (simp add: start_durable_def, blast dest: loop_moves)

text \<open>
  What ties them together: the permits taken are the live handlers, and the loop waits
  exactly while it holds a message.
\<close>

definition tied :: "'s durable \<Rightarrow> bool" where
  "tied d \<longleftrightarrow>
     js_handlers (pull_loop d) = live_handlers (handlers (worker_tasks d)) \<and>
     (js_waiting (pull_loop d) \<longleftrightarrow> pulled_message d \<noteq> None) \<and>
     (js_waiting (pull_loop d) \<longrightarrow> js_running (pull_loop d))"

lemma tied_start: "tied (start_durable (start_puller n) s)"
  by (simp add: tied_def start_durable_def start_puller_def start_system_def)

lemma tied_step:
  assumes "tied d" and "durable_step (start_puller n) w J d l e"
  shows "tied e"
  using assms(2)
proof cases
  case (resume i t y)
  with assms(1) show ?thesis
    using live_handlers_update [of i "handlers (worker_tasks d)" "handlers y ! i"]
    by (auto simp: tied_def elim!: system_stepEs)
next
  case (return i t y p)
  with assms(1) show ?thesis
    using live_handlers_update [of i "handlers (worker_tasks d)" "handlers y ! i"]
    by (auto simp: tied_def elim!: system_stepEs puller_stepE)
next
  case (die i y p)
  with assms(1) show ?thesis
    using live_handlers_update [of i "handlers (worker_tasks d)" "handlers y ! i"]
    by (auto simp: tied_def elim!: system_stepEs puller_stepE)
qed (use assms(1) in \<open>auto simp: tied_def start_puller_def elim!: system_stepEs puller_stepE\<close>)

interpretation service: invariant_system
    "\<lambda>d. d = start_durable (start_puller n) s" "durable_step (start_puller n) w J" tied for n w J s
  by unfold_locales (auto simp: tied_start intro: tied_step)

section \<open>Handlers end\<close>

fun handler_event :: "'f durable_event \<Rightarrow> bool" where
  "handler_event (Step _ _) = True"
| "handler_event (Die _) = True"
| "handler_event _ = False"

definition work_left :: "'s durable \<Rightarrow> nat" where
  "work_left d = sum_list (map stage_rank (handlers (worker_tasks d)))"

lemma work_left_update:
  "i < length hs \<Longrightarrow> stage_rank g < stage_rank (hs ! i) \<Longrightarrow>
   sum_list (map stage_rank (hs[i := g])) < sum_list (map stage_rank hs)"
proof (induction hs arbitrary: i)
  case (Cons h hs)
  then show ?case by (cases i) auto
qed simp

lemma work_left_bounded: "sum_list (map stage_rank hs) \<le> 7 * live_handlers hs"
proof (induction hs)
  case (Cons h hs)
  moreover have "stage_rank h \<le> 7" by (cases h) simp_all
  ultimately show ?case by (auto simp: live_handlers_def live_iff)
qed (simp add: live_handlers_def)

lemma stage_falls:
  "stage_step w J t g s = (g', es, s') \<Longrightarrow> 0 < stage_rank g \<Longrightarrow> stage_rank g' < stage_rank g"
  using stage_step_rank [of g w J t s] by simp

lemma work_left_falls:
  "durable_step p0 w J d l e \<Longrightarrow> handler_event l \<Longrightarrow> work_left e < work_left d"
  by (erule durable_stepE)
    (auto simp: work_left_def live_iff elim!: system_stepEs intro!: work_left_update
      dest: stage_falls)

interpretation handlers_run: ranked_system "\<lambda>d. True"
    "\<lambda>d l e. handler_event l \<and> durable_step p0 w J d l e" "\<lambda>d. True" work_left for p0 w J
  by unfold_locales (auto intro: work_left_falls)

lemma handler_steps:
  "steps (durable_step p0 w J) d events e \<Longrightarrow> list_all handler_event events \<Longrightarrow>
   steps (\<lambda>d l e. handler_event l \<and> durable_step p0 w J d l e) d events e"
  by (induction rule: steps.induct) (auto intro: steps.intros)

lemma handler_keeps_message:
  "durable_step p0 w J d l e \<Longrightarrow> handler_event l \<Longrightarrow> pulled_message e = pulled_message d"
  by (erule durable_stepE) auto

lemma handler_steps_keep_message:
  "steps (durable_step p0 w J) d events e \<Longrightarrow> list_all handler_event events \<Longrightarrow>
   pulled_message e = pulled_message d"
  by (induction rule: steps.induct) (auto simp: handler_keeps_message)

text \<open>A live handler can always take its next step, whatever the environment does.\<close>

lemma live_can_step:
  assumes "tied d" and "i < length (handlers (worker_tasks d))"
    and "live (handlers (worker_tasks d) ! i)"
  shows "\<exists>e. durable_step p0 w J d (Step i t) e"
proof -
  let ?y = "worker_tasks d" and ?p = "pull_loop d"
  obtain g es s' where "stage_step w J t (handlers ?y ! i) (store ?y) = (g, es, s')"
    by (cases "stage_step w J t (handlers ?y ! i) (store ?y)")
  from advance [OF assms(2) this] obtain y where y: "system_step w J ?y (Advance i t) y" by blast
  have "0 < js_handlers ?p"
    using live_handlers_update [OF assms(2,3)] assms(1) by (simp add: tied_def)
  from handler_ended [OF this] obtain p where "puller_step ?p HandlerEnded p" by blast
  with y show ?thesis using resume [OF assms(3) y] return [OF assms(3) y] by blast
qed

text \<open>A pulled message is spawned as soon as a permit is free.\<close>

lemma free_permit_spawns:
  assumes "tied d" and "pulled_message d = Some bytes" and "0 < js_permits (pull_loop d)"
  shows "\<exists>e. durable_step p0 w J d Spawn e \<and>
    handlers (worker_tasks e) = handlers (worker_tasks d) @ [Received bytes]"
proof -
  let ?p = "pull_loop d"
  have "js_running ?p" "js_waiting ?p" using assms by (auto simp: tied_def)
  from permit_acquired [OF this assms(3)] obtain p where "puller_step ?p PermitAcquired p" by blast
  from spawn [OF assms(2) this deliver] show ?thesis by fastforce
qed

lemma service_running:
  assumes "serve_jetstream b c = Ok p"
    and "reachable (\<lambda>d. d = start_durable p s) (durable_step p w J) d"
  shows "1 \<le> cfg_max_concurrency c" "cfg_max_concurrency c \<le> 32" "tied d"
    "js_permits (pull_loop d) + live_handlers (handlers (worker_tasks d)) = cfg_max_concurrency c"
proof -
  from assms(1) show "1 \<le> cfg_max_concurrency c" "cfg_max_concurrency c \<le> 32"
    by (auto simp: serve_jetstream_def in_range_def MAX_CONCURRENT_OPERATIONS_def split: if_splits)
  have p: "p = start_puller (cfg_max_concurrency c)" using serve_jetstream_Ok [OF assms(1)] by simp
  show t: "tied d" using assms(2) unfolding p by (rule service.reachable_inv)
  have "js_permits (pull_loop d) + js_handlers (pull_loop d) = cfg_max_concurrency c"
    using service_loop.reachable_part [OF assms(2)] unfolding p by (rule puller_pool.conserved)
  with t show "js_permits (pull_loop d) + live_handlers (handlers (worker_tasks d)) =
      cfg_max_concurrency c" by (simp add: tied_def)
qed

section \<open>Properties\<close>

text \<open>
  C21: However messages arrive, handlers advance, return or die, and the process ends and
  starts again, the running service is the two machines in step: its tasks are a run of the
  handler system over the same tables, so what holds of every such run holds of the service;
  its loop is a run of the pull loop; the permits taken are exactly the live handlers, at
  most the configured and reviewed 32; and a message is held exactly while the loop waits.
\<close>

theorem service_runs_its_machines:
  assumes "serve_jetstream b c = Ok p"
    and "reachable (\<lambda>d. d = start_durable p s) (durable_step p w J) d"
  shows "reachable (\<lambda>y. y = start_system s) (system_step w J) (worker_tasks d) \<and>
    reachable (\<lambda>q. q = p) puller_step (pull_loop d) \<and>
    js_handlers (pull_loop d) = live_handlers (handlers (worker_tasks d)) \<and>
    live_handlers (handlers (worker_tasks d)) \<le> cfg_max_concurrency c \<and>
    cfg_max_concurrency c \<le> 32 \<and>
    (js_waiting (pull_loop d) \<longleftrightarrow> pulled_message d \<noteq> None)"
  using service_tasks.reachable_part [OF assms(2)] service_loop.reachable_part [OF assms(2)]
    service_running [OF assms] by (simp add: tied_def)

text \<open>
  C22: A pulled message is not lost while it waits, and does not wait for ever: the handlers
  that hold the permits make at most seven steps each before they are done; a live one can
  always take its next, whatever the call it awaits answers; and as soon as fewer than the
  configured number are live the message is handed to a new handler.
\<close>

theorem pulled_message_starts:
  assumes "serve_jetstream b c = Ok p"
    and "reachable (\<lambda>d. d = start_durable p s) (durable_step p w J) d"
    and "pulled_message d = Some bytes"
    and "steps (durable_step p w J) d events e" and "list_all handler_event events"
  shows "length events \<le> 7 * cfg_max_concurrency c \<and> pulled_message e = Some bytes \<and>
    (if live_handlers (handlers (worker_tasks e)) < cfg_max_concurrency c
     then \<exists>e'. durable_step p w J e Spawn e' \<and>
       handlers (worker_tasks e') = handlers (worker_tasks e) @ [Received bytes]
     else \<exists>i. \<forall>t. \<exists>e'. durable_step p w J e (Step i t) e')"
proof (intro conjI)
  note d = service_running [OF assms(1,2)]
    and e = service_running [OF assms(1) steps_reachable [OF assms(4,2)]]
  show held: "pulled_message e = Some bytes"
    using handler_steps_keep_message [OF assms(4,5)] assms(3) by simp
  have "length events \<le> work_left d"
    using handlers_run.steps_bounded [OF handler_steps [OF assms(4,5)]] by simp
  also have "\<dots> \<le> 7 * live_handlers (handlers (worker_tasks d))"
    unfolding work_left_def by (rule work_left_bounded)
  finally show "length events \<le> 7 * cfg_max_concurrency c" using d(4) by simp
  show "if live_handlers (handlers (worker_tasks e)) < cfg_max_concurrency c
     then \<exists>e'. durable_step p w J e Spawn e' \<and>
       handlers (worker_tasks e') = handlers (worker_tasks e) @ [Received bytes]
     else \<exists>i. \<forall>t. \<exists>e'. durable_step p w J e (Step i t) e'"
  proof (cases "live_handlers (handlers (worker_tasks e)) < cfg_max_concurrency c")
    case True
    then have "0 < js_permits (pull_loop e)" using e(4) by simp
    from free_permit_spawns [OF e(3) held this] True show ?thesis by simp
  next
    case False
    then have "0 < live_handlers (handlers (worker_tasks e))" using e(1) by simp
    from live_handlers_pos [OF this] live_can_step [OF e(3)] False show ?thesis by fastforce
  qed
qed

section \<open>Witnesses\<close>

definition sample_broker :: broker where
  "sample_broker = \<lparr>get_or_create_stream = \<lambda>_. Ok (), get_stream = \<lambda>_. Ok (),
     get_or_create_consumer = \<lambda>_. Ok (), consumer_messages = Ok ()\<rparr>"

definition sample_single_permit :: jet_stream_config where
  "sample_single_permit = default_jet_stream_config\<lparr>cfg_max_concurrency := 1\<rparr>"

lemma sample_served: "serve_jetstream sample_broker sample_single_permit = Ok (start_puller 1)"
  by (simp add: serve_jetstream_def in_range_def MAX_CONCURRENT_OPERATIONS_def
      sample_broker_def sample_single_permit_def)

text \<open>One handler holds the only permit, and a second message waits.\<close>

definition sample_waiting :: "'s \<Rightarrow> 's durable" where
  "sample_waiting s =
     \<lparr>pull_loop = \<lparr>js_permits = 0, js_handlers = 1, js_waiting = True, js_running = True\<rparr>,
      pulled_message = Some [1],
      worker_tasks = \<lparr>store = s, handlers = [Received []], trace = []\<rparr>\<rparr>"

lemma sample_waiting_reachable:
  "reachable (\<lambda>d. d = start_durable (start_puller 1) s) (durable_step (start_puller 1) w J)
     (sample_waiting s)"
proof -
  let ?R = "reachable (\<lambda>d. d = start_durable (start_puller 1) s) (durable_step (start_puller 1) w J)"
  let ?q = "\<lambda>permits waiting. \<lparr>js_permits = permits, js_handlers = 1 - permits,
    js_waiting = waiting, js_running = True\<rparr>"
  let ?y = "\<lambda>hs. \<lparr>store = s, handlers = hs, trace = []\<rparr>"
  have "?R (start_durable (start_puller 1) s)" by (rule reachable_init) simp
  then have "?R \<lparr>pull_loop = ?q 1 True, pulled_message = Some [], worker_tasks = ?y []\<rparr>"
    by (rule reachable_step)
      (use message [OF pulled, of "start_durable (start_puller 1) s"] in
        \<open>simp add: start_durable_def start_puller_def start_system_def\<close>)
  then have "?R \<lparr>pull_loop = ?q 0 False, pulled_message = None, worker_tasks = ?y [Received []]\<rparr>"
    by (rule reachable_step) (use spawn [OF _ permit_acquired deliver,
        of "\<lparr>pull_loop = ?q 1 True, pulled_message = Some [], worker_tasks = ?y []\<rparr>" "[]"] in simp)
  then have "?R \<lparr>pull_loop = ?q 0 True, pulled_message = Some [1], worker_tasks = ?y [Received []]\<rparr>"
    by (rule reachable_step) (use message [OF pulled,
        of "\<lparr>pull_loop = ?q 0 False, pulled_message = None, worker_tasks = ?y [Received []]\<rparr>"] in simp)
  then show ?thesis by (simp add: sample_waiting_def)
qed

theorem service_runs_its_machines_witness:
  "reachable (\<lambda>y. y = start_system empty_database)
     (system_step sample_worker (sea_orm_journal ChecksFirst sample_digest (w_serde sample_worker)))
     \<lparr>store = empty_database, handlers = [Received []], trace = []\<rparr>"
  using service_runs_its_machines [OF sample_served sample_waiting_reachable,
      of empty_database sample_worker
        "sea_orm_journal ChecksFirst sample_digest (w_serde sample_worker)"]
  by (simp add: sample_waiting_def)

theorem pulled_message_starts_witness:
  "\<exists>i. \<forall>t. \<exists>e. durable_step (start_puller 1) sample_worker
     (sea_orm_journal ChecksFirst sample_digest (w_serde sample_worker))
     (sample_waiting empty_database) (Step i t) e"
  using pulled_message_starts [OF sample_served sample_waiting_reachable _ steps_refl,
      of empty_database "[1]" sample_worker
        "sea_orm_journal ChecksFirst sample_digest (w_serde sample_worker)"]
  by (simp add: sample_waiting_def live_handlers_def sample_single_permit_def)

end
