(* ===== verification/OperationLifecycle.thy ===== *)
theory OperationLifecycle
  imports Server DurableService
begin

text \<open>
  One durable operation from its request to the answer of \<open>route_operation_status\<close>: the
  process that \<open>serve\<close> starts, its running worker and its HTTP routes over one journal.
\<close>

section \<open>One journal\<close>

lemma serve_shares_journal:
  assumes "serve env cfg = (r, tasks)" and "DurableWorker w J c \<in> set tasks"
    and "HttpServer addr app \<in> set tasks"
  shows "app_operation_journal app = Some J"
proof -
  have no_http: "HttpServer addr app \<notin> set ms" "DurableWorker w J c \<notin> set ms"
    if "start_mtls env cfg svc = Ok ms" for svc ms
    using start_mtls_Ok [OF that] by auto
  have no_worker: "HttpServer addr app \<notin> set ws" "DurableWorker w J c \<in> set ws \<Longrightarrow> j = Some J"
    if "start_journal env cfg nats svc = (j, ws)" for nats svc j ws
    using start_journal_tasks [of "HttpServer addr app" env cfg nats svc]
      start_journal_tasks [of "DurableWorker w J c" env cfg nats svc] that by auto
  show ?thesis
    using assms no_http no_worker
    by (auto simp: serve_def Let_def split: sum.splits option.splits prod.splits)
qed

section \<open>What the status route answers\<close>

lemma journal_status_entry:
  assumes "journal_wf db" and "journal_status sd env op s db = Ok (Some x)"
  shows "os_operation_id x = op \<and>
    ((\<exists>h. entry db op = Claimed s h) \<and> os_status x = PROCESSING \<and> os_result x = None \<or>
     (\<exists>h res d v. entry db op = Finished s h res d \<and> os_status x = COMPLETED \<and>
        os_result x = Some v \<and> value_from_str sd res = Some v))"
proof -
  from assms(2) obtain row where "read_status_sql op s db = Some row"
    and x: "os_operation_id x = op" "os_status x = fst row"
      "(snd row = None \<and> os_result x = None) \<or>
       (\<exists>text v. snd row = Some text \<and> value_from_str sd text = Some v \<and> os_result x = Some v)"
    by (auto simp: journal_status_def run_statement_def result_simps split: if_splits option.splits)
  with read_status_refines [OF assms(1), of op s] have "spec_status s (entry db op) = Some row" by simp
  then show ?thesis using x by (cases "entry db op") (auto split: if_splits)
qed

lemma router_status_200:
  assumes "rs_status (fst (router web app env db clk n (GetOperation op h))) = 200"
    and "app_operation_journal app = Some (sea_orm_journal eng digest sd)"
  shows "\<exists>actor x. authorize app h = Ok actor \<and> journal_status sd env op actor db = Ok (Some x) \<and>
    rs_body (fst (router web app env db clk n (GetOperation op h))) =
      json_object [(lit ''ok'', JBool True), (lit ''data'', operation_status_json x)]"
proof (cases "route_operation_status app env db op h")
  case (Inl e)
  with operation_status_error [OF Inl] assms(1) show ?thesis by (auto simp: router_def respond_def)
next
  case (Inr v)
  then show ?thesis using assms(2)
    by (auto simp: router_def respond_def json_response_def route_operation_status_def
        sea_orm_journal_def result_simps split: if_splits)
qed

text \<open>What the running worker of a started process has in its tables.\<close>

lemma running_entries:
  assumes "serve_jetstream b c = Ok p"
    and "reachable (\<lambda>d. d = start_durable p empty_database)
      (durable_step p w (sea_orm_journal eng digest sd)) d"
  shows "journal_wf (store (worker_tasks d))"
    "reachable (\<lambda>y. y = start_system empty_database)
      (system_step w (sea_orm_journal eng digest sd)) (worker_tasks d)"
    "entry (store (worker_tasks d)) op = Claimed u h \<or> entry (store (worker_tasks d)) op = Finished u h res dl \<Longrightarrow>
     \<exists>j. attested w op u j \<and> request_fingerprint digest (str_bytes j) = h \<and>
       (entry (store (worker_tasks d)) op = Finished u h res dl \<longrightarrow> reply_to w j (str_bytes res))"
proof -
  show r: "reachable (\<lambda>y. y = start_system empty_database)
      (system_step w (sea_orm_journal eng digest sd)) (worker_tasks d)"
    by (rule service_tasks.reachable_part [OF assms(2)])
  show "journal_wf (store (worker_tasks d))"
    using sow.tasks.reachable_inv [OF r] by (simp add: sow.system_ok_def)
  show "\<exists>j. attested w op u j \<and> request_fingerprint digest (str_bytes j) = h \<and>
      (entry (store (worker_tasks d)) op = Finished u h res dl \<longrightarrow> reply_to w j (str_bytes res))"
    if "entry (store (worker_tasks d)) op = Claimed u h \<or> entry (store (worker_tasks d)) op = Finished u h res dl"
    using sow.entries_ok [OF r, of op] that by (auto simp: sow.entry_ok_def)
qed

text \<open>Whatever the worker does, and however it is restarted, entries only move forward.\<close>

lemma system_forward:
  assumes "system_step w (sea_orm_journal eng digest sd) y l y'" and "journal_wf (store y)"
  shows "journal_wf (store y') \<and> entry (store y) op \<le> entry (store y') op"
  using assms(1)
proof cases
  case (advance i t g es s')
  from sow.stage_forward [OF assms(2) advance(4)] advance(2) show ?thesis by simp
qed (use assms(2) in simp_all)

lemma system_steps_forward:
  "steps (system_step w (sea_orm_journal eng digest sd)) y ls y' \<Longrightarrow> journal_wf (store y) \<Longrightarrow>
   journal_wf (store y') \<and> entry (store y) op \<le> entry (store y') op"
proof (induction rule: steps.induct)
  case (steps_snoc y ls y1 l y2)
  with system_forward [OF steps_snoc.hyps(2)] show ?case by (blast intro: order_trans)
qed simp

lemma durable_steps_forward:
  "steps (durable_step p w (sea_orm_journal eng digest sd)) d ls d' \<Longrightarrow>
   journal_wf (store (worker_tasks d)) \<Longrightarrow>
   journal_wf (store (worker_tasks d')) \<and>
   entry (store (worker_tasks d)) op \<le> entry (store (worker_tasks d')) op"
proof (induction rule: steps.induct)
  case (steps_snoc d ls d1 l d2)
  from tasks_move [OF steps_snoc.hyps(2)] obtain ms where
    "steps (system_step w (sea_orm_journal eng digest sd)) (worker_tasks d1) ms (worker_tasks d2)" by blast
  with system_steps_forward [OF this] steps_snoc.IH [OF steps_snoc.prems] show ?case
    by (blast intro: order_trans)
qed simp

text \<open>What an entry the caller owns lets the route answer.\<close>

lemma owned_status:
  assumes "journal_wf db" and "owner (entry db op) = Some s"
  shows "journal_status sd env op s db \<noteq> Ok None"
    "journal_status sd env op s db = Ok (Some x) \<Longrightarrow>
     x = (case entry db op of
            Finished _ _ res _ \<Rightarrow>
              \<lparr>os_operation_id = op, os_status = COMPLETED, os_result = value_from_str sd res\<rparr>
          | _ \<Rightarrow> \<lparr>os_operation_id = op, os_status = PROCESSING, os_result = None\<rparr>)"
  using assms(2) unfolding status_owner_isolation [OF assms(1)]
  by (auto simp: result_simps split: journal_entry.splits option.splits)

lemma route_404:
  assumes "rs_status (fst (router web app env db clk n (GetOperation op h))) = 404"
    and "app_operation_journal app = Some (sea_orm_journal eng digest sd)"
    and "authorize app h = Ok actor"
  shows "journal_status sd env op actor db = Ok None"
  using assms
  by (auto simp: router_def respond_def json_response_def route_operation_status_def sea_orm_journal_def
      simple_error_def and_then_def ok_or_def map_err_def split: if_splits sum.splits option.splits)

section \<open>Properties\<close>

text \<open>
  C9: What the HTTP server of a process answers about a durable operation, while its worker
  runs and is restarted over the same journal, is the state of a request of the caller's own:
  one attested under the configured key for the very subject that asks. The answer says either
  that it is processing, or that it is completed with the value of the encoded reply to that
  same request, whose result, if it has one, is the configured client's status.
\<close>

theorem status_answers_own_operation:
  assumes "serve env cfg = (r, tasks)" and "DurableWorker w J c \<in> set tasks"
    and "HttpServer addr app \<in> set tasks" and "serve_jetstream b c = Ok p"
    and "reachable (\<lambda>d. d = start_durable p empty_database) (durable_step p w J) d"
    and "rs_status (fst (router web app f (store (worker_tasks d)) clk n (GetOperation op h))) = 200"
  shows "\<exists>actor key request_json request x. authorize app h = Ok actor \<and>
    operation_attestation_key cfg = Some key \<and>
    operation_from_str (w_serde w) request_json = Some request \<and>
    operation_id (envelope request) = op \<and> subject (envelope request) = actor \<and>
    verify_operation_attestation (w_mac w) (envelope_to_vec (w_serde w)) (str_bytes key)
      (envelope request) (authorization request) = Ok () \<and>
    rs_body (fst (router web app f (store (worker_tasks d)) clk n (GetOperation op h))) =
      json_object [(lit ''ok'', JBool True), (lit ''data'', operation_status_json x)] \<and>
    os_operation_id x = op \<and>
    (os_status x = PROCESSING \<and> os_result x = None \<or>
     os_status x = COMPLETED \<and>
       (\<exists>res now late reply. os_result x = value_from_str (w_serde w) res \<and>
          reply = process_payload (w_serde w) (w_service w) now late (str_bytes request_json) JetStreamAsync \<and>
          reply_to_vec (w_serde w) reply = Some (str_bytes res) \<and>
          (\<forall>v. reply_result reply = Some v \<longrightarrow> (\<exists>yt. youtube cfg = Some yt \<and>
             v = youtube_status_result (client_of yt)))))"
proof -
  obtain service key eng where s: "operation_attestation_key cfg = Some key"
    "w = durable_worker_of env service (str_bytes key)"
    "J = sea_orm_journal eng (env_digest env) (sv_serde (env_service env))"
    using assms(1,2) by (rule serve_tasks) auto
  have w: "w_key w = str_bytes key" "w_serde w = sv_serde (env_service env)"
    by (simp_all add: s(2) durable_worker_of_def)
  let ?db = "store (worker_tasks d)"
  note run = running_entries [OF assms(4) assms(5) [unfolded s(3)]]
  obtain actor x where a: "authorize app h = Ok actor"
      "journal_status (sv_serde (env_service env)) f op actor ?db = Ok (Some x)"
    and body: "rs_body (fst (router web app f ?db clk n (GetOperation op h))) =
      json_object [(lit ''ok'', JBool True), (lit ''data'', operation_status_json x)]"
    using router_status_200 [OF assms(6)] serve_shares_journal [OF assms(1-3)] s(3) by blast
  obtain j where j: "attested w op actor j" and x: "os_operation_id x = op"
    "os_status x = PROCESSING \<and> os_result x = None \<or>
     os_status x = COMPLETED \<and>
       (\<exists>res. os_result x = value_from_str (w_serde w) res \<and> reply_to w j (str_bytes res))"
    using journal_status_entry [OF run(1) a(2)] run(3) [of op actor] unfolding w(2) by metis
  obtain now request where q: "operation_from_str (w_serde w) j = Some request"
    "operation_id (envelope request) = op" "subject (envelope request) = actor"
    "verify_operation_attestation (w_mac w) (envelope_to_vec (w_serde w)) (str_bytes key)
      (envelope request) (authorization request) = Ok ()"
    using j by (auto simp: attested_def admit_message_Some_iff is_ok_iff w(1))
  have "\<exists>now late reply. reply = process_payload (w_serde w) (w_service w) now late (str_bytes j) JetStreamAsync \<and>
      reply_to_vec (w_serde w) reply = Some (str_bytes res) \<and>
      (\<forall>v. reply_result reply = Some v \<longrightarrow> (\<exists>yt. youtube cfg = Some yt \<and>
         v = youtube_status_result (client_of yt)))" if "reply_to w j (str_bytes res)" for res
    using that reply_authentic [OF assms(1,2) s(1), of _ _ "str_bytes j"] unfolding reply_to_def by metis
  with x(2) have "os_status x = PROCESSING \<and> os_result x = None \<or>
     os_status x = COMPLETED \<and>
       (\<exists>res now late reply. os_result x = value_from_str (w_serde w) res \<and>
          reply = process_payload (w_serde w) (w_service w) now late (str_bytes j) JetStreamAsync \<and>
          reply_to_vec (w_serde w) reply = Some (str_bytes res) \<and>
          (\<forall>v. reply_result reply = Some v \<longrightarrow> (\<exists>yt. youtube cfg = Some yt \<and>
             v = youtube_status_result (client_of yt))))" by metis
  with a(1) s(1) q body x(1) show ?thesis by blast
qed

text \<open>
  C10: What a caller has been told of an operation stays told, whatever the worker does next
  and however often the process ends and starts again: asked later by the same caller, the
  route never answers that the operation does not exist, and if it answers at all, either it
  says the same or the earlier answer was that the operation is processing.
\<close>

theorem told_status_stays_told:
  assumes "serve env cfg = (r, tasks)" and "DurableWorker w J c \<in> set tasks"
    and "HttpServer addr app \<in> set tasks" and "serve_jetstream b c = Ok p"
    and "reachable (\<lambda>d. d = start_durable p empty_database) (durable_step p w J) d"
    and "steps (durable_step p w J) d events d'"
    and "authorize app h' = authorize app h"
    and told: "fst (router web app f (store (worker_tasks d)) clk n (GetOperation op h)) = answer"
      "rs_status answer = 200"
    and later: "fst (router web app f' (store (worker_tasks d')) clk' n' (GetOperation op h')) = answer'"
  shows "rs_status answer' \<noteq> 404 \<and>
    (rs_status answer' = 200 \<longrightarrow>
       rs_body answer' = rs_body answer \<or>
       rs_body answer = json_object [(lit ''ok'', JBool True),
         (lit ''data'', operation_status_json
           \<lparr>os_operation_id = op, os_status = PROCESSING, os_result = None\<rparr>)])"
proof -
  obtain service key eng where s: "J = sea_orm_journal eng (env_digest env) (sv_serde (env_service env))"
    using assms(1,2) by (rule serve_tasks) auto
  let ?sd = "sv_serde (env_service env)"
  let ?db = "store (worker_tasks d)" and ?db' = "store (worker_tasks d')"
  have j: "app_operation_journal app = Some (sea_orm_journal eng (env_digest env) ?sd)"
    using serve_shares_journal [OF assms(1-3)] s by simp
  have wf: "journal_wf ?db" by (rule running_entries(1) [OF assms(4) assms(5) [unfolded s]])
  have fwd: "journal_wf ?db'" "entry ?db op \<le> entry ?db' op"
    using durable_steps_forward [OF assms(6) [unfolded s] wf] by blast+
  obtain actor x where a: "authorize app h = Ok actor" "journal_status ?sd f op actor ?db = Ok (Some x)"
    and body: "rs_body answer = json_object [(lit ''ok'', JBool True), (lit ''data'', operation_status_json x)]"
    using router_status_200 [OF told(2) [folded told(1)] j] told(1) by blast
  have own: "owner (entry ?db op) = Some actor"
    using journal_status_entry [OF wf a(2)] by auto
  then have own': "owner (entry ?db' op) = Some actor" by (rule owner_mono [OF fwd(2)])
  have "rs_status answer' \<noteq> 404"
    using route_404 [OF _ j, of web f' ?db' clk' n' op h' actor] owned_status(1) [OF fwd(1) own']
      a(1) assms(7) later by auto
  moreover have "rs_body answer' = rs_body answer \<or> x = \<lparr>os_operation_id = op, os_status = PROCESSING, os_result = None\<rparr>"
    if ok: "rs_status answer' = 200"
  proof -
    obtain x' where x': "journal_status ?sd f' op actor ?db' = Ok (Some x')"
      and body': "rs_body answer' = json_object [(lit ''ok'', JBool True), (lit ''data'', operation_status_json x')]"
      using router_status_200 [OF ok [folded later] j] later assms(7) a(1) by auto
    have x: "x = \<lparr>os_operation_id = op, os_status = PROCESSING, os_result = None\<rparr> \<or> x' = x"
      using owned_status(2) [OF wf own a(2)] owned_status(2) [OF fwd(1) own' x'] fwd(2) own
      by (cases "entry ?db op") (auto dest: finished_mono)
    with body body' show ?thesis by auto
  qed
  ultimately show ?thesis using body by auto
qed

section \<open>A running operation\<close>

lemma sample_request_envelope: "envelope sample_request = sample_envelope"
  by (simp add: sample_request_def)

text \<open>A message pulled, handed to a handler, admitted and claimed.\<close>

lemma sample_running:
  fixes svc :: service and sd :: serde
  defines "w \<equiv> sample_worker\<lparr>w_service := svc\<rparr>"
    and "J \<equiv> sea_orm_journal ConflictFirst sample_digest sd"
  shows "\<exists>d. reachable (\<lambda>d. d = start_durable (start_puller 32) empty_database)
      (durable_step (start_puller 32) w J) d \<and>
    entry (store (worker_tasks d)) sample_id = Claimed (subject sample_envelope) sample_hash"
proof -
  let ?R = "reachable (\<lambda>d. d = start_durable (start_puller 32) empty_database)
    (durable_step (start_puller 32) w J)"
  let ?q = "\<lambda>permits waiting. \<lparr>js_permits = permits, js_handlers = 32 - permits,
    js_waiting = waiting, js_running = True\<rparr>"
  let ?y = "\<lambda>s hs. \<lparr>store = s, handlers = hs, trace = []\<rparr>"
  let ?run = "\<lambda>s g. \<lparr>pull_loop = ?q 31 False, pulled_message = None, worker_tasks = ?y s [g]\<rparr>"
  have admitted: "admit_message w 1 [] = Some ([], sample_request)"
    using sample_admitted unfolding w_def admit_message_service .
  have checks: "claim_checks sample_id (subject (envelope sample_request)) (request_fingerprint sample_digest (str_bytes []))"
    using admitted sample_digest_length by (rule admitted_claim_checks)
  have healthy: "healthy (at_fault sample_moment)"
    by (simp add: sample_moment_def healthy_def calm_def)
  obtain db where c: "claim ConflictFirst sample_digest (at_fault sample_moment) sample_id
      (subject (envelope sample_request)) [] empty_database = (Ok New, db)"
    and e: "entry db sample_id = Claimed (subject (envelope sample_request)) (request_fingerprint sample_digest (str_bytes []))"
    using journal_wf_empty sample_unknown healthy checks by (rule claim_healthy_forward)
  have "?R (start_durable (start_puller 32) empty_database)" by (rule reachable_init) simp
  then have "?R \<lparr>pull_loop = ?q 32 True, pulled_message = Some [], worker_tasks = ?y empty_database []\<rparr>"
    by (rule reachable_step)
      (use message [OF pulled, of "start_durable (start_puller 32) empty_database"] in
        \<open>simp add: start_durable_def start_puller_def start_system_def\<close>)
  then have "?R (?run empty_database (Received []))"
    by (rule reachable_step) (use spawn [OF _ permit_acquired deliver,
        of "\<lparr>pull_loop = ?q 32 True, pulled_message = Some [], worker_tasks = ?y empty_database []\<rparr>" "[]"] in simp)
  then have "?R (?run empty_database (Claiming [] [] sample_request))"
  proof (rule reachable_step)
    have "stage_step w J sample_moment (Received []) empty_database = (Claiming [] [] sample_request, [], empty_database)"
      using admitted by (simp add: sample_moment_def)
    then show "durable_step (start_puller 32) w J (?run empty_database (Received [])) (Step 0 sample_moment)
        (?run empty_database (Claiming [] [] sample_request))"
      using resume [OF _ advance, of "?run empty_database (Received [])" 0 w J sample_moment] by simp
  qed
  then have "?R (?run db (Executing sample_id []))"
  proof (rule reachable_step)
    have "stage_step w J sample_moment (Claiming [] [] sample_request) empty_database = (Executing sample_id [], [], db)"
      using c by (simp add: J_def sea_orm_journal_def)
    then show "durable_step (start_puller 32) w J (?run empty_database (Claiming [] [] sample_request))
        (Step 0 sample_moment) (?run db (Executing sample_id []))"
      using resume [OF _ advance, of "?run empty_database (Claiming [] [] sample_request)" 0 w J sample_moment] by simp
  qed
  moreover have "entry (store (worker_tasks (?run db (Executing sample_id [])))) sample_id =
      Claimed (subject sample_envelope) sample_hash"
    using e unfolding sample_hash_def sample_request_envelope by simp
  ultimately show ?thesis by (intro exI [of _ "?run db (Executing sample_id [])"] conjI)
qed

lemma sample_started:
  "\<exists>svc app tasks. serve sample_serve_env Server.sample_config = (Ok (), tasks) \<and>
     DurableWorker (durable_worker_of sample_serve_env svc (str_bytes (replicate 32 97)))
       (sea_orm_journal ConflictFirst sample_digest (sv_serde (sample_service_env sample_request)))
       default_jet_stream_config \<in> set tasks \<and>
     HttpServer (bind_address 8080) app \<in> set tasks \<and>
     app_shared_auth app = Some \<lparr>introspect = introspect sample_verifier, verifier_audience = lit ''act-api''\<rparr>"
  by (simp add: serve_def build_youtube_def build_verifier_def new_verifier_def start_mtls_def
      start_journal_def operation_service_of_def Server.sample_config_def sample_serve_env_def
      nats_connect_def Let_def)
    (intro exI conjI disjI2; simp; fail)

lemma sample_id_valid: "valid_operation_id sample_id"
  by (simp add: valid_operation_id_def sample_request_envelope sample_envelope_def ascii_str_len ascii_def
      lit_def is_control_def no_whitespace_trim is_whitespace_def)

lemma claimed_status:
  assumes "journal_wf db" and "entry db op = Claimed s h"
  shows "journal_status sd (calm t) op s db =
    Ok (Some \<lparr>os_operation_id = op, os_status = PROCESSING, os_result = None\<rparr>)"
  using read_status_refines [OF assms(1), of op s] assms(2)
  by (simp add: journal_status_def run_statement_def calm_def)

text \<open>A started process whose worker has claimed the operation, asked by its owner.\<close>

lemma sample_told:
  fixes J :: "(db_env, database) operation_journal"
  defines "J \<equiv> sea_orm_journal ConflictFirst sample_digest (sv_serde (sample_service_env sample_request))"
  obtains w app tasks d where "serve sample_serve_env Server.sample_config = (Ok (), tasks)"
    "DurableWorker w J default_jet_stream_config \<in> set tasks"
    "HttpServer (bind_address 8080) (app :: unit app_state) \<in> set tasks"
    "serve_jetstream sample_broker default_jet_stream_config = Ok (start_puller 32)"
    "reachable (\<lambda>d. d = start_durable (start_puller 32) empty_database) (durable_step (start_puller 32) w J) d"
    "rs_status (fst (router sample_web app (calm 5) (store (worker_tasks d)) sample_clock 0
      (GetOperation sample_id sample_headers))) = 200"
proof -
  obtain svc app tasks where s: "serve sample_serve_env Server.sample_config = (Ok (), tasks)"
    and w: "DurableWorker (durable_worker_of sample_serve_env svc (str_bytes (replicate 32 97))) J
       default_jet_stream_config \<in> set tasks"
    and app: "HttpServer (bind_address 8080) app \<in> set tasks"
      "app_shared_auth app = Some \<lparr>introspect = introspect sample_verifier, verifier_audience = lit ''act-api''\<rparr>"
    using sample_started unfolding J_def by blast
  have j: "serve_jetstream sample_broker default_jet_stream_config = Ok (start_puller 32)"
    by (simp add: serve_jetstream_def in_range_def MAX_CONCURRENT_OPERATIONS_def sample_broker_def
        default_jet_stream_config_def)
  obtain d where d: "reachable (\<lambda>d. d = start_durable (start_puller 32) empty_database)
      (durable_step (start_puller 32) (durable_worker_of sample_serve_env svc (str_bytes (replicate 32 97))) J) d"
    and e: "entry (store (worker_tasks d)) sample_id = Claimed (subject sample_envelope) sample_hash"
    unfolding sample_durable_worker J_def using sample_running by blast
  have "verify \<lparr>introspect = introspect sample_verifier, verifier_audience = lit ''act-api''\<rparr>
      sample_headers YOUTUBE_ADMIN_SCOPES = Ok (lit ''shared-user-1'')"
    using sample_verified [of YOUTUBE_ADMIN_SCOPES] by (simp add: sample_verifier_def)
  then have a: "authorize app sample_headers = Ok (lit ''shared-user-1'')"
    by (simp add: authorize_Ok_iff app(2))
  have "subject sample_envelope = lit ''shared-user-1''" by (simp add: sample_envelope_def)
  with e have c: "entry (store (worker_tasks d)) sample_id = Claimed (lit ''shared-user-1'') sample_hash" by simp
  have "rs_status (fst (router sample_web app (calm 5) (store (worker_tasks d)) sample_clock 0
      (GetOperation sample_id sample_headers))) = 200"
    using serve_shares_journal [OF s w app(1)] a sample_id_valid
      claimed_status [OF running_entries(1) [OF j d [unfolded J_def]] c]
    by (simp add: router_def route_operation_status_def respond_def json_response_def
        sea_orm_journal_def J_def)
  with s w app(1) j d show thesis by (rule that)
qed

theorem status_answers_own_operation_witness:
  "\<exists>app :: unit app_state. \<exists>actor. \<exists>request :: authenticated_operation.
     authorize app sample_headers = Ok actor \<and>
     operation_id (envelope request) = sample_id \<and> subject (envelope request) = actor"
  by (rule sample_told, drule (5) status_answers_own_operation) blast

text \<open>The process ends and starts again, and the caller asks once more.\<close>

theorem told_status_stays_told_witness:
  "\<exists>w d d'. \<exists>app :: unit app_state.
     durable_step (start_puller 32) w (sea_orm_journal ConflictFirst sample_digest
       (sv_serde (sample_service_env sample_request))) d Restart d' \<and>
     rs_status (fst (router sample_web app (calm 5) (store (worker_tasks d)) sample_clock 0
       (GetOperation sample_id sample_headers))) = 200 \<and>
     rs_status (fst (router sample_web app (calm 6) (store (worker_tasks d')) sample_clock 1
       (GetOperation sample_id sample_headers))) \<noteq> 404"
proof (rule sample_told)
  fix w :: worker and app :: "unit app_state" and tasks d
  let ?J = "sea_orm_journal ConflictFirst sample_digest (sv_serde (sample_service_env sample_request))"
  assume s: "serve sample_serve_env Server.sample_config = (Ok (), tasks)"
    "DurableWorker w ?J default_jet_stream_config \<in> set tasks" "HttpServer (bind_address 8080) app \<in> set tasks"
    "serve_jetstream sample_broker default_jet_stream_config = Ok (start_puller 32)"
    "reachable (\<lambda>d. d = start_durable (start_puller 32) empty_database) (durable_step (start_puller 32) w ?J) d"
    and told: "rs_status (fst (router sample_web app (calm 5) (store (worker_tasks d)) sample_clock 0
      (GetOperation sample_id sample_headers))) = 200"
  obtain d' where st: "durable_step (start_puller 32) w ?J d Restart d'"
    using restart [of "start_puller 32" w ?J d] by blast
  then obtain ls where "steps (durable_step (start_puller 32) w ?J) d ls d'"
    using steps_one [of "durable_step (start_puller 32) w ?J" d] by blast
  from told_status_stays_told [OF s this refl refl told refl, of "calm 6" sample_clock 1] st told
  show ?thesis by blast
qed

end
