(* ===== verification/AppsScript.thy ===== *)
theory AppsScript
  imports Attestation
begin

text \<open>
  The Apps Script web app under \<open>apps-script/src\<close>, the upstream of the YouTube client, as
  far as its HTTP boundary and its two publishing actions go: the string helpers of
  \<open>01_Utils.gs\<close>, the policy table, the API key, \<open>handleHttpRequest_\<close> and
  \<open>dispatchAction_\<close> of \<open>02_WebApp.gs\<close>, and \<open>publishVideo_\<close> and
  \<open>createPlaylist_\<close> of \<open>05_YouTubeService.gs\<close>. A value of the script is the JSON value
  it was parsed from, with None for an undefined one; a thrown error is the left side of a
  result. The services of Google, the clock and the rendering of numbers and dates are
  arguments.
\<close>

section \<open>Values and strings\<close>

text \<open>An error thrown by \<open>fail_\<close>, with its message and code, or by the language.\<close>

datatype js_error = Failed ustr ustr | TypeError

abbreviation fail :: "ustr \<Rightarrow> string \<Rightarrow> (js_error, 'a) result" where
  "fail message code \<equiv> Err (Failed message (lit code))"

text \<open>\<open>error && error.code ? String(error.code) : 'UNEXPECTED_ERROR'\<close>\<close>

fun error_code :: "js_error \<Rightarrow> ustr" where
  "error_code (Failed _ code) = code"
| "error_code TypeError = lit ''UNEXPECTED_ERROR''"

record yt_channel =
  ch_id :: ustr
  ch_custom_url :: "ustr option"

record yt_video =
  vd_channel_id :: ustr
  vd_status :: jmap

record gas_env =
  script_property :: "ustr \<Rightarrow> ustr option"
  sha256 :: "u8 list \<Rightarrow> u8 list"
  number_text :: "ustr \<Rightarrow> ustr"
  number_truthy :: "ustr \<Rightarrow> bool"
  other_lower_case :: "ustr \<Rightarrow> ustr"
  other_upper_case :: "ustr \<Rightarrow> ustr"
  parse_date :: "json \<Rightarrow> (js_error, int option) result"
  iso_string :: "int \<Rightarrow> ustr"
  date_now :: int
  channels_list :: "(js_error, yt_channel option) result"
  videos_list :: "ustr \<Rightarrow> (js_error, yt_video option) result"
  videos_update :: "ustr \<Rightarrow> jmap \<Rightarrow> (js_error, json) result"
  playlists_insert :: "ustr \<Rightarrow> ustr \<Rightarrow> ustr option \<Rightarrow> ustr \<Rightarrow> (js_error, ustr \<times> json) result"

text \<open>
  \<open>String(value)\<close>. An array joins its elements, null as nothing; an object is a fixed text
  unless it has a field named \<open>toString\<close>, which hides the method and is none itself.
\<close>

fun js_join :: "ustr list \<Rightarrow> ustr" where
  "js_join [] = []"
| "js_join [s] = s"
| "js_join (s # t # r) = s @ [44] @ js_join (t # r)"

fun js_string :: "gas_env \<Rightarrow> json \<Rightarrow> (js_error, ustr) result"
and js_elements :: "gas_env \<Rightarrow> json list \<Rightarrow> (js_error, ustr list) result" where
  "js_string gs JNull = Ok (lit ''null'')"
| "js_string gs (JBool b) = Ok (if b then lit ''true'' else lit ''false'')"
| "js_string gs (JNumber n) = Ok (number_text gs n)"
| "js_string gs (JString s) = Ok s"
| "js_string gs (JArray vs) = and_then (js_elements gs vs) (\<lambda>ss. Ok (js_join ss))"
| "js_string gs (JObject m) =
     (if obj_get m (lit ''toString'') = None then Ok (lit ''[object Object]'') else Err TypeError)"
| "js_elements gs [] = Ok []"
| "js_elements gs (v # vs) =
     and_then (if v = JNull then Ok [] else js_string gs v) (\<lambda>s.
     and_then (js_elements gs vs) (\<lambda>ss. Ok (s # ss)))"

definition js_truthy :: "gas_env \<Rightarrow> json option \<Rightarrow> bool" where
  "js_truthy gs v \<longleftrightarrow>
     (case v of
        None \<Rightarrow> False
      | Some JNull \<Rightarrow> False
      | Some (JBool b) \<Rightarrow> b
      | Some (JNumber n) \<Rightarrow> number_truthy gs n
      | Some (JString s) \<Rightarrow> s \<noteq> []
      | Some _ \<Rightarrow> True)"

text \<open>\<open>a || b\<close>, and \<open>payload && payload.k\<close>.\<close>

definition js_or :: "gas_env \<Rightarrow> json option \<Rightarrow> json \<Rightarrow> json" where
  "js_or gs v d = (case v of Some x \<Rightarrow> if js_truthy gs v then x else d | None \<Rightarrow> d)"

text \<open>A field of a value that is not null: only objects have the fields asked for.\<close>

definition js_get :: "json \<Rightarrow> string \<Rightarrow> json option" where
  "js_get v k = (case v of JObject m \<Rightarrow> obj_get m (lit k) | _ \<Rightarrow> None)"

definition js_and_get :: "gas_env \<Rightarrow> json \<Rightarrow> string \<Rightarrow> json option" where
  "js_and_get gs v k = (if js_truthy gs (Some v) then js_get v k else Some v)"

text \<open>White space as \<open>trim()\<close> sees it, and the code units \<open>length\<close> counts.\<close>

definition js_whitespace :: "nat \<Rightarrow> bool" where
  "js_whitespace c \<longleftrightarrow>
     (9 \<le> c \<and> c \<le> 13) \<or> c = 32 \<or> c = 160 \<or> c = 5760 \<or> (8192 \<le> c \<and> c \<le> 8202) \<or>
     c = 8232 \<or> c = 8233 \<or> c = 8239 \<or> c = 8287 \<or> c = 12288 \<or> c = 65279"

definition js_trim :: "ustr \<Rightarrow> ustr" where
  "js_trim s = rev (dropWhile js_whitespace (rev (dropWhile js_whitespace s)))"

definition utf16 :: "ustr \<Rightarrow> nat list" where
  "utf16 s = concat (map (\<lambda>c. if c < 65536 then [c]
     else [55296 + (c - 65536) div 1024, 56320 + (c - 65536) mod 1024]) s)"

text \<open>
  \<open>toLowerCase()\<close> and \<open>toUpperCase()\<close>: on ASCII and white space the ASCII letters
  change and nothing else does; the case tables of the rest of Unicode are arguments.
\<close>

definition plain_char :: "nat \<Rightarrow> bool" where
  "plain_char c \<longleftrightarrow> c < 128 \<or> js_whitespace c \<or> is_whitespace c"

definition toLowerCase :: "gas_env \<Rightarrow> ustr \<Rightarrow> ustr" where
  "toLowerCase gs s = (if list_all plain_char s then to_ascii_lowercase s else other_lower_case gs s)"

definition toUpperCase :: "gas_env \<Rightarrow> ustr \<Rightarrow> ustr" where
  "toUpperCase gs s = (if list_all plain_char s then to_ascii_uppercase s else other_upper_case gs s)"

text \<open>\<open>String(value === undefined || value === null ? '' : value)\<close>\<close>

definition js_text :: "gas_env \<Rightarrow> json option \<Rightarrow> (js_error, ustr) result" where
  "js_text gs v = (if v = None \<or> v = Some JNull then Ok [] else js_string gs (the v))"

definition requiredString ::
  "gas_env \<Rightarrow> json option \<Rightarrow> string \<Rightarrow> nat \<Rightarrow> (js_error, ustr) result" where
  "requiredString gs v field maxLength =
     and_then (js_text gs v) (\<lambda>s.
     let t = js_trim s in
     if t = [] then fail (lit field @ lit '' is required.'') ''VALIDATION_ERROR''
     else if maxLength \<noteq> 0 \<and> length (utf16 t) > maxLength
     then fail (lit field @ lit '' exceeds '' @ show_nat maxLength @ lit '' characters.'') ''VALIDATION_ERROR''
     else Ok t)"

definition optionalString :: "gas_env \<Rightarrow> json option \<Rightarrow> nat \<Rightarrow> (js_error, ustr) result" where
  "optionalString gs v maxLength =
     and_then (js_text gs v) (\<lambda>s.
     let t = js_trim s in
     if maxLength \<noteq> 0 \<and> length (utf16 t) > maxLength
     then fail (lit ''Value exceeds '' @ show_nat maxLength @ lit '' characters.'') ''VALIDATION_ERROR''
     else Ok t)"

definition getConfigValue :: "gas_env \<Rightarrow> string \<Rightarrow> ustr \<Rightarrow> ustr" where
  "getConfigValue gs key fallback =
     (case script_property gs (lit key) of None \<Rightarrow> fallback | Some v \<Rightarrow> if v = [] then fallback else v)"

definition isTrue :: "gas_env \<Rightarrow> ustr \<Rightarrow> bool" where
  "isTrue gs v \<longleftrightarrow> toLowerCase gs v = lit ''true''"

definition sha256Hex :: "gas_env \<Rightarrow> ustr \<Rightarrow> ustr" where
  "sha256Hex gs t = encode_hex (sha256 gs (str_bytes t))"

definition constantTimeEquals :: "ustr \<Rightarrow> ustr \<Rightarrow> bool" where
  "constantTimeEquals left right \<longleftrightarrow>
     length (utf16 left) = length (utf16 right) \<and>
     foldl (\<lambda>acc (a, b). or acc (xor a b)) 0 (zip (utf16 left) (utf16 right)) = 0"

section \<open>The HTTP boundary\<close>

datatype http_policy = PublicPolicy | ReadPolicy | MutatePolicy | OwnerPolicy | InheritedPolicy

text \<open>
  The policy table. A plain object also answers for the names of \<open>Object.prototype\<close>, with a
  value that is none of the policies.
\<close>

definition OBJECT_PROTOTYPE :: "ustr list" where
  "OBJECT_PROTOTYPE = map lit [''constructor'', ''hasOwnProperty'', ''isPrototypeOf'',
     ''propertyIsEnumerable'', ''toLocaleString'', ''toString'', ''valueOf'', ''__proto__'',
     ''__defineGetter__'', ''__defineSetter__'', ''__lookupGetter__'', ''__lookupSetter__'']"

definition READ_ACTIONS :: "ustr list" where
  "READ_ACTIONS = map lit [''channel'', ''videos'', ''analytics'', ''jobs'', ''partnerStatus'',
     ''partnerOwners'', ''partnerClaims'', ''adminStatus'', ''workspaceUsers'']"

definition MUTATE_ACTIONS :: "ustr list" where
  "MUTATE_ACTIONS = map lit [''exportAnalytics'', ''ingestVideo'', ''startUpload'', ''processUpload'',
     ''processAllUploads'', ''publishVideo'', ''updateVideo'', ''createPlaylist'', ''addToPlaylist'',
     ''ingestGmail'', ''sendDigest'']"

definition HTTP_ACTION_POLICY :: "ustr \<Rightarrow> http_policy option" where
  "HTTP_ACTION_POLICY a =
     (if a = lit ''health'' then Some PublicPolicy
      else if a \<in> set READ_ACTIONS then Some ReadPolicy
      else if a \<in> set MUTATE_ACTIONS then Some MutatePolicy
      else if a \<in> set OBJECT_PROTOTYPE then Some InheritedPolicy
      else None)"

definition UI_ONLY_ACTIONS :: "ustr list" where
  "UI_ONLY_ACTIONS = map lit [''bootstrap'', ''setup'', ''rotateApiKey'', ''saveConfig'']"

definition ui_only :: "ustr \<Rightarrow> bool" where
  "ui_only a \<longleftrightarrow> a \<in> set UI_ONLY_ACTIONS \<or> a \<in> set OBJECT_PROTOTYPE"

definition has_handler :: "ustr \<Rightarrow> bool" where
  "has_handler a \<longleftrightarrow> HTTP_ACTION_POLICY a \<noteq> None \<or> a \<in> set UI_ONLY_ACTIONS"

definition assertApiKey :: "gas_env \<Rightarrow> json option \<Rightarrow> (js_error, unit) result" where
  "assertApiKey gs provided =
     (let expectedHash = getConfigValue gs ''API_KEY_HASH'' [] in
      if expectedHash = []
      then fail (lit ''HTTP API key is not configured. Rotate one in the owner web UI.'') ''API_KEY_NOT_CONFIGURED''
      else and_then (requiredString gs provided ''apiKey'' 300) (\<lambda>k.
        if \<not> constantTimeEquals (sha256Hex gs k) expectedHash
        then fail (lit ''Invalid API key.'') ''UNAUTHORIZED'' else Ok ()))"

text \<open>What a request does to the outside: its audit records and its calls to YouTube.\<close>

datatype gas_effect =
    AuditLog ustr jmap
  | VideosUpdate ustr jmap
  | PlaylistsInsert ustr ustr "ustr option" ustr

type_synonym handled = "(js_error, json) result \<times> gas_effect list"

section \<open>Videos and playlists\<close>

definition VIDEO_PRIVACY_VALUES :: "ustr list" where
  "VIDEO_PRIVACY_VALUES = map lit [''private'', ''unlisted'', ''public'']"

definition allow_public_uploads :: "gas_env \<Rightarrow> bool" where
  "allow_public_uploads gs \<longleftrightarrow> isTrue gs (getConfigValue gs ''ALLOW_PUBLIC_UPLOADS'' (lit ''false''))"

definition getMyChannel :: "gas_env \<Rightarrow> (js_error, yt_channel) result" where
  "getMyChannel gs =
     and_then (channels_list gs) (\<lambda>found.
     case found of
       None \<Rightarrow> fail (lit ''No YouTube channel is associated with the authorized Google account.'') ''CHANNEL_NOT_FOUND''
     | Some ch \<Rightarrow> Ok ch)"

text \<open>The replaced pattern is a scheme, \<open>www.\<close> or not, and the host with its slash.\<close>

fun strip_first :: "string list \<Rightarrow> ustr \<Rightarrow> ustr" where
  "strip_first [] s = s"
| "strip_first (p # ps) s =
     (if take (length p) s = lit p then drop (length p) s else strip_first ps s)"

definition normalizeHandle :: "gas_env \<Rightarrow> ustr option \<Rightarrow> ustr" where
  "normalizeHandle gs v =
     strip_first [''http://www.youtube.com/'', ''https://www.youtube.com/'',
                  ''http://youtube.com/'', ''https://youtube.com/'']
       (toLowerCase gs (js_trim (case v of None \<Rightarrow> [] | Some s \<Rightarrow> s)))"

text \<open>The check of the channel as the requests of the client make it, which never captures an id.\<close>

record channel_verification =
  cv_expected_handle :: ustr
  cv_actual_handle :: ustr
  cv_channel_id :: ustr
  cv_warned :: bool

definition assertExpectedChannel ::
  "gas_env \<Rightarrow> yt_channel \<Rightarrow> (js_error, channel_verification) result" where
  "assertExpectedChannel gs ch =
     (let expectedHandle = normalizeHandle gs
            (Some (getConfigValue gs ''EXPECTED_CHANNEL_HANDLE'' (lit ''@anticaptrad'')));
          expectedId = getConfigValue gs ''EXPECTED_CHANNEL_ID'' [];
          actualHandle = normalizeHandle gs (ch_custom_url ch);
          actualId = ch_id ch
      in if expectedId \<noteq> [] \<and> actualId \<noteq> expectedId
         then fail (lit ''Authorized channel ID does not match the configured Anticaptrad channel.'') ''WRONG_CHANNEL''
         else if expectedHandle \<noteq> [] \<and> actualHandle \<noteq> [] \<and> expectedHandle \<noteq> actualHandle
         then fail (lit ''Authorized channel handle does not match the configured Anticaptrad handle.'') ''WRONG_CHANNEL''
         else Ok \<lparr>cv_expected_handle = expectedHandle, cv_actual_handle = actualHandle,
                   cv_channel_id = actualId, cv_warned = (expectedHandle \<noteq> [] \<and> actualHandle = [])\<rparr>)"

text \<open>The two ways a field is carried over: when it is there, and when it is truthy.\<close>

definition copy_defined :: "jmap \<Rightarrow> string \<Rightarrow> jmap \<Rightarrow> jmap" where
  "copy_defined src k m = (case obj_get src (lit k) of None \<Rightarrow> m | Some v \<Rightarrow> obj_insert (lit k) v m)"

definition copy_truthy :: "gas_env \<Rightarrow> jmap \<Rightarrow> string \<Rightarrow> jmap \<Rightarrow> jmap" where
  "copy_truthy gs src k m = (if js_truthy gs (obj_get src (lit k)) then copy_defined src k m else m)"

definition mutableVideoStatus :: "gas_env \<Rightarrow> jmap \<Rightarrow> jmap" where
  "mutableVideoStatus gs st =
     copy_truthy gs st ''publishAt''
       (copy_defined st ''selfDeclaredMadeForKids''
         (copy_defined st ''publicStatsViewable''
           (copy_truthy gs st ''license''
             (copy_defined st ''embeddable''
               (obj_insert (lit ''privacyStatus'')
                  (js_or gs (obj_get st (lit ''privacyStatus'')) (JString (lit ''private''))) [])))))"

definition expected_confirmation :: "gas_env \<Rightarrow> ustr \<Rightarrow> ustr \<Rightarrow> ustr" where
  "expected_confirmation gs videoId privacyStatus =
     lit ''PUBLISH '' @ videoId @ lit '' AS '' @ toUpperCase gs privacyStatus"

text \<open>The part of a publication before its first call: what it asks of the payload.\<close>

definition publication_request :: "gas_env \<Rightarrow> json \<Rightarrow> (js_error, ustr \<times> ustr) result" where
  "publication_request gs body =
     and_then (requiredString gs (js_get body ''videoId'') ''videoId'' 100) (\<lambda>videoId.
     and_then (requiredString gs (js_get body ''privacyStatus'') ''privacyStatus'' 20) (\<lambda>raw.
     let privacyStatus = toLowerCase gs raw in
     if privacyStatus \<notin> set VIDEO_PRIVACY_VALUES
     then fail (lit ''privacyStatus must be private, unlisted, or public.'') ''VALIDATION_ERROR''
     else if privacyStatus \<noteq> lit ''private'' \<and> \<not> allow_public_uploads gs
     then fail (lit ''Public and unlisted publishing is disabled in configuration.'') ''PUBLICATION_DISABLED''
     else
       and_then (js_string gs (js_or gs (js_get body ''confirmation'') (JString []))) (\<lambda>confirmation.
       if confirmation \<noteq> expected_confirmation gs videoId privacyStatus
       then fail (lit ''Exact confirmation phrase required: '' @
                  expected_confirmation gs videoId privacyStatus) ''CONFIRMATION_REQUIRED''
       else Ok (videoId, privacyStatus))))"

definition owned_video :: "gas_env \<Rightarrow> ustr \<Rightarrow> (js_error, yt_video) result" where
  "owned_video gs videoId =
     and_then (videos_list gs videoId) (\<lambda>found.
     case found of
       None \<Rightarrow> fail (lit ''Video not found.'') ''VIDEO_NOT_FOUND''
     | Some video \<Rightarrow>
         and_then (getMyChannel gs) (\<lambda>ch.
         and_then (assertExpectedChannel gs ch) (\<lambda>_.
         if vd_channel_id video \<noteq> ch_id ch
         then fail (lit ''Video is not owned by the configured channel.'') ''WRONG_CHANNEL''
         else Ok video)))"

definition scheduled_status ::
  "gas_env \<Rightarrow> json option \<Rightarrow> ustr \<Rightarrow> jmap \<Rightarrow> (js_error, jmap) result" where
  "scheduled_status gs publishAt privacyStatus status =
     (case publishAt of
        Some at \<Rightarrow>
          if js_truthy gs publishAt
          then if privacyStatus \<noteq> lit ''private''
               then fail (lit ''Scheduled publication requires privacyStatus=private.'') ''VALIDATION_ERROR''
               else and_then (parse_date gs at) (\<lambda>scheduled.
                 case scheduled of
                   Some t \<Rightarrow>
                     if t \<le> date_now gs
                     then fail (lit ''publishAt must be a valid future date-time.'') ''VALIDATION_ERROR''
                     else Ok (obj_insert (lit ''publishAt'') (JString (iso_string gs t)) status)
                 | None \<Rightarrow> fail (lit ''publishAt must be a valid future date-time.'') ''VALIDATION_ERROR'')
          else Ok (obj_remove (lit ''publishAt'') status)
      | None \<Rightarrow> Ok (obj_remove (lit ''publishAt'') status))"

definition publishVideo :: "gas_env \<Rightarrow> json \<Rightarrow> handled" where
  "publishVideo gs body =
     (case and_then (publication_request gs body) (\<lambda>(videoId, privacyStatus).
           and_then (owned_video gs videoId) (\<lambda>video.
           and_then (scheduled_status gs (js_get body ''publishAt'') privacyStatus
                       (obj_insert (lit ''privacyStatus'') (JString privacyStatus)
                          (mutableVideoStatus gs (vd_status video)))) (\<lambda>status.
           Ok (videoId, privacyStatus, status)))) of
        Err e \<Rightarrow> (Err e, [])
      | Ok (videoId, privacyStatus, status) \<Rightarrow>
          (case videos_update gs videoId status of
            Err e \<Rightarrow> (Err e, [VideosUpdate videoId status])
          | Ok updated \<Rightarrow>
              (Ok updated,
               [VideosUpdate videoId status,
                AuditLog (lit ''youtube.video.privacy_changed'')
                  (obj_insert (lit ''videoId'') (JString videoId)
                    (obj_insert (lit ''privacyStatus'') (JString privacyStatus)
                      (obj_insert (lit ''publishAt'') (js_or gs (js_get body ''publishAt'') JNull) [])))])))"

definition playlist_request ::
  "gas_env \<Rightarrow> json \<Rightarrow> (js_error, ustr \<times> ustr \<times> ustr option \<times> ustr) result" where
  "playlist_request gs body =
     and_then (requiredString gs (js_get body ''title'') ''title'' 150) (\<lambda>title.
     and_then (requiredString gs (Some (js_or gs (js_get body ''privacyStatus'') (JString (lit ''private''))))
                 ''privacyStatus'' 20) (\<lambda>raw.
     let privacyStatus = toLowerCase gs raw in
     if privacyStatus \<notin> set VIDEO_PRIVACY_VALUES
     then fail (lit ''Invalid playlist privacy status.'') ''VALIDATION_ERROR''
     else if privacyStatus \<noteq> lit ''private'' \<and> \<not> allow_public_uploads gs
     then fail (lit ''Non-private playlists are disabled in configuration.'') ''PUBLICATION_DISABLED''
     else
       and_then (optionalString gs (js_get body ''description'') 5000) (\<lambda>description.
       and_then (optionalString gs (js_get body ''defaultLanguage'') 20) (\<lambda>language.
       Ok (title, description, if language = [] then None else Some language, privacyStatus)))))"

definition createPlaylist :: "gas_env \<Rightarrow> json \<Rightarrow> handled" where
  "createPlaylist gs body =
     (case playlist_request gs body of
        Err e \<Rightarrow> (Err e, [])
      | Ok (title, description, language, privacyStatus) \<Rightarrow>
          (case playlists_insert gs title description language privacyStatus of
            Err e \<Rightarrow> (Err e, [PlaylistsInsert title description language privacyStatus])
          | Ok (playlistId, playlist) \<Rightarrow>
              (Ok playlist,
               [PlaylistsInsert title description language privacyStatus,
                AuditLog (lit ''youtube.playlist.created'')
                  (obj_insert (lit ''playlistId'') (JString playlistId)
                    (obj_insert (lit ''title'') (JString title)
                      (obj_insert (lit ''privacyStatus'') (JString privacyStatus) [])))])))"

section \<open>Dispatch\<close>

text \<open>The handlers of the actions that are not modelled are the argument \<open>others\<close>.\<close>

type_synonym handlers = "ustr \<Rightarrow> json \<Rightarrow> handled"

definition actions_table :: "gas_env \<Rightarrow> handlers \<Rightarrow> handlers" where
  "actions_table gs others action body =
     (if action = lit ''publishVideo'' then publishVideo gs body
      else if action = lit ''createPlaylist'' then createPlaylist gs body
      else others action body)"

datatype transport = HttpTransport | UiTransport

definition control_record :: "ustr \<Rightarrow> ustr \<Rightarrow> jmap" where
  "control_record action controlRequestId =
     obj_insert (lit ''action'') (JString action)
       (obj_insert (lit ''controlRequestId'') (JString controlRequestId) [])"

text \<open>A mutation is audited before its handler runs, and after it either way.\<close>

definition audited :: "ustr \<Rightarrow> ustr \<Rightarrow> handled \<Rightarrow> handled" where
  "audited action controlRequestId h =
     (case h of (r, effects) \<Rightarrow>
        (r, [AuditLog (lit ''http.control.requested'') (control_record action controlRequestId)] @ effects @
            [case r of
               Ok _ \<Rightarrow> AuditLog (lit ''http.control.completed'') (control_record action controlRequestId)
             | Err e \<Rightarrow> AuditLog (lit ''http.control.failed'')
                 (obj_insert (lit ''errorCode'') (JString (error_code e))
                    (control_record action controlRequestId))]))"

definition dispatchAction ::
  "gas_env \<Rightarrow> handlers \<Rightarrow> ustr \<Rightarrow> json \<Rightarrow> transport \<Rightarrow> http_policy \<Rightarrow> handled" where
  "dispatchAction gs others action body transport policy =
     (if \<not> has_handler action
      then (fail (lit ''Unknown action: '' @ action) ''UNKNOWN_ACTION'', [])
      else if transport = HttpTransport \<and> ui_only action
      then (fail (lit ''This action is owner-dashboard only.'') ''ACTION_NOT_AVAILABLE'', [])
      else if policy = MutatePolicy
      then (case requiredString gs (js_get body ''controlRequestId'') ''controlRequestId'' 200 of
              Err e \<Rightarrow> (Err e, [])
            | Ok k \<Rightarrow> audited action k (actions_table gs others action body))
      else actions_table gs others action body)"

datatype http_verb = GET | POST

definition handleHttpRequest :: "gas_env \<Rightarrow> handlers \<Rightarrow> http_verb \<Rightarrow> json \<Rightarrow> json \<Rightarrow> handled" where
  "handleHttpRequest gs others verb act body =
     (case and_then (requiredString gs (Some act) ''action'' 80) (\<lambda>action.
           case HTTP_ACTION_POLICY action of
             None \<Rightarrow> fail (lit ''Action is not available through the public HTTP surface.'') ''ACTION_NOT_AVAILABLE''
           | Some policy \<Rightarrow>
               and_then (if verb = GET \<and> policy \<noteq> PublicPolicy
                         then fail (lit ''Only the health action supports GET. Send API keys and privileged actions in a JSON POST body.'') ''METHOD_NOT_ALLOWED''
                         else Ok ()) (\<lambda>_.
               and_then (if policy \<noteq> PublicPolicy then assertApiKey gs (js_and_get gs body ''apiKey'')
                         else Ok ()) (\<lambda>_.
               and_then (if policy = MutatePolicy
                         then requiredString gs (js_and_get gs body ''controlRequestId'') ''controlRequestId'' 200
                         else Ok []) (\<lambda>_.
               Ok (action, policy))))) of
        Err e \<Rightarrow> (Err e, [])
      | Ok (action, policy) \<Rightarrow>
          dispatchAction gs others action (js_or gs (Some body) (JObject [])) HttpTransport policy)"

text \<open>
  The body of a POST as it was parsed; \<open>body.action\<close> of null is an error that no result
  wraps.
\<close>

definition doPost :: "gas_env \<Rightarrow> handlers \<Rightarrow> json \<Rightarrow> handled" where
  "doPost gs others body =
     (if body = JNull then (Err TypeError, [])
      else handleHttpRequest gs others POST (js_or gs (js_get body ''action'') (JString [])) body)"

text \<open>The call of the owner's dashboard; whether the caller is that owner is an argument.\<close>

definition rpc :: "gas_env \<Rightarrow> handlers \<Rightarrow> bool \<Rightarrow> json option \<Rightarrow> json option \<Rightarrow> handled" where
  "rpc gs others first_party act body =
     (if \<not> first_party then (fail (lit ''The browser dashboard is owner-only.'') ''UNAUTHORIZED'', [])
      else case requiredString gs act ''action'' 80 of
             Err e \<Rightarrow> (Err e, [])
           | Ok action \<Rightarrow>
               dispatchAction gs others action (js_or gs body (JObject [])) UiTransport OwnerPolicy)"

section \<open>Lemmas on values and strings\<close>

lemma js_object [simp]:
  "js_get (JObject m) k = obj_get m (lit k)" "js_and_get gs (JObject m) k = obj_get m (lit k)"
  "js_or gs (Some (JObject m)) d = JObject m"
  by (simp_all add: js_get_def js_and_get_def js_or_def js_truthy_def)

lemma js_or_string [simp]: "js_or gs (Some (JString s)) (JString []) = JString s"
  by (simp add: js_or_def js_truthy_def)

lemma js_trim_id: "s = [] \<or> \<not> js_whitespace (hd s) \<and> \<not> js_whitespace (last s) \<Longrightarrow> js_trim s = s"
proof -
  assume s: "s = [] \<or> \<not> js_whitespace (hd s) \<and> \<not> js_whitespace (last s)"
  then have "dropWhile js_whitespace s = s" by (auto simp: dropWhile_id_iff)
  moreover have "dropWhile js_whitespace (rev s) = rev s" using s by (auto simp: dropWhile_id_iff hd_rev)
  ultimately show ?thesis by (simp add: js_trim_def)
qed

lemma dropWhile_between:
  "\<exists>a b. s = a @ rev (dropWhile P (rev (dropWhile P s))) @ b \<and> list_all P (a @ b)"
proof -
  have dw: "\<exists>a. t = a @ dropWhile P t \<and> list_all P a" for t
    using takeWhile_dropWhile_id [of P t] set_takeWhileD [of _ P t] by (metis list_all_iff)
  let ?u = "dropWhile P s"
  obtain a where a: "s = a @ ?u" "list_all P a" using dw by blast
  obtain b where b: "rev ?u = b @ dropWhile P (rev ?u)" "list_all P b" using dw by blast
  have "?u = rev (dropWhile P (rev ?u)) @ rev b" using arg_cong [OF b(1), of rev] by simp
  with a b(2) have "s = a @ rev (dropWhile P (rev ?u)) @ rev b \<and> list_all P (a @ rev b)"
    by (metis list_all_append list_all_rev)
  then show ?thesis by blast
qed

lemmas js_trim_between = dropWhile_between [of _ js_whitespace, folded js_trim_def]

lemmas trim_between =
  dropWhile_between [of _ is_whitespace, folded trim_start_def trim_end_def, folded trim_end_def, folded trim_def]

lemma utf16_ascii: "ascii s \<Longrightarrow> utf16 s = s"
  by (induction s) (auto simp: utf16_def ascii_def)

text \<open>An idempotency key the client accepts is a control request id the web app accepts.\<close>

lemma requiredString_plain:
  "s \<noteq> [] \<Longrightarrow> ascii s \<Longrightarrow> length s \<le> n \<Longrightarrow> \<not> js_whitespace (hd s) \<Longrightarrow> \<not> js_whitespace (last s) \<Longrightarrow>
   requiredString gs (Some (JString s)) f n = Ok s"
  by (simp add: requiredString_def js_text_def js_trim_id utf16_ascii Let_def)

lemma requiredString_JString:
  "requiredString gs (Some (JString s)) f n = Ok t \<Longrightarrow> t = js_trim s \<and> t \<noteq> []"
  by (auto simp: requiredString_def js_text_def Let_def split: if_splits)

text \<open>The comparison in constant time is the equality of the code units.\<close>

lemma foldl_differences:
  "foldl (\<lambda>acc (a, b). or acc (xor a b)) n ps = (0::nat) \<longleftrightarrow> n = 0 \<and> (\<forall>(a, b) \<in> set ps. a = b)"
proof (induction ps arbitrary: n)
  case (Cons x ps)
  have "or n (xor a b) = 0 \<longleftrightarrow> n = 0 \<and> a = b" for a b :: nat
    by (metis or_eq_0_iff xor_self_eq xor.assoc xor.right_neutral xor.left_neutral)
  with Cons show ?case by (auto split: prod.splits)
qed simp

lemma constantTimeEquals_iff: "constantTimeEquals s t \<longleftrightarrow> utf16 s = utf16 t"
  by (auto simp: constantTimeEquals_def foldl_differences list_eq_iff_zip_eq)

lemma privacy_values_plain: "p \<in> set VIDEO_PRIVACY_VALUES \<Longrightarrow> list_all plain_char p"
  by (auto simp: VIDEO_PRIVACY_VALUES_def plain_char_def lit_def)

section \<open>Lemmas on the boundary\<close>

definition with_property :: "ustr \<Rightarrow> ustr option \<Rightarrow> gas_env \<Rightarrow> gas_env" where
  "with_property k v gs = gs\<lparr>script_property := (script_property gs)(k := v)\<rparr>"

lemma publishVideo_update:
  "VideosUpdate video status \<in> set (snd (publishVideo gs body)) \<longleftrightarrow>
   (\<exists>privacy v. publication_request gs body = Ok (video, privacy) \<and> owned_video gs video = Ok v \<and>
      scheduled_status gs (js_get body ''publishAt'') privacy
        (obj_insert (lit ''privacyStatus'') (JString privacy) (mutableVideoStatus gs (vd_status v))) =
        Ok status)"
  by (auto simp: publishVideo_def result_simps split: sum.splits prod.splits)

lemma scheduled_status_privacy:
  "scheduled_status gs at privacy st = Ok status \<Longrightarrow>
   obj_get status (lit ''privacyStatus'') = obj_get st (lit ''privacyStatus'')"
  by (auto simp: scheduled_status_def result_simps obj_simps split: option.splits if_splits)

lemma scheduled_status_at:
  "scheduled_status gs at privacy st = Ok status \<Longrightarrow> obj_get status (lit ''publishAt'') = Some v \<Longrightarrow>
   privacy = lit ''private'' \<and> (\<exists>t. t > date_now gs \<and> v = JString (iso_string gs t))"
  by (cases at; cases "parse_date gs (the at)")
    (auto simp: scheduled_status_def obj_simps not_le split: option.splits if_splits)

subsection \<open>What a property does not change\<close>

lemma with_property_sel [simp]:
  "script_property (with_property k v gs) = (script_property gs)(k := v)"
  "sha256 (with_property k v gs) = sha256 gs" "number_text (with_property k v gs) = number_text gs"
  "number_truthy (with_property k v gs) = number_truthy gs"
  "other_lower_case (with_property k v gs) = other_lower_case gs"
  "other_upper_case (with_property k v gs) = other_upper_case gs"
  "parse_date (with_property k v gs) = parse_date gs" "iso_string (with_property k v gs) = iso_string gs"
  "date_now (with_property k v gs) = date_now gs" "channels_list (with_property k v gs) = channels_list gs"
  "videos_list (with_property k v gs) = videos_list gs"
  "videos_update (with_property k v gs) = videos_update gs"
  by (simp_all add: with_property_def)

lemma with_property_string:
  "js_string (with_property k v gs) x = js_string gs x"
  "js_elements (with_property k v gs) xs = js_elements gs xs"
  by (induction x and xs rule: js_string_js_elements.induct) simp_all

lemma with_property_base [simp]:
  "js_string (with_property k v gs) = js_string gs" "js_truthy (with_property k v gs) = js_truthy gs"
  by (intro ext; simp add: with_property_string js_truthy_def split: option.split json.split)+

lemma with_property_strings [simp]:
  "js_or (with_property k v gs) = js_or gs" "requiredString (with_property k v gs) = requiredString gs"
  "toLowerCase (with_property k v gs) = toLowerCase gs" "toUpperCase (with_property k v gs) = toUpperCase gs"
  "sha256Hex (with_property k v gs) = sha256Hex gs"
  "copy_truthy (with_property k v gs) = copy_truthy gs"
  by (intro ext; simp add: js_or_def requiredString_def js_text_def toLowerCase_def toUpperCase_def sha256Hex_def
      copy_truthy_def cong: option.case_cong)+

lemma with_property_channel [simp]: "getMyChannel (with_property k v gs) = getMyChannel gs"
  by (simp add: getMyChannel_def)

lemma with_property_values [simp]:
  "normalizeHandle (with_property k v gs) = normalizeHandle gs"
  "mutableVideoStatus (with_property k v gs) = mutableVideoStatus gs"
  "expected_confirmation (with_property k v gs) = expected_confirmation gs"
  "scheduled_status (with_property k v gs) = scheduled_status gs"
  by (intro ext; simp add: normalizeHandle_def mutableVideoStatus_def expected_confirmation_def
      scheduled_status_def cong: option.case_cong if_cong)+

lemma with_property_config:
  "k \<noteq> lit c \<Longrightarrow> getConfigValue (with_property k v gs) c d = getConfigValue gs c d"
  by (simp add: getConfigValue_def)

lemma with_switch [simp]:
  "assertApiKey (with_property (lit ''ALLOW_PUBLIC_UPLOADS'') v gs) = assertApiKey gs"
  "owned_video (with_property (lit ''ALLOW_PUBLIC_UPLOADS'') v gs) = owned_video gs"
  by (intro ext; simp add: assertApiKey_def owned_video_def assertExpectedChannel_def with_property_config
      cong: option.case_cong if_cong)+

text \<open>A publication as private asks no switch.\<close>

lemma private_publication_no_switch:
  "publication_request gs body = Ok (video, lit ''private'') \<Longrightarrow>
   publishVideo (with_property (lit ''ALLOW_PUBLIC_UPLOADS'') v gs) body = publishVideo gs body"
proof -
  assume p: "publication_request gs body = Ok (video, lit ''private'')"
  then have "publication_request (with_property (lit ''ALLOW_PUBLIC_UPLOADS'') v gs) body =
      Ok (video, lit ''private'')"
    by (auto simp: publication_request_def result_simps Let_def split: if_splits)
  with p show ?thesis by (simp add: publishVideo_def cong: sum.case_cong option.case_cong)
qed

text \<open>A publication of three strings.\<close>

lemma publication_request_strings:
  assumes "publication_request gs (JObject m) = Ok (video, p)"
    "obj_get m (lit ''videoId'') = Some (JString vr)"
    "obj_get m (lit ''privacyStatus'') = Some (JString pr)"
    "obj_get m (lit ''confirmation'') = Some (JString ph)"
  shows "video = js_trim vr" "p = toLowerCase gs (js_trim pr)" "p \<in> set VIDEO_PRIVACY_VALUES"
    "p \<noteq> lit ''private'' \<Longrightarrow> allow_public_uploads gs" "ph = expected_confirmation gs video p"
  using assms by (auto simp: publication_request_def result_simps Let_def split: if_splits
      dest!: requiredString_JString)

end
