(* ===== verification/Publication.thy ===== *)
theory Publication
  imports Routes AppsScript
begin

text \<open>
  The client of \<open>src/youtube.rs\<close> composed with the web app it calls: the body the client
  posts is the body \<open>doPost\<close> parses. The policy table of the web app answers the actions of
  the client, and a video goes public through the two only as their switches allow, or on a
  schedule.
\<close>

section \<open>The boundary on what the client sends\<close>

lemma client_actions_in_policy:
  "HTTP_ACTION_POLICY (action_as_str act) = Some (if is_mutating act then MutatePolicy else ReadPolicy)"
  by (cases act) (simp_all add: HTTP_ACTION_POLICY_def READ_ACTIONS_def MUTATE_ACTIONS_def is_mutating_def)

lemma client_actions_not_ui: "\<not> ui_only (action_as_str act)"
  by (cases act) (simp_all add: ui_only_def UI_ONLY_ACTIONS_def OBJECT_PROTOTYPE_def)

lemma client_action_accepted:
  "requiredString gs (Some (JString (action_as_str act))) ''action'' 80 = Ok (action_as_str act)"
  by (rule requiredString_plain; cases act) (simp_all add: ascii_def js_whitespace_def lit_def)

lemma accepted_key_required:
  assumes "validate_idempotency_key k = Ok ()"
  shows "requiredString gs (Some (JString k)) ''controlRequestId'' 200 = Ok k"
proof -
  have k: "k \<noteq> []" "str_len k \<le> 200" "list_all is_ascii_graphic (str_bytes k)"
    using assms by (auto simp: validate_idempotency_key_def split: if_splits)
  then have a: "ascii k" by (intro graphic_bytes_ascii)
  with k(3) have "c \<in> set k \<Longrightarrow> 33 \<le> c \<and> c \<le> 126" for c
    by (auto simp: ascii_str_bytes list_all_iff is_ascii_graphic_def word_le_nat_alt ascii_def
        unat_u8 dest!: bspec)
  then have "c \<in> set k \<Longrightarrow> \<not> js_whitespace c" for c by (fastforce simp: js_whitespace_def)
  with k a show ?thesis by (intro requiredString_plain) (auto simp: ascii_str_len)
qed

text \<open>The fields of a posted body the web app looks at first.\<close>

lemma client_body:
  assumes "youtube_execute jc send c act body key = (r, requests)" "PostJson u sent \<in> set requests"
  obtains "requests = [PostJson u sent]" "u = yc_web_app_url c"
    "obj_get sent (lit ''action'') = Some (JString (action_as_str act))"
    "obj_get sent (lit ''apiKey'') = Some (JString (yc_api_key c))"
    "is_mutating act \<longrightarrow> (\<exists>k. key = Some k \<and> validate_idempotency_key k = Ok () \<and>
       obj_get sent (lit ''controlRequestId'') = Some (JString k))"
    "\<exists>obj. prepare_payload act body key (yc_allow_public_actions c) = Ok obj \<and>
       sent = obj_insert (lit ''apiKey'') (JString (yc_api_key c))
         (obj_insert (lit ''action'') (JString (action_as_str act)) obj)"
proof -
  obtain obj where p: "prepare_payload act body key (yc_allow_public_actions c) = Ok obj"
    and s: "requests = [PostJson u sent]" "u = yc_web_app_url c"
      "sent = obj_insert (lit ''apiKey'') (JString (yc_api_key c))
         (obj_insert (lit ''action'') (JString (action_as_str act)) obj)"
    using assms by (auto simp: youtube_execute_def Let_def split: sum.splits)
  show thesis
    by (rule that)
      (use p s prepare_payload_key [OF p] prepare_payload_fields [OF p] in \<open>auto simp: obj_simps\<close>)
qed

lemma doPost_client:
  assumes "youtube_execute jc send c act body key = (r, requests)" "PostJson u sent \<in> set requests"
  shows "doPost gs others (JObject sent) =
    (case assertApiKey gs (Some (JString (yc_api_key c))) of
       Err e \<Rightarrow> (Err e, [])
     | Ok _ \<Rightarrow>
         let h = actions_table gs others (action_as_str act) (JObject sent)
         in if is_mutating act then audited (action_as_str act) (the key) h else h)"
proof (rule client_body [OF assms])
  assume f: "obj_get sent (lit ''action'') = Some (JString (action_as_str act))"
    "obj_get sent (lit ''apiKey'') = Some (JString (yc_api_key c))"
    "is_mutating act \<longrightarrow> (\<exists>k. key = Some k \<and> validate_idempotency_key k = Ok () \<and>
       obj_get sent (lit ''controlRequestId'') = Some (JString k))"
  have h: "has_handler (action_as_str act)"
    by (simp add: has_handler_def client_actions_in_policy)
  show ?thesis
  proof (cases "assertApiKey gs (Some (JString (yc_api_key c)))")
    case (Inl e)
    then show ?thesis
      by (simp add: doPost_def handleHttpRequest_def f client_action_accepted client_actions_in_policy)
  next
    case (Inr x)
    show ?thesis
    proof (cases "is_mutating act")
      case True
      then obtain k where "key = Some k" "validate_idempotency_key k = Ok ()"
        "obj_get sent (lit ''controlRequestId'') = Some (JString k)" using f by blast
      with True Inr show ?thesis
        by (simp add: doPost_def handleHttpRequest_def f client_action_accepted
            client_actions_in_policy dispatchAction_def h client_actions_not_ui accepted_key_required)
    next
      case False
      with Inr show ?thesis
        by (simp add: doPost_def handleHttpRequest_def f client_action_accepted
            client_actions_in_policy dispatchAction_def h client_actions_not_ui)
    qed
  qed
qed

section \<open>A publication through both\<close>

lemma letters_of_padded:
  assumes "list_all P a" "list_all P b" "list_all (\<lambda>c. \<not> P c) s"
  shows "filter (\<lambda>c. \<not> P c) (a @ s @ b) = s"
  using assms by (auto simp: filter_empty_conv list_all_iff filter_id_conv)

definition blank :: "nat \<Rightarrow> bool" where
  "blank c \<longleftrightarrow> \<not> (65 \<le> c \<and> c \<le> 90 \<or> 97 \<le> c \<and> c \<le> 122)"

lemma whitespace_blank: "js_whitespace c \<Longrightarrow> blank c" "is_whitespace c \<Longrightarrow> blank c"
  by (auto simp: js_whitespace_def is_whitespace_def blank_def)

text \<open>The two sides trim different characters, but a privacy they both accept is the same.\<close>

lemma privacy_agrees:
  assumes q: "trim s \<in> set VIDEO_PRIVACY_VALUES" and p: "toLowerCase gs (js_trim s) \<in> set VIDEO_PRIVACY_VALUES"
  shows "toLowerCase gs (js_trim s) = trim s"
proof -
  let ?t = "js_trim s"
  obtain a b where a: "s = a @ ?t @ b" "list_all js_whitespace (a @ b)"
    using js_trim_between by metis
  obtain a' b' where b: "s = a' @ trim s @ b'" "list_all is_whitespace (a' @ b')"
    using trim_between by metis
  have "list_all plain_char (a' @ trim s @ b')"
    using b(2) privacy_values_plain [OF q] by (auto simp: list_all_iff plain_char_def)
  then have "list_all plain_char (a @ ?t @ b)" using a(1) b(1) by simp
  then have low: "toLowerCase gs ?t = to_ascii_lowercase ?t" by (simp add: toLowerCase_def)
  have letters: "list_all (\<lambda>c. \<not> blank c) v" if "v \<in> set VIDEO_PRIVACY_VALUES" for v
    using that by (auto simp: VIDEO_PRIVACY_VALUES_def lit_def blank_def)
  have "list_all (\<lambda>c. \<not> blank c) ?t"
    using letters [OF p] unfolding low
    by (auto simp: to_ascii_lowercase_def list_all_iff blank_def split: if_splits)
  moreover have "list_all blank a" "list_all blank b" "list_all blank a'" "list_all blank b'"
    using a(2) b(2) by (simp_all add: list_all_iff whitespace_blank)
  ultimately have "?t = trim s"
    using letters_of_padded [of blank a b ?t] letters_of_padded [of blank a' b' "trim s"] letters [OF q] a(1) b(1)
    by simp
  moreover have "to_ascii_lowercase v = v" if "v \<in> set VIDEO_PRIVACY_VALUES" for v
    using that by (auto simp: VIDEO_PRIVACY_VALUES_def lit_def to_ascii_lowercase_def)
  ultimately show ?thesis using low q by simp
qed

lemma phrase_trim:
  assumes "p \<in> set VIDEO_PRIVACY_VALUES"
  shows "trim (publish_phrase v p) = publish_phrase v p"
proof -
  have "to_ascii_uppercase p \<noteq> []" "\<not> is_whitespace (last (to_ascii_uppercase p))"
    using assms by (auto simp: VIDEO_PRIVACY_VALUES_def lit_def to_ascii_uppercase_def is_whitespace_def)
  moreover have "hd (publish_phrase v p) = 80" by (simp add: publish_phrase_def lit_def)
  ultimately show ?thesis
    by (auto simp: trim_id_iff publish_phrase_def is_whitespace_def)
qed

lemma publish_phrase_inj: "publish_phrase v p = publish_phrase w p \<longleftrightarrow> v = w"
  by (simp add: publish_phrase_def)

lemma expected_confirmation_phrase:
  "p \<in> set VIDEO_PRIVACY_VALUES \<Longrightarrow> expected_confirmation gs v p = publish_phrase v p"
  using privacy_values_plain [of p] by (simp add: expected_confirmation_def publish_phrase_def toUpperCase_def)

text \<open>What the client has checked of a publication it sends.\<close>

lemma client_publication:
  assumes "youtube_execute jc send c PublishVideo body key = (r, requests)" "PostJson u sent \<in> set requests"
  obtains vr pr ph where "obj_get sent (lit ''videoId'') = Some (JString vr)"
    "obj_get sent (lit ''privacyStatus'') = Some (JString pr)"
    "obj_get sent (lit ''confirmation'') = Some (JString ph)"
    "trim pr \<in> set VIDEO_PRIVACY_VALUES" "trim pr \<noteq> lit ''private'' \<longrightarrow> yc_allow_public_actions c"
    "trim ph = publish_phrase (trim vr) (trim pr)"
proof (rule client_body [OF assms])
  assume "\<exists>obj. prepare_payload PublishVideo body key (yc_allow_public_actions c) = Ok obj \<and>
      sent = obj_insert (lit ''apiKey'') (JString (yc_api_key c))
        (obj_insert (lit ''action'') (JString (action_as_str PublishVideo)) obj)"
  then obtain obj where p: "prepare_payload PublishVideo body key (yc_allow_public_actions c) = Ok obj"
    and s: "f \<noteq> lit ''apiKey'' \<Longrightarrow> f \<noteq> lit ''action'' \<Longrightarrow> obj_get sent f = obj_get obj f" for f
    by (auto simp: obj_simps)
  have "check_publish_video obj (yc_allow_public_actions c) = Ok ()"
    using p by (rule prepare_payload_Ok) auto
  then show thesis
    by (auto simp: check_publish_video_def result_simps require_Ok optional_string_Ok s
        VIDEO_PRIVACY_VALUES_def split: if_splits intro: that)
qed

text \<open>Both programs on one publication that reaches YouTube.\<close>

lemma publication_through:
  assumes "youtube_execute jc send c PublishVideo body key = (r, requests)" "PostJson u sent \<in> set requests"
    "VideosUpdate video status \<in> set (snd (doPost gs others (JObject sent)))"
  obtains vr pr v where "obj_get sent (lit ''videoId'') = Some (JString vr)" "trim vr = video"
    "obj_get sent (lit ''privacyStatus'') = Some (JString pr)" "trim pr \<in> set VIDEO_PRIVACY_VALUES"
    "trim pr \<noteq> lit ''private'' \<longrightarrow> yc_allow_public_actions c \<and> allow_public_uploads gs"
    "obj_get sent (lit ''confirmation'') = Some (JString (publish_phrase video (trim pr)))"
    "assertApiKey gs (Some (JString (yc_api_key c))) = Ok ()" "owned_video gs video = Ok v"
    "publication_request gs (JObject sent) = Ok (video, trim pr)"
    "scheduled_status gs (obj_get sent (lit ''publishAt'')) (trim pr)
       (obj_insert (lit ''privacyStatus'') (JString (trim pr)) (mutableVideoStatus gs (vd_status v))) = Ok status"
proof -
  obtain vr pr ph where f: "obj_get sent (lit ''videoId'') = Some (JString vr)"
    "obj_get sent (lit ''privacyStatus'') = Some (JString pr)"
    "obj_get sent (lit ''confirmation'') = Some (JString ph)"
    and pr: "trim pr \<in> set VIDEO_PRIVACY_VALUES"
    and sw: "trim pr \<noteq> lit ''private'' \<longrightarrow> yc_allow_public_actions c"
    and ph: "trim ph = publish_phrase (trim vr) (trim pr)"
    using client_publication [OF assms(1,2)] by metis
  have key: "assertApiKey gs (Some (JString (yc_api_key c))) = Ok ()"
    and run: "VideosUpdate video status \<in> set (snd (publishVideo gs (JObject sent)))"
    using assms(3) unfolding doPost_client [OF assms(1,2)]
    by (auto simp: actions_table_def audited_def is_mutating_def split: sum.splits prod.splits)
  obtain p v where pub: "publication_request gs (JObject sent) = Ok (video, p)" "owned_video gs video = Ok v"
    "scheduled_status gs (obj_get sent (lit ''publishAt'')) p
       (obj_insert (lit ''privacyStatus'') (JString p) (mutableVideoStatus gs (vd_status v))) = Ok status"
    using run [unfolded publishVideo_update] by auto
  note g = publication_request_strings [OF pub(1) f]
  have p: "p = trim pr" using privacy_agrees [OF pr] g(2,3) by simp
  have ph2: "ph = publish_phrase video (trim pr)"
    using g(5) expected_confirmation_phrase [OF pr] p by simp
  have "trim vr = video" using ph ph2 phrase_trim [OF pr] publish_phrase_inj by metis
  with f pr sw g(4) ph2 key pub p show thesis by (intro that) auto
qed

lemma private_publication_sent_alike:
  assumes "prepare_payload PublishVideo body key allow = Ok out"
    "obj_get out (lit ''privacyStatus'') = Some (JString pr)" "trim pr = lit ''private''"
  shows "prepare_payload PublishVideo body key allow' = Ok out"
proof -
  have "check_publish_video out allow = Ok ()" using assms(1) by (rule prepare_payload_Ok) auto
  then have "check_publish_video out allow' = Ok ()"
    using assms(2,3) by (auto simp: check_publish_video_def result_simps require_Ok optional_string_Ok split: if_splits)
  with assms(1) show ?thesis by (auto simp: prepare_payload_def result_simps Let_def)
qed

section \<open>Properties\<close>

text \<open>
  C16: The two programs agree on which actions mutate: the web app's table gives each action
  of the client the policy its kind asks for. Posted by the client, an action is refused
  without any effect exactly when the web app refuses the client's key, and otherwise its
  handler runs, once, between the two audit records of its key when it mutates.
\<close>

theorem client_requests_admitted:
  assumes "youtube_execute jc send c act body key = (r, requests)" "PostJson u sent \<in> set requests"
  shows "HTTP_ACTION_POLICY (action_as_str act) = Some (if is_mutating act then MutatePolicy else ReadPolicy) \<and>
    doPost gs others (JObject sent) =
      (case assertApiKey gs (Some (JString (yc_api_key c))) of
         Err e \<Rightarrow> (Err e, [])
       | Ok _ \<Rightarrow>
           let h = actions_table gs others (action_as_str act) (JObject sent)
           in if is_mutating act then audited (action_as_str act) (the key) h else h)"
  using client_actions_in_policy doPost_client [OF assms] by blast

text \<open>
  C14: A publication that the client sends and the web app carries out sets one of the three
  privacies, another than private only with both switches on, on a video of the expected
  channel that the phrase of the request names, under the client's key.
\<close>

theorem publication_takes_both_switches:
  assumes "youtube_execute jc send c PublishVideo body key = (r, requests)" "PostJson u sent \<in> set requests"
    "VideosUpdate video status \<in> set (snd (doPost gs others (JObject sent)))"
  shows "\<exists>p v. p \<in> set VIDEO_PRIVACY_VALUES \<and> obj_get status (lit ''privacyStatus'') = Some (JString p) \<and>
    (p \<noteq> lit ''private'' \<longrightarrow> yc_allow_public_actions c \<and> allow_public_uploads gs) \<and>
    obj_get sent (lit ''confirmation'') = Some (JString (publish_phrase video p)) \<and>
    owned_video gs video = Ok v \<and> assertApiKey gs (Some (JString (yc_api_key c))) = Ok ()"
proof (rule publication_through [OF assms])
  fix pr and v :: yt_video
  let ?st = "obj_insert (lit ''privacyStatus'') (JString (trim pr)) (mutableVideoStatus gs (vd_status v))"
  assume h: "trim pr \<in> set VIDEO_PRIVACY_VALUES"
    "trim pr \<noteq> lit ''private'' \<longrightarrow> yc_allow_public_actions c \<and> allow_public_uploads gs"
    "obj_get sent (lit ''confirmation'') = Some (JString (publish_phrase video (trim pr)))"
    "assertApiKey gs (Some (JString (yc_api_key c))) = Ok ()" "owned_video gs video = Ok v"
    "scheduled_status gs (obj_get sent (lit ''publishAt'')) (trim pr) ?st = Ok status"
  then have "obj_get status (lit ''privacyStatus'') = Some (JString (trim pr))"
    by (simp add: scheduled_status_privacy obj_simps)
  with h show ?thesis by blast
qed

text \<open>
  C15: A publication scheduled for later takes neither switch. The update that makes YouTube
  publish a video at a time to come is sent as a private one, so the client sends the same
  request with its switch in either position, and the web app does the same with it whatever
  its own switch holds.
\<close>

theorem scheduled_publication_takes_no_switch:
  assumes "youtube_execute jc send c PublishVideo body key = (r, requests)" "PostJson u sent \<in> set requests"
    "VideosUpdate video status \<in> set (snd (doPost gs others (JObject sent)))"
    "obj_get status (lit ''publishAt'') = Some v"
  shows "(\<exists>t. t > date_now gs \<and> v = JString (iso_string gs t)) \<and>
    obj_get status (lit ''privacyStatus'') = Some (JString (lit ''private'')) \<and>
    snd (youtube_execute jc send (c\<lparr>yc_allow_public_actions := switch\<rparr>) PublishVideo body key) = requests \<and>
    doPost (with_property (lit ''ALLOW_PUBLIC_UPLOADS'') uploads gs) others (JObject sent) =
      doPost gs others (JObject sent)"
proof (rule publication_through [OF assms(1-3)])
  fix pr and w :: yt_video
  let ?st = "obj_insert (lit ''privacyStatus'') (JString (trim pr)) (mutableVideoStatus gs (vd_status w))"
  assume pr: "obj_get sent (lit ''privacyStatus'') = Some (JString pr)"
    and pub: "publication_request gs (JObject sent) = Ok (video, trim pr)"
    and st: "scheduled_status gs (obj_get sent (lit ''publishAt'')) (trim pr) ?st = Ok status"
  have at: "trim pr = lit ''private''" "\<exists>t. t > date_now gs \<and> v = JString (iso_string gs t)"
    using scheduled_status_at [OF st assms(4)] by auto
  have priv: "obj_get status (lit ''privacyStatus'') = Some (JString (lit ''private''))"
    using scheduled_status_privacy [OF st] at(1) by (simp add: obj_simps)
  obtain obj where obj: "prepare_payload PublishVideo body key (yc_allow_public_actions c) = Ok obj"
    and sent: "sent = obj_insert (lit ''apiKey'') (JString (yc_api_key c))
         (obj_insert (lit ''action'') (JString (action_as_str PublishVideo)) obj)"
    and requests: "requests = [PostJson (yc_web_app_url c) sent]"
    by (rule client_body [OF assms(1,2)]) blast
  have "prepare_payload PublishVideo body key switch = Ok obj"
    using private_publication_sent_alike [OF obj _ at(1)] pr by (simp add: sent obj_simps)
  then have alike: "snd (youtube_execute jc send (c\<lparr>yc_allow_public_actions := switch\<rparr>) PublishVideo body key) = requests"
    by (simp add: youtube_execute_def Let_def requests sent)
  have "publishVideo (with_property (lit ''ALLOW_PUBLIC_UPLOADS'') uploads gs) (JObject sent) =
      publishVideo gs (JObject sent)"
    using private_publication_no_switch pub at(1) by simp
  then have "doPost (with_property (lit ''ALLOW_PUBLIC_UPLOADS'') uploads gs) others (JObject sent) =
      doPost gs others (JObject sent)"
    by (simp add: doPost_client [OF assms(1,2)] actions_table_def cong: sum.case_cong)
  with at(2) priv alike show ?thesis by blast
qed

section \<open>Witnesses\<close>

definition sample_gas :: gas_env where
  "sample_gas =
     \<lparr>script_property = [lit ''API_KEY_HASH'' \<mapsto> lit ''ab'', lit ''ALLOW_PUBLIC_UPLOADS'' \<mapsto> lit ''true''],
      sha256 = \<lambda>_. [0xab], number_text = id, number_truthy = \<lambda>_. True,
      other_lower_case = id, other_upper_case = id,
      parse_date = \<lambda>_. Ok (Some 5), iso_string = \<lambda>_. lit ''later'', date_now = 0,
      channels_list = Ok (Some \<lparr>ch_id = lit ''channel'', ch_custom_url = Some (lit ''@anticaptrad'')\<rparr>),
      videos_list = \<lambda>_. Ok (Some \<lparr>vd_channel_id = lit ''channel'', vd_status = []\<rparr>),
      videos_update = \<lambda>_ _. Ok JNull,
      playlists_insert = \<lambda>_ _ _ _. Ok (lit ''list'', JNull)\<rparr>"

definition schedule_body :: json where
  "schedule_body = json_object
     [(lit ''videoId'', JString (lit ''abc'')), (lit ''privacyStatus'', JString (lit ''private'')),
      (lit ''confirmation'', JString (lit ''PUBLISH abc AS PRIVATE'')), (lit ''publishAt'', JString (lit ''later''))]"

lemma sample_gas_key: "assertApiKey sample_gas (Some (JString (lit ''key''))) = Ok ()"
proof -
  have "requiredString sample_gas (Some (JString (lit ''key''))) ''apiKey'' 300 = Ok (lit ''key'')"
    by (rule requiredString_plain) (simp_all add: ascii_def lit_def js_whitespace_def)
  moreover have "sha256Hex sample_gas k = lit ''ab''" for k
    by (simp add: sha256Hex_def sample_gas_def encode_hex_def HEX_def lit_def)
  moreover have "getConfigValue sample_gas ''API_KEY_HASH'' [] = lit ''ab''"
    by (simp add: getConfigValue_def sample_gas_def)
  ultimately show ?thesis by (simp add: assertApiKey_def constantTimeEquals_iff)
qed

lemma sample_gas_checks: "\<exists>v. owned_video sample_gas video = Ok v \<and> vd_status v = []"
proof -
  have "toLowerCase sample_gas (js_trim (lit ''@anticaptrad'')) = lit ''@anticaptrad''"
    by (simp add: toLowerCase_def js_trim_id js_whitespace_def lit_def plain_char_def to_ascii_lowercase_def)
  then have "is_ok (assertExpectedChannel sample_gas \<lparr>ch_id = lit ''channel'', ch_custom_url = Some (lit ''@anticaptrad'')\<rparr>)"
    by (simp add: assertExpectedChannel_def normalizeHandle_def getConfigValue_def sample_gas_def is_ok_def Let_def)
  then show ?thesis
    by (auto simp: owned_video_def getMyChannel_def sample_gas_def is_ok_def split: sum.splits)
qed

lemma sample_publication_request:
  assumes "obj_get m (lit ''videoId'') = Some (JString (lit ''abc''))"
    "obj_get m (lit ''privacyStatus'') = Some (JString p)" "p \<in> set VIDEO_PRIVACY_VALUES"
    "obj_get m (lit ''confirmation'') = Some (JString (publish_phrase (lit ''abc'') p))"
  shows "publication_request sample_gas (JObject m) = Ok (lit ''abc'', p)"
proof -
  have "requiredString sample_gas (Some (JString (lit ''abc''))) ''videoId'' 100 = Ok (lit ''abc'')"
    by (rule requiredString_plain) (simp_all add: ascii_def lit_def js_whitespace_def)
  moreover have "requiredString sample_gas (Some (JString p)) ''privacyStatus'' 20 = Ok p"
    using assms(3)
    by (intro requiredString_plain) (auto simp: VIDEO_PRIVACY_VALUES_def ascii_def lit_def js_whitespace_def)
  moreover have "toLowerCase sample_gas p = p"
    using assms(3) privacy_values_plain [OF assms(3)]
    by (auto simp: toLowerCase_def VIDEO_PRIVACY_VALUES_def to_ascii_lowercase_def lit_def)
  moreover have "allow_public_uploads sample_gas"
    by (simp add: allow_public_uploads_def getConfigValue_def sample_gas_def isTrue_def toLowerCase_def
        plain_char_def to_ascii_lowercase_def lit_def)
  ultimately show ?thesis
    using assms expected_confirmation_phrase [OF assms(3)] by (simp add: publication_request_def)
qed

text \<open>A publication of the sample video that both sides let through.\<close>

lemma sample_publication:
  assumes m: "obj_get m (lit ''videoId'') = Some (JString (lit ''abc''))"
    "obj_get m (lit ''privacyStatus'') = Some (JString p)" "p \<in> set VIDEO_PRIVACY_VALUES"
    "obj_get m (lit ''confirmation'') = Some (JString (publish_phrase (lit ''abc'') p))"
    and at: "obj_get m (lit ''publishAt'') = (if p = lit ''private'' then Some (JString (lit ''later'')) else None)"
  obtains r u sent status where
    "youtube_execute sample_codec (\<lambda>_. Err []) sample_client PublishVideo (JObject m)
       (Some (lit ''upload-1'')) = (r, [PostJson u sent])"
    "VideosUpdate (lit ''abc'') status \<in> set (snd (doPost sample_gas others (JObject sent)))"
    "obj_get status (lit ''privacyStatus'') = Some (JString p)"
    "p = lit ''private'' \<longrightarrow> obj_get status (lit ''publishAt'') = Some (JString (lit ''later''))"
proof -
  let ?run = "youtube_execute sample_codec (\<lambda>_. Err []) sample_client PublishVideo (JObject m) (Some (lit ''upload-1''))"
  have tp: "trim p = p" "p \<noteq> []" "p \<in> {lit ''private'', lit ''unlisted'', lit ''public''}"
    using m(3) by (auto simp: VIDEO_PRIVACY_VALUES_def trim_id_iff is_whitespace_def lit_def)
  have "publish_phrase (lit ''abc'') p \<noteq> []" by (simp add: publish_phrase_def)
  then have "\<exists>out. prepare_payload PublishVideo (JObject m) (Some (lit ''upload-1'')) True = Ok out"
    using m(1,2,4) tp phrase_trim [OF m(3)]
    by (auto simp: prepare_payload_def is_mutating_def sample_key_ok Let_def check_publish_video_def
        require_non_empty_string_def optional_string_def obj_simps trim_lit)
  moreover have "yc_allow_public_actions sample_client" by (simp add: sample_client_def)
  ultimately obtain r u sent where run: "?run = (r, [PostJson u sent])"
    by (auto simp: youtube_execute_def Let_def)
  obtain obj where obj: "prepare_payload PublishVideo (JObject m) (Some (lit ''upload-1'')) (yc_allow_public_actions sample_client) = Ok obj"
    and se: "sent = obj_insert (lit ''apiKey'') (JString (yc_api_key sample_client))
         (obj_insert (lit ''action'') (JString (action_as_str PublishVideo)) obj)"
    by (rule client_body [OF run, of u sent]) auto
  have sent: "f \<noteq> lit ''apiKey'' \<Longrightarrow> f \<noteq> lit ''action'' \<Longrightarrow> f \<noteq> lit ''controlRequestId'' \<Longrightarrow>
      obj_get sent f = obj_get m f" for f
    using prepare_payload_fields [OF obj, of f] by (simp add: se obj_simps)
  have key: "yc_api_key sample_client = lit ''key''" by (simp add: sample_client_def)
  have pub: "publication_request sample_gas (JObject sent) = Ok (lit ''abc'', p)"
    using m by (intro sample_publication_request) (simp_all add: sent)
  obtain v where v: "owned_video sample_gas (lit ''abc'') = Ok v" "vd_status v = []"
    using sample_gas_checks by blast
  have sel: "parse_date sample_gas x = Ok (Some 5)" "date_now sample_gas = 0"
    "iso_string sample_gas t = lit ''later''" for x t
    by (simp_all add: sample_gas_def)
  let ?st = "obj_insert (lit ''privacyStatus'') (JString p) (mutableVideoStatus sample_gas [])"
  obtain status where st: "scheduled_status sample_gas (obj_get sent (lit ''publishAt'')) p ?st = Ok status"
    "p = lit ''private'' \<longrightarrow> obj_get status (lit ''publishAt'') = Some (JString (lit ''later''))"
    by (cases "p = lit ''private''") (auto simp: at sent scheduled_status_def js_truthy_def obj_simps sel)
  then have upd: "VideosUpdate (lit ''abc'') status \<in> set (snd (doPost sample_gas others (JObject sent)))"
    using publishVideo_update [of "lit ''abc''" status sample_gas "JObject sent"] pub v
    by (auto simp: doPost_client [OF run, of u] key sample_gas_key actions_table_def audited_def
        is_mutating_def split: prod.splits)
  moreover have "obj_get status (lit ''privacyStatus'') = Some (JString p)"
    using scheduled_status_privacy [OF st(1)] by (simp add: obj_simps)
  ultimately show thesis using run st(2) that by blast
qed

lemma schedule_body_fields:
  "\<exists>m. schedule_body = JObject m \<and> (\<forall>k. obj_get m k = map_of
     [(lit ''videoId'', JString (lit ''abc'')), (lit ''privacyStatus'', JString (lit ''private'')),
      (lit ''confirmation'', JString (lit ''PUBLISH abc AS PRIVATE'')), (lit ''publishAt'', JString (lit ''later''))] k)"
  unfolding schedule_body_def by (rule object_fields) simp

theorem client_requests_admitted_witness:
  "\<exists>r u sent. youtube_execute sample_codec (\<lambda>_. Err []) sample_client Channel JNull None =
       (r, [PostJson u sent]) \<and>
     doPost sample_gas (\<lambda>a _. (Ok (JString a), [])) (JObject sent) = (Ok (JString (lit ''channel'')), [])"
proof -
  obtain r u sent where run: "youtube_execute sample_codec (\<lambda>_. Err []) sample_client Channel JNull None =
      (r, [PostJson u sent])"
    by (auto simp: youtube_execute_def prepare_payload_def is_mutating_def Let_def)
  have "yc_api_key sample_client = lit ''key''" by (simp add: sample_client_def)
  with client_requests_admitted [OF run, of u sent sample_gas "\<lambda>a _. (Ok (JString a), [])"] run show ?thesis
    by (auto simp: sample_gas_key is_mutating_def actions_table_def)
qed

theorem publication_takes_both_switches_witness:
  "\<exists>r requests u sent status.
     youtube_execute sample_codec (\<lambda>_. Err []) sample_client PublishVideo publish_body
       (Some (lit ''upload-1'')) = (r, requests) \<and> PostJson u sent \<in> set requests \<and>
     VideosUpdate (lit ''abc'') status \<in> set (snd (doPost sample_gas (\<lambda>_ _. (Ok JNull, [])) (JObject sent))) \<and>
     obj_get status (lit ''privacyStatus'') = Some (JString (lit ''public'')) \<and>
     yc_allow_public_actions sample_client \<and> allow_public_uploads sample_gas"
proof -
  obtain m where m: "publish_body = JObject m"
    "\<forall>k. obj_get m k = map_of [(lit ''videoId'', JString (lit ''abc'')), (lit ''privacyStatus'', JString (lit ''public'')),
      (lit ''confirmation'', JString (lit ''PUBLISH abc AS PUBLIC''))] k"
    using publish_body_fields by blast
  obtain r u sent status where run: "youtube_execute sample_codec (\<lambda>_. Err []) sample_client PublishVideo publish_body
       (Some (lit ''upload-1'')) = (r, [PostJson u sent])"
    and upd: "VideosUpdate (lit ''abc'') status \<in> set (snd (doPost sample_gas (\<lambda>_ _. (Ok JNull, [])) (JObject sent)))"
    and st: "obj_get status (lit ''privacyStatus'') = Some (JString (lit ''public''))"
    by (rule sample_publication [of m "lit ''public''" "\<lambda>_ _. (Ok JNull, [])"])
      (auto simp: m sample_phrase VIDEO_PRIVACY_VALUES_def)
  from publication_takes_both_switches [OF run _ upd] st
  have "yc_allow_public_actions sample_client \<and> allow_public_uploads sample_gas" by auto
  with run upd st show ?thesis by fastforce
qed

theorem scheduled_publication_takes_no_switch_witness:
  "\<exists>requests u sent status.
     snd (youtube_execute sample_codec (\<lambda>_. Err []) (sample_client\<lparr>yc_allow_public_actions := False\<rparr>)
       PublishVideo schedule_body (Some (lit ''upload-1''))) = requests \<and> PostJson u sent \<in> set requests \<and>
     VideosUpdate (lit ''abc'') status \<in>
       set (snd (doPost (with_property (lit ''ALLOW_PUBLIC_UPLOADS'') (Some (lit ''false'')) sample_gas)
         (\<lambda>_ _. (Ok JNull, [])) (JObject sent))) \<and>
     obj_get status (lit ''publishAt'') = Some (JString (lit ''later''))"
proof -
  obtain m where m: "schedule_body = JObject m"
    "\<forall>k. obj_get m k = map_of [(lit ''videoId'', JString (lit ''abc'')), (lit ''privacyStatus'', JString (lit ''private'')),
      (lit ''confirmation'', JString (lit ''PUBLISH abc AS PRIVATE'')), (lit ''publishAt'', JString (lit ''later''))] k"
    using schedule_body_fields by blast
  have ph: "publish_phrase (lit ''abc'') (lit ''private'') = lit ''PUBLISH abc AS PRIVATE''"
    by (simp add: publish_phrase_def to_ascii_uppercase_def lit_def)
  obtain r u sent status where run: "youtube_execute sample_codec (\<lambda>_. Err []) sample_client PublishVideo schedule_body
       (Some (lit ''upload-1'')) = (r, [PostJson u sent])"
    and upd: "VideosUpdate (lit ''abc'') status \<in> set (snd (doPost sample_gas (\<lambda>_ _. (Ok JNull, [])) (JObject sent)))"
    and st: "obj_get status (lit ''publishAt'') = Some (JString (lit ''later''))"
    by (rule sample_publication [of m "lit ''private''" "\<lambda>_ _. (Ok JNull, [])"])
      (auto simp: m ph VIDEO_PRIVACY_VALUES_def)
  note g = scheduled_publication_takes_no_switch [OF run _ upd st, of u False "Some (lit ''false'')"]
  from g have "snd (youtube_execute sample_codec (\<lambda>_. Err []) (sample_client\<lparr>yc_allow_public_actions := False\<rparr>)
       PublishVideo schedule_body (Some (lit ''upload-1''))) = [PostJson u sent]" by simp
  moreover from g upd have "VideosUpdate (lit ''abc'') status \<in>
      set (snd (doPost (with_property (lit ''ALLOW_PUBLIC_UPLOADS'') (Some (lit ''false'')) sample_gas)
         (\<lambda>_ _. (Ok JNull, [])) (JObject sent)))" by simp
  ultimately show ?thesis using st by fastforce
qed

end
