(* ===== verification/TcpService.thy ===== *)
theory TcpService
  imports Workers
begin

text \<open>
  The mTLS listener as it runs: the accept loop of \<open>serve_mtls_tcp\<close> in
  \<open>src/transport_runtime.rs\<close> together with the connections it spawns. Each connection
  holds a permit through its handshake and its loop, \<open>serve_tls_connection\<close>, whose turns
  interleave with those of the others; the permit comes back when the task ends.
\<close>

section \<open>A connection turn by turn\<close>

text \<open>One turn of the loop: the frame it sends, or the error that ends it.\<close>

definition serve_turn ::
  "serde \<Rightarrow> service \<Rightarrow> connection_turn \<Rightarrow> (transport_error, u8 list) result" where
  "serve_turn sd execute t =
     (case reply_to_vec sd (turn_reply sd execute t) of
        None \<Rightarrow> Err Transport
      | Some encoded \<Rightarrow>
          if length encoded > MAX_TRANSPORT_BYTES then Err Transport
          else (case turn_send t of
                  SendTimedOut \<Rightarrow> Err Timeout
                | SendFailed \<Rightarrow> Err Transport
                | Sent \<Rightarrow> Ok encoded))"

lemma serve_tls_connection_turn:
  "serve_tls_connection sd execute (t # ts) =
     (case serve_turn sd execute t of
        Err e \<Rightarrow> (Err e, [])
      | Ok encoded \<Rightarrow> let (r, sent) = serve_tls_connection sd execute ts in (r, encoded # sent))"
  by (simp add: serve_turn_def split: option.split send_outcome.split)

lemma serve_tls_connection_snoc:
  "serve_tls_connection sd execute ts = (Ok (), sent) \<Longrightarrow>
   serve_tls_connection sd execute (ts @ [t]) =
     (case serve_turn sd execute t of
        Err e \<Rightarrow> (Err e, sent) | Ok encoded \<Rightarrow> (Ok (), sent @ [encoded]))"
proof (induction ts arbitrary: sent)
  case Nil
  then show ?case by (simp add: serve_tls_connection_turn split: sum.split del: serve_tls_connection.simps(2))
next
  case (Cons u ts)
  then show ?case
    by (auto simp: serve_tls_connection_turn simp del: serve_tls_connection.simps(2)
        split: sum.splits prod.splits)
qed

section \<open>The listener and its connections\<close>

text \<open>
  A task with the turns it has taken and the frames it has sent: in its handshake, in its
  loop, or ended, by a refused or late handshake, by the loop, or by its death.
\<close>

datatype connection_end = TlsRejected | LoopEnded "(transport_error, unit) result" | TaskDied

datatype connection =
    Handshaking
  | Serving "connection_turn list" "u8 list list"
  | Ended connection_end "connection_turn list" "u8 list list"

fun is_open :: "connection \<Rightarrow> bool" where
  "is_open (Ended _ _ _) = False"
| "is_open _ = True"

record tcp_service =
  tcp_listener :: listener
  tcp_connections :: "connection list"

definition start_tcp :: "listener \<Rightarrow> tcp_service" where
  "start_tcp l = \<lparr>tcp_listener = l, tcp_connections = []\<rparr>"

datatype tcp_event =
  Accept | ListenerFails | Handshake nat bool | Turn nat connection_turn | Hangup nat | TaskDies nat

text \<open>What one connection does at an event of its own.\<close>

fun connection_event :: "tcp_event \<Rightarrow> nat option" where
  "connection_event (Handshake i _) = Some i"
| "connection_event (Turn i _) = Some i"
| "connection_event (Hangup i) = Some i"
| "connection_event (TaskDies i) = Some i"
| "connection_event _ = None"

fun connection_step :: "serde \<Rightarrow> service \<Rightarrow> tcp_event \<Rightarrow> connection \<Rightarrow> connection option" where
  "connection_step sd execute (Handshake _ accepted) Handshaking =
     Some (if accepted then Serving [] [] else Ended TlsRejected [] [])"
| "connection_step sd execute (Turn _ t) (Serving ts sent) =
     Some (case serve_turn sd execute t of
             Err e \<Rightarrow> Ended (LoopEnded (Err e)) (ts @ [t]) sent
           | Ok encoded \<Rightarrow> Serving (ts @ [t]) (sent @ [encoded]))"
| "connection_step sd execute (Hangup _) (Serving ts sent) = Some (Ended (LoopEnded (Ok ())) ts sent)"
| "connection_step sd execute (TaskDies _) Handshaking = Some (Ended TaskDied [] [])"
| "connection_step sd execute (TaskDies _) (Serving ts sent) = Some (Ended TaskDied ts sent)"
| "connection_step sd execute _ _ = None"

inductive tcp_step ::
  "serde \<Rightarrow> service \<Rightarrow> tcp_service \<Rightarrow> tcp_event \<Rightarrow> tcp_service \<Rightarrow> bool"
  for sd execute where
  accepted: "0 < permits (tcp_listener d) \<Longrightarrow> listener_step (tcp_listener d) Accepted l \<Longrightarrow>
    tcp_step sd execute d Accept
      (d\<lparr>tcp_listener := l, tcp_connections := tcp_connections d @ [Handshaking]\<rparr>)"
| dropped: "permits (tcp_listener d) = 0 \<Longrightarrow> listener_step (tcp_listener d) Accepted l \<Longrightarrow>
    tcp_step sd execute d Accept (d\<lparr>tcp_listener := l\<rparr>)"
| listener_fails: "listener_step (tcp_listener d) AcceptFailed l \<Longrightarrow>
    tcp_step sd execute d ListenerFails (d\<lparr>tcp_listener := l\<rparr>)"
| goes_on: "connection_event e = Some i \<Longrightarrow> i < length (tcp_connections d) \<Longrightarrow>
    connection_step sd execute e (tcp_connections d ! i) = Some c \<Longrightarrow> is_open c \<Longrightarrow>
    tcp_step sd execute d e (d\<lparr>tcp_connections := (tcp_connections d)[i := c]\<rparr>)"
| ends: "connection_event e = Some i \<Longrightarrow> i < length (tcp_connections d) \<Longrightarrow>
    connection_step sd execute e (tcp_connections d ! i) = Some c \<Longrightarrow> \<not> is_open c \<Longrightarrow>
    listener_step (tcp_listener d) ConnectionEnded l \<Longrightarrow>
    tcp_step sd execute d e
      (d\<lparr>tcp_listener := l, tcp_connections := (tcp_connections d)[i := c]\<rparr>)"

inductive_cases tcp_stepE: "tcp_step sd execute d e d'"

section \<open>Lemmas\<close>

lemma connection_step_open: "connection_step sd execute e c = Some c' \<Longrightarrow> is_open c"
  by (cases c; cases e) simp_all

text \<open>What a connection has done is a run of its loop alone.\<close>

fun transcript_ok :: "serde \<Rightarrow> service \<Rightarrow> connection \<Rightarrow> bool" where
  "transcript_ok sd execute Handshaking = True"
| "transcript_ok sd execute (Serving ts sent) = (serve_tls_connection sd execute ts = (Ok (), sent))"
| "transcript_ok sd execute (Ended TlsRejected ts sent) = (ts = [] \<and> sent = [])"
| "transcript_ok sd execute (Ended (LoopEnded r) ts sent) = (serve_tls_connection sd execute ts = (r, sent))"
| "transcript_ok sd execute (Ended TaskDied ts sent) = (serve_tls_connection sd execute ts = (Ok (), sent))"

lemma transcript_step:
  "connection_step sd execute e c = Some c' \<Longrightarrow> transcript_ok sd execute c \<Longrightarrow> transcript_ok sd execute c'"
  by (cases c; cases e)
    (auto simp: serve_tls_connection_snoc split: sum.splits)

definition tcp_ok :: "serde \<Rightarrow> service \<Rightarrow> tcp_service \<Rightarrow> bool" where
  "tcp_ok sd execute d \<longleftrightarrow>
     connections (tcp_listener d) = length (filter is_open (tcp_connections d)) \<and>
     list_all (transcript_ok sd execute) (tcp_connections d)"

lemma transcripts_step:
  assumes "list_all (transcript_ok sd execute) cs" and "i < length cs"
    and "connection_step sd execute e (cs ! i) = Some c"
  shows "list_all (transcript_ok sd execute) (cs[i := c])"
proof -
  have "transcript_ok sd execute (cs ! i)" using assms(1,2) by (simp add: list_all_length)
  then have "transcript_ok sd execute c" using assms(3) by (rule transcript_step [rotated])
  with assms(1) show ?thesis by (auto simp: list_all_iff dest!: set_update_cases)
qed

lemma tcp_ok_step:
  assumes ok: "tcp_ok sd execute d" and st: "tcp_step sd execute d e d'"
  shows "tcp_ok sd execute d'"
  using st
proof cases
  case (goes_on i c)
  have "list_all (transcript_ok sd execute) ((tcp_connections d)[i := c])"
    using ok goes_on(3,4) by (intro transcripts_step) (simp_all add: tcp_ok_def)
  with ok goes_on connection_step_open [OF goes_on(4)] show ?thesis
    using length_filter_update [of i "tcp_connections d" is_open c] by (simp add: tcp_ok_def)
next
  case (ends i c l)
  have "list_all (transcript_ok sd execute) ((tcp_connections d)[i := c])"
    using ok ends(3,4) by (intro transcripts_step) (simp_all add: tcp_ok_def)
  moreover have "connections l + 1 = connections (tcp_listener d)"
    using ends(6) by (auto elim: listener_stepE)
  ultimately show ?thesis
    using ok ends connection_step_open [OF ends(4)]
      length_filter_update [of i "tcp_connections d" is_open c] by (simp add: tcp_ok_def)
qed (use ok in \<open>auto simp: tcp_ok_def elim!: listener_stepE\<close>)

lemma tcp_ok_start: "tcp_ok sd execute (start_tcp (start_listener n))"
  by (simp add: tcp_ok_def start_tcp_def start_listener_def)

interpretation tcp: invariant_system "\<lambda>d. d = start_tcp (start_listener n)" "tcp_step sd execute"
    "tcp_ok sd execute" for n sd execute
  by unfold_locales (auto simp: tcp_ok_start intro: tcp_ok_step)

text \<open>The listener moves as it does alone.\<close>

lemma listener_moves:
  "tcp_step sd execute d e d' \<Longrightarrow>
   \<exists>ls. steps listener_step (tcp_listener d) ls (tcp_listener d')"
  by (erule tcp_stepE) (simp_all add: steps_none steps_one)

interpretation tcp_accepts: carrying_system "\<lambda>d. d = start_tcp l0" "tcp_step sd execute"
    "\<lambda>l. l = l0" listener_step tcp_listener for l0 sd execute
  by unfold_locales (simp add: start_tcp_def, blast dest: listener_moves)

text \<open>What a connection has sent, with the turns it has taken.\<close>

fun transcript :: "connection \<Rightarrow> connection_turn list \<times> u8 list list" where
  "transcript Handshaking = ([], [])"
| "transcript (Serving ts sent) = (ts, sent)"
| "transcript (Ended _ ts sent) = (ts, sent)"

lemma transcript_sent:
  "transcript_ok sd execute c \<Longrightarrow>
   snd (transcript c) = snd (serve_tls_connection sd execute (fst (transcript c)))"
  by (induction c rule: transcript_ok.induct) simp_all

lemma accept_spawns:
  "tcp_step sd execute d Accept d' \<Longrightarrow>
   length (tcp_connections d') =
     (if 0 < permits (tcp_listener d) then Suc (length (tcp_connections d)) else length (tcp_connections d))"
  by (erule tcp_stepE) auto

section \<open>Properties\<close>

text \<open>
  C23: However connections arrive, shake hands, take turns, hang up and die, the started
  listener is its accept loop in step with the connection loops: at most the reviewed 128
  connections are open and an arriving one is dropped exactly when that many are; and each
  connection has sent what the connection loop sends when it runs alone on the same turns,
  whatever the others do.
\<close>

theorem tcp_service_runs_its_loops:
  assumes "serve_mtls_tcp n = Ok l0"
    and "reachable (\<lambda>d. d = start_tcp l0) (tcp_step sd execute) d"
  shows "reachable (\<lambda>l. l = l0) listener_step (tcp_listener d) \<and>
    connections (tcp_listener d) = length (filter is_open (tcp_connections d)) \<and>
    length (filter is_open (tcp_connections d)) \<le> n \<and> n \<le> 128 \<and>
    (\<forall>d'. tcp_step sd execute d Accept d' \<longrightarrow>
       (length (tcp_connections d') = length (tcp_connections d) \<longleftrightarrow>
        length (filter is_open (tcp_connections d)) = n)) \<and>
    (\<forall>c \<in> set (tcp_connections d).
       snd (transcript c) = snd (serve_tls_connection sd execute (fst (transcript c))))"
proof -
  from assms(1) have l0: "l0 = start_listener n" and n: "n \<le> 128"
    by (auto simp: serve_mtls_tcp_def in_range_def MAX_TCP_CONNECTIONS_def split: if_splits)
  have r: "reachable (\<lambda>l. l = start_listener n) listener_step (tcp_listener d)"
    using tcp_accepts.reachable_part [OF assms(2)] by (simp add: l0)
  have ok: "tcp_ok sd execute d" using assms(2) unfolding l0 by (rule tcp.reachable_inv)
  then have transcripts: "\<forall>c \<in> set (tcp_connections d).
      snd (transcript c) = snd (serve_tls_connection sd execute (fst (transcript c)))"
    by (simp add: tcp_ok_def list_all_iff transcript_sent)
  have drops: "length (tcp_connections d') = length (tcp_connections d) \<longleftrightarrow>
      length (filter is_open (tcp_connections d)) = n" if "tcp_step sd execute d Accept d'" for d'
    using listener_pool.full_iff [OF r] ok accept_spawns [OF that] by (auto simp: tcp_ok_def)
  show ?thesis
    using r ok n drops transcripts listener_pool.held_bounded [OF r] by (simp add: tcp_ok_def l0)
qed

text \<open>One connection after its handshake and one turn.\<close>

definition sample_tcp_serde :: serde where
  "sample_tcp_serde =
     \<lparr>envelope_to_vec = \<lambda>_. None, operation_from_slice = \<lambda>_. None, operation_from_str = \<lambda>_. None,
      reply_to_vec = \<lambda>_. Some [123, 125], value_from_str = \<lambda>_. None\<rparr>"

definition sample_tcp_turn :: connection_turn where
  "sample_tcp_turn =
     \<lparr>turn_item = FrameError, turn_now = 1, turn_timed_out = False, turn_send = Sent\<rparr>"

definition sample_tcp :: tcp_service where
  "sample_tcp =
     \<lparr>tcp_listener = \<lparr>permits = 0, connections = 1, rejected = 0, listening = True\<rparr>,
      tcp_connections = [Serving [sample_tcp_turn] [[123, 125]]]\<rparr>"

lemma sample_tcp_reachable:
  "reachable (\<lambda>d. d = start_tcp (start_listener 1)) (tcp_step sample_tcp_serde execute) sample_tcp"
proof -
  let ?R = "reachable (\<lambda>d. d = start_tcp (start_listener 1)) (tcp_step sample_tcp_serde execute)"
  let ?l = "\<lparr>permits = 0, connections = 1, rejected = 0, listening = True\<rparr>"
  let ?d = "\<lambda>c. \<lparr>tcp_listener = ?l, tcp_connections = [c]\<rparr>"
  have "?R (start_tcp (start_listener 1))" by (rule reachable_init) simp
  then have "?R (?d Handshaking)"
    by (rule reachable_step)
      (use accepted [OF _ accept, of "start_tcp (start_listener 1)"] in
        \<open>simp add: start_tcp_def start_listener_def\<close>)
  then have "?R (?d (Serving [] []))"
    by (rule reachable_step)
      (use goes_on [of "Handshake 0 True" 0 "?d Handshaking" sample_tcp_serde execute "Serving [] []"] in simp)
  then have "?R (?d (Serving [sample_tcp_turn] [[123, 125]]))"
    by (rule reachable_step)
      (use goes_on [of "Turn 0 sample_tcp_turn" 0 "?d (Serving [] [])" sample_tcp_serde execute
          "Serving [sample_tcp_turn] [[123, 125]]"] in
        \<open>simp add: serve_turn_def sample_tcp_serde_def sample_tcp_turn_def MAX_TRANSPORT_BYTES_def\<close>)
  then show ?thesis by (simp add: sample_tcp_def)
qed

theorem tcp_service_runs_its_loops_witness:
  "snd (serve_tls_connection sample_tcp_serde (\<lambda>_ _. Err Unauthorized) [sample_tcp_turn]) = [[123, 125]]"
proof -
  have "serve_mtls_tcp 1 = Ok (start_listener 1)"
    by (simp add: serve_mtls_tcp_def in_range_def MAX_TCP_CONNECTIONS_def)
  from tcp_service_runs_its_loops [OF this sample_tcp_reachable, of "\<lambda>_ _. Err Unauthorized"]
  show ?thesis by (simp add: sample_tcp_def)
qed

end
