(* ===== verification/Shutdown.thy ===== *)
theory Shutdown
  imports RustText
begin

text \<open>
  \<open>src/server/shutdown.rs\<close>: the state machine of a shutdown, its configuration and the
  supervisor that drives it. What becomes ready while the supervisor waits (the server task,
  a signal, the deadline, end of the terminal's input) is a schedule; a select takes the
  first entry of the schedule it polls. The calls on the server's handle and the log events
  are effects.
\<close>

section \<open>The state machine\<close>

datatype phase = Running | Draining | Forcing | Complete

datatype trigger = Sigint | Sigterm | StdinEof | TimeoutElapsed | GracefulComplete

datatype action = Ignore | BeginGraceful | Force | CompleteShutdown

fun phase_as_str :: "phase \<Rightarrow> ustr" where
  "phase_as_str Running = lit ''running''"
| "phase_as_str Draining = lit ''draining''"
| "phase_as_str Forcing = lit ''forcing''"
| "phase_as_str Complete = lit ''complete''"

fun trigger_as_str :: "trigger \<Rightarrow> ustr" where
  "trigger_as_str Sigint = lit ''sigint''"
| "trigger_as_str Sigterm = lit ''sigterm''"
| "trigger_as_str StdinEof = lit ''stdin_eof''"
| "trigger_as_str TimeoutElapsed = lit ''timeout''"
| "trigger_as_str GracefulComplete = lit ''graceful_complete''"

definition is_signal :: "trigger \<Rightarrow> bool" where
  "is_signal t \<longleftrightarrow> t = Sigint \<or> t = Sigterm"

record shutdown_state =
  sd_phase :: phase
  sd_stdin_is_tty :: bool
  sd_first_trigger :: "trigger option"

record transition =
  tr_state :: shutdown_state
  tr_action :: action
  tr_show_force_hint :: bool

definition new_state :: "bool \<Rightarrow> shutdown_state" where
  "new_state tty = \<lparr>sd_phase = Running, sd_stdin_is_tty = tty, sd_first_trigger = None\<rparr>"

definition ignored :: "shutdown_state \<Rightarrow> transition" where
  "ignored s = \<lparr>tr_state = s, tr_action = Ignore, tr_show_force_hint = False\<rparr>"

definition apply_trigger :: "shutdown_state \<Rightarrow> trigger \<Rightarrow> transition" where
  "apply_trigger s t =
     (case sd_phase s of
        Running \<Rightarrow>
          if t = Sigint \<or> t = Sigterm
          then \<lparr>tr_state = s\<lparr>sd_phase := Draining, sd_first_trigger := Some t\<rparr>,
                tr_action = BeginGraceful,
                tr_show_force_hint = sd_stdin_is_tty s \<and> t = Sigint\<rparr>
          else ignored s
      | Draining \<Rightarrow>
          if t = GracefulComplete
          then \<lparr>tr_state = s\<lparr>sd_phase := Complete\<rparr>, tr_action = CompleteShutdown,
                tr_show_force_hint = False\<rparr>
          else if t = Sigint \<or> t = Sigterm \<or> t = TimeoutElapsed
          then \<lparr>tr_state = s\<lparr>sd_phase := Forcing\<rparr>, tr_action = Force, tr_show_force_hint = False\<rparr>
          else if t = StdinEof \<and> sd_stdin_is_tty s \<and> sd_first_trigger s = Some Sigint
          then \<lparr>tr_state = s\<lparr>sd_phase := Forcing\<rparr>, tr_action = Force, tr_show_force_hint = False\<rparr>
          else ignored s
      | _ \<Rightarrow> ignored s)"

subsection \<open>The machine and its interfaces\<close>

text \<open>The triggers that have an effect, as steps.\<close>

inductive shutdown_step :: "shutdown_state \<Rightarrow> trigger \<times> action \<Rightarrow> shutdown_state \<Rightarrow> bool" where
  take: "tr_action (apply_trigger s t) = a \<Longrightarrow> a \<noteq> Ignore \<Longrightarrow>
    shutdown_step s (t, a) (tr_state (apply_trigger s t))"

inductive_cases shutdown_stepE: "shutdown_step s l s'"

definition shutdown_wf :: "shutdown_state \<Rightarrow> bool" where
  "shutdown_wf s \<longleftrightarrow>
     (case sd_first_trigger s of
        None \<Rightarrow> sd_phase s = Running
      | Some t \<Rightarrow> sd_phase s \<noteq> Running \<and> is_signal t)"

fun phase_rank :: "phase \<Rightarrow> nat" where
  "phase_rank Running = 2"
| "phase_rank Draining = 1"
| "phase_rank Forcing = 0"
| "phase_rank Complete = 0"

lemma apply_ignored: "tr_action (apply_trigger s t) = Ignore \<Longrightarrow> tr_state (apply_trigger s t) = s"
  by (auto simp: apply_trigger_def ignored_def split: phase.splits if_splits)

lemma apply_wf: "shutdown_wf s \<Longrightarrow> shutdown_wf (tr_state (apply_trigger s t))"
  by (auto simp: apply_trigger_def ignored_def shutdown_wf_def is_signal_def
      split: phase.splits if_splits option.splits)

lemma apply_rank:
  "tr_action (apply_trigger s t) \<noteq> Ignore \<Longrightarrow>
   phase_rank (sd_phase (tr_state (apply_trigger s t))) < phase_rank (sd_phase s)"
  by (auto simp: apply_trigger_def ignored_def split: phase.splits if_splits)

interpretation shutdown: ranked_system "\<lambda>s. \<exists>tty. s = new_state tty" shutdown_step shutdown_wf
    "\<lambda>s. phase_rank (sd_phase s)"
  by unfold_locales
    (auto simp: new_state_def shutdown_wf_def elim!: shutdown_stepE
      dest: apply_wf [unfolded shutdown_wf_def] apply_rank)

text \<open>Feeding a list of triggers: the actions taken, without the ignored ones.\<close>

fun feed :: "shutdown_state \<Rightarrow> trigger list \<Rightarrow> shutdown_state \<times> action list" where
  "feed s [] = (s, [])"
| "feed s (t # ts) =
     (let tr = apply_trigger s t; (s', acts) = feed (tr_state tr) ts
      in (s', if tr_action tr = Ignore then acts else tr_action tr # acts))"

lemma feed_steps:
  "feed s ts = (s', acts) \<Longrightarrow> steps shutdown_step s0 ls s \<Longrightarrow>
   \<exists>ms. steps shutdown_step s0 (ls @ ms) s' \<and> map snd ms = acts"
proof (induction ts arbitrary: s acts ls)
  case (Cons t ts)
  let ?tr = "apply_trigger s t"
  obtain acts' where f: "feed (tr_state ?tr) ts = (s', acts')"
    and acts: "acts = (if tr_action ?tr = Ignore then acts' else tr_action ?tr # acts')"
    using Cons.prems(1) by (auto simp: Let_def split: prod.splits)
  show ?case
  proof (cases "tr_action ?tr = Ignore")
    case True
    with Cons.IH [OF f] Cons.prems(2) acts show ?thesis by (simp add: apply_ignored)
  next
    case False
    have "steps shutdown_step s0 (ls @ [(t, tr_action ?tr)]) (tr_state ?tr)"
      using Cons.prems(2) take [OF refl False] by (rule steps_snoc)
    from Cons.IH [OF f this] obtain ms where "steps shutdown_step s0 (ls @ (t, tr_action ?tr) # ms) s'"
      "map snd ms = acts'" by auto
    with False acts show ?thesis by (intro exI [of _ "(t, tr_action ?tr) # ms"]) simp
  qed
qed auto

lemma shutdown_wf_new [simp]: "shutdown_wf (new_state tty)"
  by (simp add: shutdown_wf_def new_state_def)

section \<open>Configuration\<close>

record shutdown_config =
  grace_period_ms :: nat
  config_stdin_is_tty :: bool
  watch_stdin_eof :: bool

definition DEFAULT_SHUTDOWN_GRACE_MS :: nat where
  "DEFAULT_SHUTDOWN_GRACE_MS = 10000"

definition FORCE_SETTLE_TIMEOUT_MS :: nat where
  "FORCE_SETTLE_TIMEOUT_MS = 2000"

definition shutdown_config_from_env :: "(var_error, ustr) result \<Rightarrow> bool \<Rightarrow> shutdown_config" where
  "shutdown_config_from_env var tty =
     \<lparr>grace_period_ms =
        (case var of
           Ok raw \<Rightarrow>
             (case parse_unsigned (2 ^ 64 - 1) raw of
                Some v \<Rightarrow> if v > 0 then v else DEFAULT_SHUTDOWN_GRACE_MS
              | None \<Rightarrow> DEFAULT_SHUTDOWN_GRACE_MS)
         | Err NotPresent \<Rightarrow> DEFAULT_SHUTDOWN_GRACE_MS
         | Err _ \<Rightarrow> DEFAULT_SHUTDOWN_GRACE_MS),
      config_stdin_is_tty = tty, watch_stdin_eof = True\<rparr>"

text \<open>\<open>grace_ms\<close>: a duration in milliseconds as a \<open>u64\<close>.\<close>

definition grace_ms :: "nat \<Rightarrow> u64" where
  "grace_ms ms = u64_saturating ms"

section \<open>Signals\<close>

text \<open>Which signal stream answers next, and whether it is still open.\<close>

datatype signal_ready = SigintStream bool | SigtermStream bool

fun signals_recv :: "signal_ready \<Rightarrow> (ustr, trigger) result" where
  "signals_recv (SigintStream open_stream) =
     (if open_stream then Ok Sigint else Err (lit ''SIGINT stream closed''))"
| "signals_recv (SigtermStream open_stream) =
     (if open_stream then Ok Sigterm else Err (lit ''SIGTERM stream closed''))"

text \<open>The forwarding task: every trigger, or one error and the end of the channel.\<close>

fun forward_signals :: "signal_ready list \<Rightarrow> (ustr, trigger) result list" where
  "forward_signals [] = []"
| "forward_signals (r # rs) =
     (case signals_recv r of Ok t \<Rightarrow> Ok t # forward_signals rs | Err e \<Rightarrow> [Err e])"

definition receive_trigger :: "(ustr, trigger) result option \<Rightarrow> (ustr, trigger) result" where
  "receive_trigger m =
     (case m of None \<Rightarrow> Err (lit ''shutdown signal stream closed'') | Some r \<Rightarrow> r)"

lemma signals_recv_signal: "signals_recv r = Ok t \<Longrightarrow> is_signal t"
  by (cases r) (auto simp: is_signal_def split: if_splits)

lemma forward_signals_signal: "Ok t \<in> set (forward_signals rs) \<Longrightarrow> is_signal t"
  by (induction rs) (auto dest: signals_recv_signal split: sum.splits)

text \<open>\<open>Signals::new\<close> on unix: both streams must open.\<close>

definition signals_open :: "(ustr, unit) result \<Rightarrow> (ustr, unit) result \<Rightarrow> (ustr, unit) result" where
  "signals_open sigint sigterm = and_then sigint (\<lambda>_. and_then sigterm (\<lambda>_. Ok ()))"

section \<open>The watcher of the terminal\<close>

text \<open>
  The thread reads standard input byte by byte: it reports the end of file, gives up without
  a report on an error, and otherwise keeps reading. Its receiver waits for ever when there
  is no thread or no report.
\<close>

datatype stdin_read = ReadEof | ReadByte | ReadError

fun stdin_eof_watcher :: "stdin_read list \<Rightarrow> bool option" where
  "stdin_eof_watcher [] = None"
| "stdin_eof_watcher (ReadEof # _) = Some True"
| "stdin_eof_watcher (ReadByte # rs) = stdin_eof_watcher rs"
| "stdin_eof_watcher (ReadError # _) = Some False"

definition spawn_stdin_eof_watcher :: "(ustr, unit) result \<Rightarrow> stdin_read list \<Rightarrow> bool option option" where
  "spawn_stdin_eof_watcher thread reads =
     (case thread of Ok _ \<Rightarrow> Some (stdin_eof_watcher reads) | Err _ \<Rightarrow> None)"

definition receive_eof :: "bool option option \<Rightarrow> bool" where
  "receive_eof watcher \<longleftrightarrow> watcher = Some (Some True)"

lemma stdin_eof_watcher_True_iff:
  "stdin_eof_watcher reads = Some True \<longleftrightarrow>
     (\<exists>n rest. reads = replicate n ReadByte @ ReadEof # rest)"
proof (induction reads rule: stdin_eof_watcher.induct)
  case (3 rs)
  have "(\<exists>n rest. ReadByte # rs = replicate n ReadByte @ ReadEof # rest) \<longleftrightarrow>
      (\<exists>n rest. rs = replicate n ReadByte @ ReadEof # rest)" (is "?l \<longleftrightarrow> ?r")
  proof
    assume ?l
    then obtain n rest where "ReadByte # rs = replicate n ReadByte @ ReadEof # rest" by blast
    then show ?r by (cases n) auto
  next
    assume ?r
    then show ?l by (metis append_Cons replicate_Suc)
  qed
  with 3 show ?case by simp
next
  case (2 rs)
  show ?case by (auto intro!: exI [of _ 0])
qed (auto simp: Cons_eq_append_conv Cons_replicate_eq)

lemma receive_eof_iff:
  "receive_eof (spawn_stdin_eof_watcher thread reads) \<longleftrightarrow>
     is_ok thread \<and> (\<exists>n rest. reads = replicate n ReadByte @ ReadEof # rest)"
  by (cases thread)
    (simp_all add: receive_eof_def spawn_stdin_eof_watcher_def stdin_eof_watcher_True_iff)

section \<open>The supervisor\<close>

text \<open>The server task's end: a join error, or the server's own result.\<close>

type_synonym server_result = "(ustr, (ustr, unit) result) result"

datatype ready =
    ServerEnded server_result
  | TriggerReady "(ustr, trigger) result option"
  | DeadlineElapsed
  | StdinClosed

datatype settled = ServerSettled server_result | SettleTimedOut

record log_event =
  log_name :: ustr
  log_phase :: phase
  log_trigger :: ustr
  log_first_trigger :: "ustr option"
  log_stdin_is_tty :: bool
  log_grace :: u64
  log_signal_count :: u32
  log_forced :: bool

datatype control =
    GracefulShutdown
  | WatchStdin
  | ImmediateShutdown
  | AbortServer
  | Log log_event
  | LogForceTimeout phase ustr u64

record outcome =
  forced :: bool
  outcome_trigger :: trigger

datatype supervisor_error =
    ServerFailed ustr
  | TriggerFailed ustr
  | InvalidFirstTrigger trigger
  | InvalidTransition phase trigger
  | DidNotSettle

definition flatten_server_result :: "server_result \<Rightarrow> (supervisor_error, unit) result" where
  "flatten_server_result r =
     (case r of
        Ok (Ok u) \<Rightarrow> Ok u
      | Ok (Err e) \<Rightarrow> Err (ServerFailed e)
      | Err e \<Rightarrow> Err (ServerFailed e))"

text \<open>A select: the first entry of the schedule that is polled; the others are passed over.\<close>

fun select_ready :: "(ready \<Rightarrow> bool) \<Rightarrow> ready list \<Rightarrow> (ready \<times> ready list) option" where
  "select_ready polled [] = None"
| "select_ready polled (r # rs) = (if polled r then Some (r, rs) else select_ready polled rs)"

definition polls_first :: "ready \<Rightarrow> bool" where
  "polls_first r \<longleftrightarrow> r \<noteq> DeadlineElapsed \<and> r \<noteq> StdinClosed"

definition polls_draining :: "bool \<Rightarrow> ready \<Rightarrow> bool" where
  "polls_draining watching r \<longleftrightarrow> r = StdinClosed \<longrightarrow> watching"

text \<open>
  A record of the supervisor without its connection count and elapsed time; the state's
  \<open>stdin_is_tty\<close> is that of the configuration throughout.
\<close>

definition log_with ::
  "shutdown_config \<Rightarrow> trigger option \<Rightarrow> string \<Rightarrow> phase \<Rightarrow> ustr \<Rightarrow> u32 \<Rightarrow> bool \<Rightarrow> control" where
  "log_with cfg first name ph trig count was_forced =
     Log \<lparr>log_name = lit name, log_phase = ph, log_trigger = trig,
          log_first_trigger = map_option trigger_as_str first,
          log_stdin_is_tty = config_stdin_is_tty cfg,
          log_grace = grace_ms (grace_period_ms cfg), log_signal_count = count,
          log_forced = was_forced\<rparr>"

abbreviation log_of :: "shutdown_config \<Rightarrow> string \<Rightarrow> phase \<Rightarrow> ustr \<Rightarrow> u32 \<Rightarrow> bool \<Rightarrow> control" where
  "log_of cfg \<equiv> log_with cfg None"

text \<open>After the immediate shutdown: the server settles in time, or it is aborted.\<close>

definition settle_forced ::
  "shutdown_config \<Rightarrow> trigger \<Rightarrow> trigger \<Rightarrow> phase \<Rightarrow> u32 \<Rightarrow> settled \<Rightarrow>
   (supervisor_error, outcome) result \<times> control list" where
  "settle_forced cfg first_trigger force_trigger ph count st =
     (case st of
        ServerSettled r \<Rightarrow>
          (case flatten_server_result r of
             Err e \<Rightarrow> (Err e, [])
           | Ok _ \<Rightarrow>
               (Ok \<lparr>forced = True, outcome_trigger = force_trigger\<rparr>,
                [log_with cfg (Some first_trigger) ''shutdown_complete'' Complete
                   (trigger_as_str force_trigger) count True]))
      | SettleTimedOut \<Rightarrow>
          (Err DidNotSettle,
           [LogForceTimeout ph (trigger_as_str force_trigger) (grace_ms FORCE_SETTLE_TIMEOUT_MS), AbortServer]))"

text \<open>
  The second wait, while the server drains: it completes, or a second trigger forces the
  shutdown.
\<close>

definition supervise_draining ::
  "shutdown_config \<Rightarrow> shutdown_state \<Rightarrow> trigger \<Rightarrow> u32 \<Rightarrow> ready \<Rightarrow> settled \<Rightarrow>
   (supervisor_error, outcome) result \<times> control list" where
  "supervise_draining cfg state first_trigger count r st =
     (let finish = (\<lambda>force_trigger.
            let count' = (if is_signal force_trigger then saturating_add count 1 else count);
                tr = apply_trigger state force_trigger
            in if tr_action tr \<noteq> Force
               then (Err (InvalidTransition (sd_phase state) force_trigger), [])
               else
                 let (res, ctl) = settle_forced cfg first_trigger force_trigger (sd_phase (tr_state tr)) count' st
                 in (res, log_with cfg (Some first_trigger) ''shutdown_forced'' (sd_phase (tr_state tr))
                            (trigger_as_str force_trigger) count' True
                          # ImmediateShutdown # ctl))
      in case r of
           ServerEnded res \<Rightarrow>
             (case flatten_server_result res of
                Err e \<Rightarrow> (Err e, [])
              | Ok _ \<Rightarrow>
                  let state' = tr_state (apply_trigger state GracefulComplete)
                  in (Ok \<lparr>forced = False, outcome_trigger = first_trigger\<rparr>,
                      [log_of cfg ''shutdown_complete'' (sd_phase state')
                         (trigger_as_str first_trigger) count False]))
         | TriggerReady m \<Rightarrow>
             (case receive_trigger m of Err e \<Rightarrow> (Err (TriggerFailed e), []) | Ok t \<Rightarrow> finish t)
         | DeadlineElapsed \<Rightarrow> finish TimeoutElapsed
         | StdinClosed \<Rightarrow> finish StdinEof)"

text \<open>
  The whole supervisor over a schedule, with whether the watcher of the terminal could be
  started and how the server answers an immediate shutdown. No result means that it is
  still waiting at the end of the schedule.
\<close>

definition supervise_with_triggers ::
  "shutdown_config \<Rightarrow> bool \<Rightarrow> ready list \<Rightarrow> settled \<Rightarrow>
   ((supervisor_error, outcome) result \<times> control list) option" where
  "supervise_with_triggers cfg watcher_starts schedule st =
     (case select_ready polls_first schedule of
        None \<Rightarrow> None
      | Some (ServerEnded r, _) \<Rightarrow>
          (case flatten_server_result r of
             Err e \<Rightarrow> Some (Err e, [])
           | Ok _ \<Rightarrow>
               Some (Ok \<lparr>forced = False, outcome_trigger = GracefulComplete\<rparr>,
                 [log_of cfg ''shutdown_complete'' Complete (lit ''server_complete'') 0 False]))
      | Some (TriggerReady m, rest) \<Rightarrow>
          (case receive_trigger m of
             Err e \<Rightarrow> Some (Err (TriggerFailed e), [])
           | Ok first_trigger \<Rightarrow>
               let first = apply_trigger (new_state (config_stdin_is_tty cfg)) first_trigger in
               if tr_action first \<noteq> BeginGraceful
               then Some (Err (InvalidFirstTrigger first_trigger), [])
               else
                 let state = tr_state first;
                     count = (if is_signal first_trigger then 1 else 0);
                     hint = tr_show_force_hint first \<and> watch_stdin_eof cfg;
                     watching = hint \<and> watcher_starts;
                     opening =
                       [GracefulShutdown,
                        log_of cfg ''shutdown_requested'' (sd_phase state)
                          (trigger_as_str first_trigger) count False] @
                       (if hint
                        then [log_of cfg ''shutdown_force_available'' (sd_phase state)
                                (trigger_as_str first_trigger) count False, WatchStdin]
                        else [])
                 in (case select_ready (polls_draining watching) rest of
                       None \<Rightarrow> None
                     | Some (r, _) \<Rightarrow>
                         let (res, ctl) = supervise_draining cfg state first_trigger count r st
                         in Some (res, opening @ ctl)))
      | Some (_, _) \<Rightarrow> None)"

text \<open>
  \<open>supervise\<close>: the signal streams must open, and of the result only the error is passed
  on. With it, what the supervisor has done.
\<close>

definition supervise ::
  "(ustr, unit) result \<Rightarrow> shutdown_config \<Rightarrow> bool \<Rightarrow> ready list \<Rightarrow> settled \<Rightarrow>
   ((supervisor_error, unit) result \<times> control list) option" where
  "supervise signals_new cfg watcher_starts schedule st =
     (case signals_new of
        Err e \<Rightarrow> Some (Err (TriggerFailed e), [])
      | Ok _ \<Rightarrow>
          map_option (\<lambda>(r, ctl). (and_then r (\<lambda>_. Ok ()), ctl))
            (supervise_with_triggers cfg watcher_starts schedule st))"

section \<open>Lemmas\<close>

lemma feed_terminal: "sd_phase s \<in> {Forcing, Complete} \<Longrightarrow> feed s ts = (s, [])"
  by (induction ts) (auto simp: apply_trigger_def ignored_def)

lemma feed_draining:
  "sd_phase s = Draining \<Longrightarrow>
   snd (feed s ts) \<in> {[], [Force], [CompleteShutdown]}"
proof (induction ts)
  case (Cons t ts)
  show ?case
  proof (cases "tr_action (apply_trigger s t) = Ignore")
    case True
    then show ?thesis
      using Cons by (simp add: apply_ignored Let_def split: prod.splits)
  next
    case False
    with Cons.prems have "tr_action (apply_trigger s t) \<in> {Force, CompleteShutdown}"
      "sd_phase (tr_state (apply_trigger s t)) \<in> {Forcing, Complete}"
      by (auto simp: apply_trigger_def ignored_def split: if_splits)
    then show ?thesis using feed_terminal [of "tr_state (apply_trigger s t)" ts] by auto
  qed
qed simp

lemma feed_running:
  "sd_phase s = Running \<Longrightarrow>
   snd (feed s ts) \<in> {[], [BeginGraceful], [BeginGraceful, Force], [BeginGraceful, CompleteShutdown]}"
proof (induction ts)
  case (Cons t ts)
  show ?case
  proof (cases "tr_action (apply_trigger s t) = Ignore")
    case True
    then show ?thesis
      using Cons by (simp add: apply_ignored Let_def split: prod.splits)
  next
    case False
    with Cons.prems have "tr_action (apply_trigger s t) = BeginGraceful"
      "sd_phase (tr_state (apply_trigger s t)) = Draining"
      by (auto simp: apply_trigger_def ignored_def split: if_splits)
    then show ?thesis using feed_draining [of "tr_state (apply_trigger s t)" ts]
      by (auto split: prod.splits)
  qed
qed simp

lemma select_ready_Some: "r \<in> set rs \<Longrightarrow> polled r \<Longrightarrow> \<exists>x. select_ready polled rs = Some x"
  by (induction rs) auto

lemma select_ready_set: "select_ready polled rs = Some (r, rest) \<Longrightarrow> r \<in> set rs \<and> polled r \<and> set rest \<subseteq> set rs"
  by (induction rs) (auto split: if_splits)

lemma select_ready_prefix:
  "polled r \<Longrightarrow> \<exists>q rest. select_ready polled (pre @ r # post) = Some (q, rest) \<and> set post \<subseteq> set rest"
  by (induction pre) auto

lemma first_signal:
  "is_signal t \<Longrightarrow> apply_trigger (new_state tty) t =
     \<lparr>tr_state = \<lparr>sd_phase = Draining, sd_stdin_is_tty = tty, sd_first_trigger = Some t\<rparr>,
      tr_action = BeginGraceful, tr_show_force_hint = tty \<and> t = Sigint\<rparr>"
  by (auto simp: apply_trigger_def new_state_def is_signal_def)

lemma first_graceful_iff:
  "tr_action (apply_trigger (new_state tty) t) = BeginGraceful \<longleftrightarrow> is_signal t"
  by (auto simp: apply_trigger_def new_state_def is_signal_def ignored_def)

lemma draining_force:
  "tr_action (apply_trigger \<lparr>sd_phase = Draining, sd_stdin_is_tty = tty, sd_first_trigger = Some t0\<rparr> t) = Force \<longleftrightarrow>
   is_signal t \<or> t = TimeoutElapsed \<or> (t = StdinEof \<and> tty \<and> t0 = Sigint)"
  by (cases t) (auto simp: apply_trigger_def is_signal_def ignored_def)

lemmas supervisor_defs =
  supervise_with_triggers_def supervise_draining_def settle_forced_def

text \<open>The two ways a supervisor returns: before any trigger, or from the second wait.\<close>

lemma supervise_cases:
  assumes "supervise_with_triggers cfg ws schedule st = Some (res, ctl)"
  obtains (server) r rest where "select_ready polls_first schedule = Some (ServerEnded r, rest)"
      "res = (case flatten_server_result r of Err e \<Rightarrow> Err e
         | Ok _ \<Rightarrow> Ok \<lparr>forced = False, outcome_trigger = GracefulComplete\<rparr>)"
      "ImmediateShutdown \<notin> set ctl" "GracefulShutdown \<notin> set ctl" "AbortServer \<notin> set ctl"
  | (failed) e m rest where "select_ready polls_first schedule = Some (TriggerReady m, rest)"
      "receive_trigger m = Err e" "res = Err (TriggerFailed e)" "ctl = []"
  | (invalid) t m rest where "select_ready polls_first schedule = Some (TriggerReady m, rest)"
      "receive_trigger m = Ok t" "\<not> is_signal t" "res = Err (InvalidFirstTrigger t)" "ctl = []"
  | (draining) t m rest r rest' count logs ctl' where
      "select_ready polls_first schedule = Some (TriggerReady m, rest)"
      "receive_trigger m = Ok t" "is_signal t"
      "select_ready (polls_draining (config_stdin_is_tty cfg \<and> t = Sigint \<and> watch_stdin_eof cfg \<and> ws)) rest
         = Some (r, rest')"
      "supervise_draining cfg
         \<lparr>sd_phase = Draining, sd_stdin_is_tty = config_stdin_is_tty cfg, sd_first_trigger = Some t\<rparr>
         t count r st = (res, ctl')"
      "ctl = GracefulShutdown # logs @ ctl'"
      "GracefulShutdown \<notin> set logs" "ImmediateShutdown \<notin> set logs" "AbortServer \<notin> set logs"
proof -
  obtain q rest where q: "select_ready polls_first schedule = Some (q, rest)"
    using assms by (auto simp: supervise_with_triggers_def split: option.splits)
  then have "polls_first q" by (rule select_ready_set [THEN conjunct2, THEN conjunct1])
  then consider (s) r where "q = ServerEnded r" | (t) m where "q = TriggerReady m"
    by (cases q) (auto simp: polls_first_def)
  then show thesis
  proof cases
    case s
    with assms q show thesis
      by (intro server [of r rest])
        (auto simp: supervise_with_triggers_def log_with_def split: sum.splits)
  next
    case t
    show thesis
    proof (cases "receive_trigger m")
      case (Inl e)
      with assms q t show thesis by (intro failed) (auto simp: supervise_with_triggers_def)
    next
      case (Inr t0)
      show thesis
      proof (cases "is_signal t0")
        case False
        with assms q t Inr show thesis
          by (intro invalid) (auto simp: supervise_with_triggers_def Let_def first_graceful_iff)
      next
        case True
        let ?w = "config_stdin_is_tty cfg \<and> t0 = Sigint \<and> watch_stdin_eof cfg \<and> ws"
        obtain r rest' where r: "select_ready (polls_draining ?w) rest = Some (r, rest')"
          using assms q t Inr True
          by (auto simp: supervise_with_triggers_def Let_def first_signal conj_assoc split: option.splits)
        obtain res' ctl' where d: "supervise_draining cfg
            \<lparr>sd_phase = Draining, sd_stdin_is_tty = config_stdin_is_tty cfg, sd_first_trigger = Some t0\<rparr>
            t0 1 r st = (res', ctl')" by fastforce
        have "res' = res \<and> (\<exists>logs. ctl = GracefulShutdown # logs @ ctl' \<and>
            GracefulShutdown \<notin> set logs \<and> ImmediateShutdown \<notin> set logs \<and> AbortServer \<notin> set logs)"
          using assms q t Inr True r d
          by (auto simp: supervise_with_triggers_def Let_def first_signal conj_assoc log_with_def
              split: if_splits)
        with draining [OF q [unfolded t] Inr True r] d show thesis by blast
      qed
    qed
  qed
qed

lemma supervise_draining_controls:
  "supervise_draining cfg s t0 count r st = (res, ctl) \<Longrightarrow>
   GracefulShutdown \<notin> set ctl \<and>
   (\<forall>x. res = Ok x \<longrightarrow> (forced x \<longleftrightarrow> ImmediateShutdown \<in> set ctl)) \<and>
   (AbortServer \<in> set ctl \<longleftrightarrow> res = Err DidNotSettle) \<and>
   (AbortServer \<in> set ctl \<longrightarrow> ImmediateShutdown \<in> set ctl)"
  by (cases r)
    (auto simp: supervise_draining_def Let_def settle_forced_def log_with_def
      flatten_server_result_def receive_trigger_def
      split: sum.splits option.splits settled.splits if_splits prod.splits)

lemma supervise_draining_valid:
  assumes "supervise_draining cfg
      \<lparr>sd_phase = Draining, sd_stdin_is_tty = tty, sd_first_trigger = Some t0\<rparr> t0 count r st = (res, ctl)"
    and "r = StdinClosed \<Longrightarrow> tty \<and> t0 = Sigint"
    and "\<And>t. r = TriggerReady (Some (Ok t)) \<Longrightarrow> is_signal t"
  shows "res \<noteq> Err (InvalidFirstTrigger t) \<and> res \<noteq> Err (InvalidTransition p t)"
  using assms
  by (cases r)
    (auto simp: supervise_draining_def Let_def draining_force settle_forced_def
      flatten_server_result_def receive_trigger_def
      split: sum.splits option.splits settled.splits if_splits prod.splits)

lemma supervise_returns:
  assumes "schedule = before @ TriggerReady m # rest" and "DeadlineElapsed \<in> set rest"
  shows "\<exists>res ctl. supervise_with_triggers cfg watcher_starts schedule st = Some (res, ctl)"
proof -
  obtain q rest' where q: "select_ready polls_first schedule = Some (q, rest')" "set rest \<subseteq> set rest'"
    using select_ready_prefix [of polls_first "TriggerReady m" before rest] assms(1)
    by (auto simp: polls_first_def)
  have "\<exists>x. select_ready (polls_draining w) rest' = Some x" for w
    using q(2) assms(2) by (intro select_ready_Some) (auto simp: polls_draining_def)
  then have d: "select_ready (polls_draining w) rest' \<noteq> None" for w by (metis option.distinct(1))
  have "polls_first q" using q(1) by (rule select_ready_set [THEN conjunct2, THEN conjunct1])
  then show ?thesis
    using q(1) d [of False] d [of watcher_starts]
    by (cases q)
      (auto simp: supervise_with_triggers_def Let_def polls_first_def
        split: sum.split prod.split option.split)
qed

text \<open>
  Whatever triggers arrive in whatever number, a process starts at most one graceful
  shutdown and then either completes it or forces it, once; everything else is ignored, and
  the phases passed are as many as the actions taken.
\<close>

lemma shutdown_actions_bounded:
  assumes "feed (new_state tty) triggers = (s, actions)"
  shows "actions \<in> {[], [BeginGraceful], [BeginGraceful, Force], [BeginGraceful, CompleteShutdown]} \<and>
    length actions + phase_rank (sd_phase s) \<le> 2 \<and> shutdown_wf s"
proof -
  obtain ms where ms: "steps shutdown_step (new_state tty) ([] @ ms) s" "map snd ms = actions"
    using feed_steps [OF assms steps_refl] by blast
  have "length ms + phase_rank (sd_phase s) \<le> phase_rank (sd_phase (new_state tty))"
    using shutdown.steps_bounded [OF ms(1)] by simp
  then have "length actions + phase_rank (sd_phase s) \<le> 2"
    using ms(2) by (auto simp: new_state_def)
  moreover have "shutdown_wf s" using shutdown.steps_inv [OF ms(1)] by simp
  moreover have "actions \<in> {[], [BeginGraceful], [BeginGraceful, Force], [BeginGraceful, CompleteShutdown]}"
    using feed_running [of "new_state tty" triggers] assms by (simp add: new_state_def)
  ultimately show ?thesis by blast
qed

section \<open>Properties\<close>

text \<open>
  C35: With the triggers the signal task can send, the supervisor's two checks of the state
  machine never fail: the first trigger always begins a graceful shutdown and whatever ends
  the second wait is always able to force it.
\<close>

theorem supervisor_checks_never_fail:
  assumes "supervise_with_triggers cfg watcher_starts schedule st = Some (res, ctl)"
    and "\<And>t. TriggerReady (Some (Ok t)) \<in> set schedule \<Longrightarrow> Ok t \<in> set (forward_signals signals)"
  shows "res \<noteq> Err (InvalidFirstTrigger t) \<and> res \<noteq> Err (InvalidTransition p t)"
proof -
  have sig: "is_signal t" if "TriggerReady (Some (Ok t)) \<in> set schedule" for t
    using assms(2) [OF that] by (rule forward_signals_signal)
  from assms(1) show ?thesis
  proof (cases rule: supervise_cases)
    case (server r rest)
    then show ?thesis by (auto simp: flatten_server_result_def split: sum.splits)
  next
    case (invalid t0 m rest)
    have "TriggerReady m \<in> set schedule" using invalid(1) select_ready_set by blast
    with invalid(2,3) sig show ?thesis by (auto simp: receive_trigger_def split: option.splits)
  next
    case (draining t0 m rest r rest')
    have "r \<in> set schedule" "polls_draining (config_stdin_is_tty cfg \<and> t0 = Sigint \<and> watch_stdin_eof cfg \<and> watcher_starts) r"
      using select_ready_set [OF draining(1)] select_ready_set [OF draining(4)] by auto
    then show ?thesis
      using sig by (intro supervise_draining_valid [OF draining(5)]) (auto simp: polls_draining_def)
  qed simp
qed

theorem supervisor_checks_never_fail_witness:
  "\<exists>ctl. supervise_with_triggers \<lparr>grace_period_ms = 10, config_stdin_is_tty = True, watch_stdin_eof = True\<rparr>
      True [TriggerReady (Some (Ok Sigint)), StdinClosed] SettleTimedOut = Some (Err DidNotSettle, ctl) \<and>
    (Err DidNotSettle :: (supervisor_error, outcome) result) \<noteq> Err (InvalidTransition Draining StdinEof)"
proof -
  let ?cfg = "\<lparr>grace_period_ms = 10, config_stdin_is_tty = True, watch_stdin_eof = True\<rparr>"
  obtain ctl where s: "supervise_with_triggers ?cfg True
      [TriggerReady (Some (Ok Sigint)), StdinClosed] SettleTimedOut = Some (Err DidNotSettle, ctl)"
    by (simp add: supervisor_defs polls_first_def polls_draining_def receive_trigger_def
        apply_trigger_def new_state_def Let_def is_signal_def)
  from supervisor_checks_never_fail [OF s, of "[SigintStream True]"] s show ?thesis by auto
qed

text \<open>
  C33: The supervisor asks the server for a graceful shutdown at most once and before
  anything else; it drops the connections exactly when it reports a forced shutdown or fails
  after forcing; and it aborts the server only when the server did not settle.
\<close>

theorem supervisor_controls_in_order:
  assumes "supervise_with_triggers cfg watcher_starts schedule st = Some (res, ctl)"
  shows "(ImmediateShutdown \<in> set ctl \<longrightarrow> hd ctl = GracefulShutdown) \<and>
    GracefulShutdown \<notin> set (tl ctl) \<and>
    (\<forall>x. res = Ok x \<longrightarrow> (forced x \<longleftrightarrow> ImmediateShutdown \<in> set ctl)) \<and>
    (AbortServer \<in> set ctl \<longleftrightarrow> res = Err DidNotSettle) \<and>
    (AbortServer \<in> set ctl \<longrightarrow> ImmediateShutdown \<in> set ctl)"
  using assms
proof (cases rule: supervise_cases)
  case (server r rest)
  then have "GracefulShutdown \<notin> set (tl ctl)" by (cases ctl) auto
  with server show ?thesis by (auto simp: flatten_server_result_def split: sum.splits)
next
  case (draining t0 m rest r rest' count logs ctl')
  show ?thesis
    using supervise_draining_controls [OF draining(5)] draining(7-9) unfolding draining(6) by auto
qed auto

theorem supervisor_controls_in_order_witness:
  "\<exists>ctl. supervise_with_triggers \<lparr>grace_period_ms = 10, config_stdin_is_tty = False, watch_stdin_eof = True\<rparr>
      True [TriggerReady (Some (Ok Sigterm)), DeadlineElapsed] (ServerSettled (Ok (Ok ()))) =
        Some (Ok \<lparr>forced = True, outcome_trigger = TimeoutElapsed\<rparr>, ctl) \<and> hd ctl = GracefulShutdown"
proof -
  let ?cfg = "\<lparr>grace_period_ms = 10, config_stdin_is_tty = False, watch_stdin_eof = True\<rparr>"
  obtain ctl where s: "supervise_with_triggers ?cfg True
      [TriggerReady (Some (Ok Sigterm)), DeadlineElapsed] (ServerSettled (Ok (Ok ()))) =
        Some (Ok \<lparr>forced = True, outcome_trigger = TimeoutElapsed\<rparr>, ctl)"
    by (simp add: supervisor_defs polls_first_def polls_draining_def receive_trigger_def
        apply_trigger_def new_state_def Let_def is_signal_def flatten_server_result_def)
  from supervisor_controls_in_order [OF s] s show ?thesis by auto
qed

text \<open>
  The grace period is always a positive number of milliseconds that fits a
  \<open>u64\<close>, and it is the configured one exactly when that is such a number; otherwise it
  is ten seconds.
\<close>

lemma grace_period_positive:
  "0 < grace_period_ms (shutdown_config_from_env var tty) \<and>
   unat (grace_ms (grace_period_ms (shutdown_config_from_env var tty))) =
     grace_period_ms (shutdown_config_from_env var tty) \<and>
   grace_period_ms (shutdown_config_from_env (Ok (show_nat n)) tty) =
     (if 0 < n \<and> n < 2 ^ 64 then n else 10000)"
proof (intro conjI)
  let ?g = "grace_period_ms (shutdown_config_from_env var tty)"
  have g: "0 < ?g \<and> ?g \<le> 2 ^ 64 - 1"
    by (auto simp: shutdown_config_from_env_def DEFAULT_SHUTDOWN_GRACE_MS_def
        dest: parse_unsigned_le split: sum.split option.split var_error.split)
  then show "0 < ?g" "unat (grace_ms ?g) = ?g" by (simp_all add: grace_ms_def unat_u64_saturating)
  show "grace_period_ms (shutdown_config_from_env (Ok (show_nat n)) tty) =
     (if 0 < n \<and> n < 2 ^ 64 then n else 10000)"
  proof (cases "n < 2 ^ 64")
    case True
    then show ?thesis
      by (simp add: shutdown_config_from_env_def parse_show_nat DEFAULT_SHUTDOWN_GRACE_MS_def)
  next
    case False
    then have "parse_unsigned (2 ^ 64 - 1) (show_nat n) = None" by (simp add: parse_show_nat_None)
    then show ?thesis
      using False by (simp add: shutdown_config_from_env_def DEFAULT_SHUTDOWN_GRACE_MS_def)
  qed
qed

end
