(* ===== verification/Flags.thy ===== *)
theory Flags
  imports Json
begin

text \<open>
  \<open>src/flags.rs\<close>: the process configuration resolved from the command line and the
  environment. The flags-2-env parser (audit, parsing, typing), the temporary file and the
  TOML parser are parameters; the maps and the contract checks are the program's own.
\<close>

section \<open>What the parser returns\<close>

type_synonym env_map = "ustr \<Rightarrow> ustr option"

record parsed_flags =
  unknown_options :: "ustr list"
  parse_errors :: "ustr list"
  extras :: "ustr list"
  dotenv :: env_map
  dotenv_overrides :: env_map
  provided_flags :: env_map

record flags_parser =
  contract_file :: "(ustr, ustr) result"
  audit_config :: "ustr \<Rightarrow> (ustr, unit) result"
  parse_structured :: "ustr list \<Rightarrow> ustr \<Rightarrow> (ustr, parsed_flags) result"
  coerce :: "env_map \<Rightarrow> ustr \<Rightarrow> (ustr, jmap) result"

section \<open>Redacted names and scalars\<close>

definition option_name :: "ustr \<Rightarrow> ustr" where
  "option_name option =
     (case strip_prefix option (lit ''--'') of
        Some long \<Rightarrow> lit ''--'' @ takeWhile (\<lambda>c. c \<noteq> 61) long
      | None \<Rightarrow> take 2 option)"

definition scalar_string :: "ustr \<Rightarrow> json \<Rightarrow> (ustr, ustr) result" where
  "scalar_string name value =
     (case value of
        JString s \<Rightarrow> Ok s
      | JBool b \<Rightarrow> Ok (if b then lit ''true'' else lit ''false'')
      | JNumber n \<Rightarrow> Ok n
      | _ \<Rightarrow> Err (lit ''flags-2-env returned a non-scalar value for '' @ name))"

fun join :: "ustr \<Rightarrow> ustr list \<Rightarrow> ustr" where
  "join sep [] = []"
| "join sep [s] = s"
| "join sep (s # t # r) = s @ sep @ join sep (t # r)"

section \<open>Resolution\<close>

text \<open>The typed values replace or extend the environment, in the order of the map.\<close>

fun insert_typed :: "jmap \<Rightarrow> env_map \<Rightarrow> (ustr, env_map) result" where
  "insert_typed [] resolved = Ok resolved"
| "insert_typed ((name, value) # typed) resolved =
     (if value = JNull then insert_typed typed resolved
      else and_then (scalar_string name value) (\<lambda>s. insert_typed typed (resolved(name \<mapsto> s))))"

definition raw_values :: "parsed_flags \<Rightarrow> env_map \<Rightarrow> env_map" where
  "raw_values p environment =
     ((dotenv p ++ environment ++ dotenv_overrides p)(lit ''FLAGS2ENV_COMMAND'' := None))
       ++ provided_flags p"

definition resolve_from ::
  "flags_parser \<Rightarrow> ustr list \<Rightarrow> env_map \<Rightarrow> (ustr, env_map) result" where
  "resolve_from parser argv environment =
     and_then (contract_file parser) (\<lambda>path.
     and_then (map_err (\<lambda>e. lit ''flags-2-env contract audit failed: '' @ e)
                 (audit_config parser path)) (\<lambda>_.
     and_then (map_err (\<lambda>e. lit ''flags-2-env parsing failed: '' @ e)
                 (parse_structured parser argv path)) (\<lambda>parsed.
       if unknown_options parsed \<noteq> []
       then Err (lit ''unknown command-line option(s): '' @
              join (lit '', '') (sort (remdups (map option_name (unknown_options parsed)))))
       else if parse_errors parsed \<noteq> []
       then Err (lit ''invalid command-line value(s): '' @
              show_nat (length (parse_errors parsed)) @ lit '' error(s)'')
       else if extras parsed \<noteq> []
       then Err (lit ''unexpected positional argument(s): '' @ show_nat (length (extras parsed)))
       else
         and_then (map_err (\<lambda>e. lit ''flags-2-env typed configuration failed: '' @ e)
                     (coerce parser (raw_values parsed environment) path)) (\<lambda>typed.
         insert_typed typed environment))))"

text \<open>
  The once-cell: the first resolution, failed or not, is the one every later call sees,
  whatever arguments and environment would give by then.
\<close>

definition try_resolved ::
  "(ustr, env_map) result option \<Rightarrow> (ustr, env_map) result \<Rightarrow>
   (ustr, env_map) result \<times> (ustr, env_map) result option" where
  "try_resolved cell fresh = (case cell of Some r \<Rightarrow> (r, cell) | None \<Rightarrow> (fresh, Some fresh))"

fun resolutions ::
  "(ustr, env_map) result option \<Rightarrow> (ustr, env_map) result list \<Rightarrow> (ustr, env_map) result list" where
  "resolutions cell [] = []"
| "resolutions cell (fresh # later) =
     (let (r, cell') = try_resolved cell fresh in r # resolutions cell' later)"

lemma resolutions_set: "r \<in> set (resolutions (Some first) later) \<Longrightarrow> r = first"
  by (induction later) (auto simp: try_resolved_def)

lemma resolved_once: "r \<in> set (resolutions None (first # later)) \<Longrightarrow> r = first"
  using resolutions_set by (auto simp: try_resolved_def)

text \<open>\<open>var\<close> on resolved values.\<close>

definition flags_var :: "env_map \<Rightarrow> ustr \<Rightarrow> (var_error, ustr) result" where
  "flags_var resolved name = ok_or NotPresent (resolved name)"

section \<open>Help and version\<close>

datatype toml =
    TomlString ustr
  | TomlInteger int
  | TomlFloat ustr
  | TomlBoolean bool
  | TomlDatetime ustr
  | TomlArray "toml list"
  | TomlTable "(ustr \<times> toml) list"

definition as_str :: "toml \<Rightarrow> ustr option" where
  "as_str v = (case v of TomlString s \<Rightarrow> Some s | _ \<Rightarrow> None)"

definition as_table :: "toml \<Rightarrow> (ustr \<times> toml) list option" where
  "as_table v = (case v of TomlTable t \<Rightarrow> Some t | _ \<Rightarrow> None)"

definition as_array :: "toml \<Rightarrow> toml list option" where
  "as_array v = (case v of TomlArray a \<Rightarrow> Some a | _ \<Rightarrow> None)"

definition toml_get :: "(ustr \<times> toml) list \<Rightarrow> string \<Rightarrow> toml option" where
  "toml_get t k = map_of t (lit k)"

definition first_element :: "'a list \<Rightarrow> 'a option" where
  "first_element xs = (case xs of [] \<Rightarrow> None | x # _ \<Rightarrow> Some x)"

text \<open>Left-aligned in a field of the given width, counted in characters.\<close>

definition pad_right :: "nat \<Rightarrow> ustr \<Rightarrow> ustr" where
  "pad_right n s = s @ replicate (n - length s) 32"

definition flag_long :: "(ustr \<times> toml) list \<Rightarrow> ustr option" where
  "flag_long flag =
     (case Option.bind (toml_get flag ''long'') as_str of
        Some long \<Rightarrow> Some long
      | None \<Rightarrow>
          Option.bind (Option.bind (Option.bind (toml_get flag ''aliases'') as_array) first_element) as_str)"

definition help_line :: "(toml \<Rightarrow> ustr) \<Rightarrow> (ustr \<times> toml) list \<Rightarrow> ustr \<Rightarrow> ustr" where
  "help_line display flag long =
     (let value_type = (case Option.bind (toml_get flag ''type'') as_str of
            None \<Rightarrow> lit ''string'' | Some t \<Rightarrow> t);
          name = (case Option.bind (toml_get flag ''short'') as_str of
            None \<Rightarrow> lit ''--'' @ long
          | Some short \<Rightarrow> lit ''-'' @ short @ lit '', --'' @ long);
          option = (if value_type = lit ''bool'' \<or> value_type = lit ''boolean''
                    then name else name @ lit '' <VALUE>'');
          description = (case Option.bind (toml_get flag ''help'') as_str of None \<Rightarrow> [] | Some d \<Rightarrow> d);
          dflt = (case toml_get flag ''default'' of
            None \<Rightarrow> [] | Some v \<Rightarrow> lit '' [default: '' @ display v @ lit '']'')
      in lit ''  '' @ pad_right 28 option @ lit '' '' @ description @ dflt @ [10])"

fun help_lines :: "(toml \<Rightarrow> ustr) \<Rightarrow> toml list \<Rightarrow> ustr" where
  "help_lines display [] = []"
| "help_lines display (v # vs) =
     (case as_table v of
        None \<Rightarrow> help_lines display vs
      | Some flag \<Rightarrow>
          (case flag_long flag of
             None \<Rightarrow> help_lines display vs
           | Some long \<Rightarrow> help_line display flag long @ help_lines display vs))"

definition PKG_NAME :: ustr where
  "PKG_NAME = lit ''act_api_server''"

definition PKG_VERSION :: ustr where
  "PKG_VERSION = lit ''0.2.0''"

definition help_table :: "(toml \<Rightarrow> ustr) \<Rightarrow> (ustr, (ustr \<times> toml) list) result \<Rightarrow> (ustr, ustr) result" where
  "help_table display contract =
     and_then (map_err (\<lambda>e. lit ''cannot read flags-2-env help metadata: '' @ e) contract) (\<lambda>table.
     and_then (ok_or (lit ''flags-2-env contract has no flags table'')
                 (Option.bind (toml_get table ''flags'') as_table)) (\<lambda>flags.
     Ok (lit ''Usage: '' @ PKG_NAME @ lit '' [OPTIONS]'' @ [10, 10] @ lit ''Options:'' @ [10]
         @ help_lines display (map snd flags))))"

definition process_control ::
  "(ustr, env_map) result \<Rightarrow> (ustr, ustr) result \<Rightarrow> (ustr, ustr option) result" where
  "process_control resolved help =
     and_then resolved (\<lambda>values.
       if values (lit ''CLI_HELP_REQUESTED'') = Some (lit ''true'')
       then and_then help (\<lambda>t. Ok (Some t))
       else if values (lit ''CLI_VERSION_REQUESTED'') = Some (lit ''true'')
       then Ok (Some (PKG_NAME @ lit '' '' @ PKG_VERSION @ [10]))
       else Ok None)"

section \<open>Lemmas\<close>

lemma option_name_long: "option_name (lit ''--'' @ long) = lit ''--'' @ takeWhile (\<lambda>c. c \<noteq> 61) long"
  by (simp add: option_name_def)

lemma takeWhile_cut: "takeWhile (\<lambda>c. c \<noteq> d) (xs @ d # ys) = takeWhile (\<lambda>c. c \<noteq> d) xs"
  by (induction xs) auto

lemma option_name_cut:
  "option_name (lit ''--'' @ name @ 61 # v) = option_name (lit ''--'' @ name)"
  by (simp add: option_name_long takeWhile_cut)

lemma option_name_short: "strip_prefix s (lit ''--'') = None \<Longrightarrow> length (option_name s) \<le> 2"
  by (simp add: option_name_def)

lemma insert_typed_get:
  "insert_typed typed resolved = Ok r \<Longrightarrow> distinct (map fst typed) \<Longrightarrow>
   r name = (case map_of typed name of
       None \<Rightarrow> resolved name
     | Some v \<Rightarrow> if v = JNull then resolved name
               else (case scalar_string name v of Ok s \<Rightarrow> Some s | Err _ \<Rightarrow> None))"
proof (induction typed arbitrary: resolved)
  case (Cons f typed)
  obtain l v where f: "f = (l, v)" by (cases f)
  from Cons.prems f have d: "distinct (map fst typed)" and notin: "map_of typed l = None"
    by (auto simp: map_of_eq_None_iff)
  show ?case
  proof (cases "v = JNull")
    case True
    with Cons.IH [of resolved] Cons.prems f d notin show ?thesis by (cases "name = l") auto
  next
    case False
    then obtain s where s: "scalar_string l v = Ok s" "insert_typed typed (resolved(l \<mapsto> s)) = Ok r"
      using Cons.prems(1) f by (auto simp: result_simps)
    from Cons.IH [OF s(2) d] f False s(1) notin show ?thesis
      by (cases "name = l") (auto split: option.split)
  qed
qed simp

text \<open>
  The error for unknown options names them without their values: what follows the equals sign
  of a long option does not occur in it, and of any other option at most two characters do.
\<close>

lemma option_name_redacted:
  "option_name (lit ''--'' @ name @ 61 # v) = option_name (lit ''--'' @ name @ 61 # w) \<and>
   (61 \<notin> set name \<longrightarrow> option_name (lit ''--'' @ name @ 61 # v) = lit ''--'' @ name) \<and>
   (strip_prefix option (lit ''--'') = None \<longrightarrow> length (option_name option) \<le> 2)"
proof -
  have "61 \<notin> set name \<Longrightarrow> takeWhile (\<lambda>c. c \<noteq> 61) name = name" by (auto simp: takeWhile_eq_all_conv)
  then show ?thesis
    using option_name_cut [of name v] option_name_cut [of name w] option_name_short [of option]
    by (auto simp: option_name_long)
qed

section \<open>Properties\<close>

text \<open>
  C38: A resolved value is the typed form of the raw value when the parser gives one, and
  the environment's otherwise; the raw value is the first that is set among the flags given
  on the command line, the overrides, the environment and the dotenv defaults. Nothing is
  resolved when an option is unknown, a value is invalid or an argument is left over.
\<close>

theorem resolve_precedence:
  assumes "resolve_from parser argv environment = Ok resolved"
    and "\<And>raw path typed. coerce parser raw path = Ok typed \<Longrightarrow> obj_wf typed"
  shows "\<exists>path parsed typed.
      parse_structured parser argv path = Ok parsed \<and>
      unknown_options parsed = [] \<and> parse_errors parsed = [] \<and> extras parsed = [] \<and>
      coerce parser (raw_values parsed environment) path = Ok typed \<and>
      (\<forall>name. raw_values parsed environment name =
        (case provided_flags parsed name of
           Some v \<Rightarrow> Some v
         | None \<Rightarrow> if name = lit ''FLAGS2ENV_COMMAND'' then None
                 else (case dotenv_overrides parsed name of
                         Some v \<Rightarrow> Some v
                       | None \<Rightarrow> (case environment name of Some v \<Rightarrow> Some v | None \<Rightarrow> dotenv parsed name)))) \<and>
      (\<forall>name. resolved name =
        (case obj_get typed name of
           None \<Rightarrow> environment name
         | Some v \<Rightarrow> if v = JNull then environment name
                   else (case scalar_string name v of Ok s \<Rightarrow> Some s | Err _ \<Rightarrow> None)))"
proof -
  obtain path parsed typed where p: "parse_structured parser argv path = Ok parsed"
    "unknown_options parsed = []" "parse_errors parsed = []" "extras parsed = []"
    "coerce parser (raw_values parsed environment) path = Ok typed"
    "insert_typed typed environment = Ok resolved"
    using assms(1) by (auto simp: resolve_from_def result_simps split: if_splits)
  have "distinct (map fst typed)"
    using assms(2) [OF p(5)] by (simp add: obj_wf_def strict_sorted_iff)
  note get = insert_typed_get [OF p(6) this]
  have raw: "raw_values parsed environment name =
        (case provided_flags parsed name of
           Some v \<Rightarrow> Some v
         | None \<Rightarrow> if name = lit ''FLAGS2ENV_COMMAND'' then None
                 else (case dotenv_overrides parsed name of
                         Some v \<Rightarrow> Some v
                       | None \<Rightarrow> (case environment name of Some v \<Rightarrow> Some v | None \<Rightarrow> dotenv parsed name)))"
    for name
    by (simp add: raw_values_def map_add_def split: option.split)
  show ?thesis
    using p raw get unfolding obj_get_def by blast
qed

definition sample_parser :: flags_parser where
  "sample_parser =
     \<lparr>contract_file = Ok [], audit_config = \<lambda>_. Ok (),
      parse_structured = \<lambda>_ _. Ok \<lparr>unknown_options = [], parse_errors = [], extras = [],
        dotenv = Map.empty, dotenv_overrides = Map.empty, provided_flags = [lit ''PORT'' \<mapsto> lit ''9090'']\<rparr>,
      coerce = \<lambda>_ _. Ok [(lit ''PORT'', JNumber (lit ''9090''))]\<rparr>"

theorem resolve_precedence_witness:
  "\<exists>resolved path parsed. resolve_from sample_parser [] Map.empty = Ok resolved \<and>
     parse_structured sample_parser [] path = Ok parsed \<and> unknown_options parsed = []"
proof -
  let ?r = "[lit ''PORT'' \<mapsto> lit ''9090'']"
  have r: "resolve_from sample_parser [] Map.empty = Ok ?r"
    by (simp add: resolve_from_def sample_parser_def scalar_string_def)
  have wf: "coerce sample_parser raw path = Ok typed \<Longrightarrow> obj_wf typed" for raw path typed
    by (auto simp: sample_parser_def obj_wf_def)
  obtain path parsed where "parse_structured sample_parser [] path = Ok parsed" "unknown_options parsed = []"
    using resolve_precedence [OF r] wf by metis
  then show ?thesis using r by blast
qed

end
