(* ===== verification/Program.thy ===== *)
theory Program
  imports Server Shutdown Flags
begin

text \<open>
  The process as a whole: \<open>src/main.rs\<close>, \<open>run\<close> of \<open>src/server.rs\<close> and the
  initialisation of \<open>src/telemetry.rs\<close>. The command line is resolved, the configuration
  read through it, telemetry installed, the tasks started and the HTTP server supervised to
  its end. What the outside answers (the parsers, the exporter, the connections, the signals)
  is in the arguments.
\<close>

section \<open>Telemetry\<close>

record telemetry_env =
  filter_try_new :: "ustr \<Rightarrow> (ustr, unit) result"
  exporter_build :: "ustr \<Rightarrow> (unit, unit) result"
  subscriber_installed :: bool
  logger_closes :: bool

datatype layer = FilterLayer ustr | FmtLayer | OtelLayer ustr

text \<open>
  The guard, with the endpoint of its tracer provider if there is one, and the layers it has
  installed, none when another subscriber already was.
\<close>

record telemetry_guard =
  tg_provider :: "ustr option"
  tg_layers :: "layer list"
  tg_resource :: "(ustr \<times> ustr) list"

definition build_tracer_provider :: "telemetry_env \<Rightarrow> ustr \<Rightarrow> (unit, ustr) result" where
  "build_tracer_provider te endpoint = and_then (exporter_build te endpoint) (\<lambda>_. Ok endpoint)"

definition install_subscriber :: "telemetry_env \<Rightarrow> ustr \<Rightarrow> ustr option \<Rightarrow> layer list" where
  "install_subscriber te directives tracer =
     (let layers = (case tracer of
            Some endpoint \<Rightarrow> [FilterLayer directives, FmtLayer, OtelLayer endpoint]
          | None \<Rightarrow> [FilterLayer directives, FmtLayer])
      in if subscriber_installed te then [] else layers)"

definition log_directives :: "lookup \<Rightarrow> ustr" where
  "log_directives var =
     (case var (lit ''RUST_LOG'') of Ok v \<Rightarrow> v | Err _ \<Rightarrow> lit ''info,act_api_server=debug'')"

definition init_telemetry :: "telemetry_env \<Rightarrow> lookup \<Rightarrow> ustr \<Rightarrow> (ustr, telemetry_guard) result" where
  "init_telemetry te var svc_name =
     (let directives = log_directives var in
      and_then (filter_try_new te directives) (\<lambda>_.
      let endpoint = (case var (lit ''OTEL_EXPORTER_OTLP_ENDPOINT'') of
            Ok v \<Rightarrow> if trim v = [] then None else Some v
          | Err _ \<Rightarrow> None);
          provider = (case endpoint of
            None \<Rightarrow> None
          | Some v \<Rightarrow> (case build_tracer_provider te v of Ok p \<Rightarrow> Some p | Err _ \<Rightarrow> None))
      in Ok \<lparr>tg_provider = provider, tg_layers = install_subscriber te directives provider,
             tg_resource = [(lit ''service.name'', svc_name),
                (lit ''service.namespace'', lit ''anticaptrad''),
                (lit ''service.version'', PKG_VERSION)]\<rparr>))"

text \<open>
  The end of the guard: a last record, the logger closed with a report if that fails, and the
  provider, which is taken out of the guard, shut down.
\<close>

datatype telemetry_call =
  SendRecord ustr | CloseLogger | ReportCloseFailed | ShutdownProvider ustr

definition drop_telemetry ::
  "bool \<Rightarrow> telemetry_guard \<Rightarrow> telemetry_call list \<times> telemetry_guard" where
  "drop_telemetry closes g =
     ([SendRecord (lit ''telemetry shutting down''), CloseLogger] @
      (if closes then [] else [ReportCloseFailed]) @
      (case tg_provider g of None \<Rightarrow> [] | Some p \<Rightarrow> [ShutdownProvider p]),
      g\<lparr>tg_provider := None\<rparr>)"

text \<open>Dropped twice, a guard would still shut its provider down once.\<close>

lemma drop_telemetry_once:
  "drop_telemetry c1 g = (calls1, g1) \<Longrightarrow> drop_telemetry c2 g1 = (calls2, g2) \<Longrightarrow>
   filter (\<lambda>c. \<exists>p. c = ShutdownProvider p) (calls1 @ calls2) =
     (case tg_provider g of None \<Rightarrow> [] | Some p \<Rightarrow> [ShutdownProvider p])"
  by (auto simp: drop_telemetry_def split: option.splits)

text \<open>The level a structured record is logged at; a record that does not encode is refused.\<close>

datatype log_level = LevelTrace | LevelDebug | LevelInfo | LevelWarn | LevelError | LevelFatal

datatype tracing_level = TraceEvent | DebugEvent | InfoEvent | WarnEvent | ErrorEvent

fun bridge_level :: "log_level \<Rightarrow> tracing_level" where
  "bridge_level LevelTrace = TraceEvent"
| "bridge_level LevelDebug = DebugEvent"
| "bridge_level LevelInfo = InfoEvent"
| "bridge_level LevelWarn = WarnEvent"
| "bridge_level LevelError = ErrorEvent"
| "bridge_level LevelFatal = ErrorEvent"

definition bridge_write ::
  "('r \<Rightarrow> (ustr, ustr) result) \<Rightarrow> ('r \<Rightarrow> log_level) \<Rightarrow> 'r \<Rightarrow> (ustr, tracing_level \<times> ustr) result" where
  "bridge_write to_json level r =
     and_then (to_json r) (\<lambda>encoded. Ok (bridge_level (level r), encoded))"

lemma init_telemetry_fails_iff:
  "init_telemetry te var name = Err e \<longleftrightarrow> filter_try_new te (log_directives var) = Err e"
  by (simp add: init_telemetry_def Let_def result_simps)

lemma init_telemetry_filter:
  "init_telemetry te var name = Ok g \<Longrightarrow> filter_try_new te (log_directives var) = Ok ()"
  by (auto simp: init_telemetry_def Let_def result_simps)

lemma init_telemetry_console:
  "init_telemetry te var name = Ok g \<Longrightarrow> subscriber_installed te = False \<Longrightarrow>
   FmtLayer \<in> set (tg_layers g) \<and>
   (tg_provider g \<noteq> None \<longleftrightarrow> (\<exists>endpoint. OtelLayer endpoint \<in> set (tg_layers g)))"
  by (auto simp: init_telemetry_def install_subscriber_def Let_def result_simps split: option.splits)

section \<open>The server process\<close>

text \<open>
  What the supervisor of the HTTP server meets: whether the signal streams open and the
  terminal's watcher starts, the schedule of what becomes ready, and the server's answer to
  an immediate shutdown.
\<close>

record supervision =
  sup_sigint :: "(ustr, unit) result"
  sup_sigterm :: "(ustr, unit) result"
  sup_tty :: bool
  sup_watcher_starts :: bool
  sup_schedule :: "ready list"
  sup_settled :: settled

datatype run_error =
    ConfigFailed config_error
  | TelemetryFailed ustr
  | ServeFailed serve_error
  | SupervisorFailed supervisor_error
  | FlagsFailed ustr

text \<open>
  What the process does, in order: it prints, installs its telemetry, starts tasks, hands the
  HTTP server to the supervisor with the deadline it read, controls that server, and drops
  the telemetry.
\<close>

datatype 'n process_effect =
    PrintOutput ustr
  | InstallTelemetry telemetry_guard
  | StartTask "'n task"
  | Supervise shutdown_config
  | ControlServer control
  | DropTelemetry telemetry_call

text \<open>
  \<open>run\<close>: its result, None when the supervisor is still waiting at the end of its
  schedule, and what it has done; the controls of a supervisor that still waits are left out.
\<close>

definition run_server ::
  "(ustr \<Rightarrow> url option) \<Rightarrow> telemetry_env \<Rightarrow> ('n, 'c) serve_env \<Rightarrow> supervision \<Rightarrow> lookup \<Rightarrow>
   (run_error, unit) result option \<times> 'n process_effect list" where
  "run_server url_parse te env sv var =
     (case config_from_env url_parse (\<lambda>a. parse_socket_addr env a \<noteq> None) var of
        Err e \<Rightarrow> (Some (Err (ConfigFailed e)), [])
      | Ok cfg \<Rightarrow>
     (case init_telemetry te var (service_name cfg) of
        Err e \<Rightarrow> (Some (Err (TelemetryFailed e)), [])
      | Ok guard \<Rightarrow>
          let dropped = map DropTelemetry (fst (drop_telemetry (logger_closes te) guard)) in
     (case serve env cfg of
        (Err e, tasks) \<Rightarrow>
          (Some (Err (ServeFailed e)), InstallTelemetry guard # map StartTask tasks @ dropped)
      | (Ok _, tasks) \<Rightarrow>
          let deadline = shutdown_config_from_env (var (lit ''SHUTDOWN_GRACE_MS'')) (sup_tty sv) in
     (case supervise (signals_open (sup_sigint sv) (sup_sigterm sv)) deadline
             (sup_watcher_starts sv) (sup_schedule sv) (sup_settled sv) of
        None \<Rightarrow> (None, InstallTelemetry guard # map StartTask tasks @ [Supervise deadline])
      | Some (r, controls) \<Rightarrow>
          (Some (map_err SupervisorFailed r),
           InstallTelemetry guard # map StartTask tasks @ Supervise deadline #
             map ControlServer controls @ dropped)))))"

section \<open>The program\<close>

text \<open>
  \<open>main\<close>: help or version is printed before any effect; else the server runs on the
  resolved values.
\<close>

definition main ::
  "(ustr, env_map) result \<Rightarrow> (ustr, ustr) result \<Rightarrow> (ustr \<Rightarrow> url option) \<Rightarrow> telemetry_env \<Rightarrow>
   ('n, 'c) serve_env \<Rightarrow> supervision \<Rightarrow> (run_error, unit) result option \<times> 'n process_effect list" where
  "main resolved help url_parse te env sv =
     (case process_control resolved help of
        Err e \<Rightarrow> (Some (Err (FlagsFailed e)), [])
      | Ok (Some output) \<Rightarrow> (Some (Ok ()), [PrintOutput output])
      | Ok None \<Rightarrow>
          (case resolved of
             Err e \<Rightarrow> (Some (Err (FlagsFailed e)), [])
           | Ok vals \<Rightarrow> run_server url_parse te env sv (flags_var vals)))"

section \<open>Lemmas\<close>

lemma process_control_none:
  "process_control resolved help = Ok None \<Longrightarrow>
   \<exists>vals. resolved = Ok vals \<and> vals (lit ''CLI_HELP_REQUESTED'') \<noteq> Some (lit ''true'') \<and>
     vals (lit ''CLI_VERSION_REQUESTED'') \<noteq> Some (lit ''true'')"
  by (auto simp: process_control_def result_simps split: if_splits)

text \<open>
  A run that gets past the configuration and the log filter: what it does is the installation,
  then the tasks \<open>serve\<close> starts, then neither.
\<close>

definition is_start :: "'n process_effect \<Rightarrow> bool" where
  "is_start e \<longleftrightarrow> (\<exists>t. e = StartTask t)"

lemma run_server_effects:
  assumes "run_server url_parse te env sv var = (r, effects)" and "effects \<noteq> []"
  obtains cfg g sr tasks rest where
    "config_from_env url_parse (\<lambda>a. parse_socket_addr env a \<noteq> None) var = Ok cfg"
    "init_telemetry te var (service_name cfg) = Ok g" "serve env cfg = (sr, tasks)"
    "effects = InstallTelemetry g # map StartTask tasks @ rest"
    "\<forall>e \<in> set rest. \<not> is_start e \<and> (\<forall>out. e \<noteq> PrintOutput out)"
    "\<forall>e. sr = Err e \<longleftrightarrow> r = Some (Err (ServeFailed e))"
proof -
  obtain cfg g where c: "config_from_env url_parse (\<lambda>a. parse_socket_addr env a \<noteq> None) var = Ok cfg"
    "init_telemetry te var (service_name cfg) = Ok g"
    using assms by (auto simp: run_server_def split: sum.splits)
  obtain sr tasks where s: "serve env cfg = (sr, tasks)" by (cases "serve env cfg")
  let ?rest = "drop (Suc (length tasks)) effects"
  have "effects = InstallTelemetry g # map StartTask tasks @ ?rest"
    "\<forall>e \<in> set ?rest. \<not> is_start e \<and> (\<forall>out. e \<noteq> PrintOutput out)"
    "\<forall>e. sr = Err e \<longleftrightarrow> r = Some (Err (ServeFailed e))"
    using assms(1) c s by (auto simp: run_server_def Let_def is_start_def map_err_Err_iff split: sum.splits prod.splits option.splits)
  with c s show thesis by (rule that)
qed

lemma main_effects:
  assumes "main resolved help url_parse te env sv = (r, effects)" and "StartTask t \<in> set effects"
  obtains vals cfg g sr tasks rest where "resolved = Ok vals"
    "vals (lit ''CLI_HELP_REQUESTED'') \<noteq> Some (lit ''true'')"
    "vals (lit ''CLI_VERSION_REQUESTED'') \<noteq> Some (lit ''true'')"
    "config_from_env url_parse (\<lambda>a. parse_socket_addr env a \<noteq> None) (flags_var vals) = Ok cfg"
    "init_telemetry te (flags_var vals) (service_name cfg) = Ok g" "serve env cfg = (sr, tasks)"
    "effects = InstallTelemetry g # map StartTask tasks @ rest"
    "\<forall>e \<in> set rest. \<not> is_start e \<and> (\<forall>out. e \<noteq> PrintOutput out)"
proof -
  have pc: "process_control resolved help = Ok None"
    using assms by (auto simp: main_def split: sum.splits option.splits)
  then obtain vals where v: "resolved = Ok vals"
    "vals (lit ''CLI_HELP_REQUESTED'') \<noteq> Some (lit ''true'')"
    "vals (lit ''CLI_VERSION_REQUESTED'') \<noteq> Some (lit ''true'')"
    using process_control_none by blast
  have "run_server url_parse te env sv (flags_var vals) = (r, effects)" "effects \<noteq> []"
    using assms pc v(1) by (auto simp: main_def)
  then show thesis by (rule run_server_effects) (rule that [OF v])
qed

text \<open>A start among them has only the installation and earlier starts before it.\<close>

lemma starts_first:
  assumes "\<forall>e \<in> set rest. \<not> is_start e" and "map StartTask tasks @ rest = before @ StartTask t # after"
  shows "\<exists>earlier later. tasks = earlier @ t # later \<and> before = map StartTask earlier"
  using assms(2)
proof (induction tasks arbitrary: before)
  case Nil
  then have "StartTask t \<in> set rest" by simp
  with assms(1) show ?case by (auto simp: is_start_def)
next
  case (Cons u tasks)
  show ?case
  proof (cases before)
    case Nil
    with Cons.prems show ?thesis by auto
  next
    case (Cons x b)
    with Cons.prems have x: "x = StartTask u" "map StartTask tasks @ rest = b @ StartTask t # after" by auto
    from Cons.IH [OF x(2)] obtain earlier later where
      "tasks = earlier @ t # later" "b = map StartTask earlier" by blast
    with Cons x(1) show ?thesis by (intro exI [of _ "u # earlier"] exI [of _ later]) simp
  qed
qed

lemma started_after_installation:
  assumes "effects = InstallTelemetry g # map StartTask tasks @ rest" and "\<forall>e \<in> set rest. \<not> is_start e"
    and "effects = before @ StartTask t # after"
  shows "\<exists>earlier later. tasks = earlier @ t # later \<and> before = InstallTelemetry g # map StartTask earlier"
proof (cases before)
  case Nil
  with assms show ?thesis by auto
next
  case (Cons x b)
  with assms have "x = InstallTelemetry g" "map StartTask tasks @ rest = b @ StartTask t # after" by auto
  with starts_first [OF assms(2)] Cons show ?thesis by blast
qed

lemma main_refused:
  assumes "main resolved help url_parse te env sv = (r, effects)"
  shows "r = Some (Err (FlagsFailed e)) \<Longrightarrow> effects = []" "r = Some (Err (ConfigFailed c)) \<Longrightarrow> effects = []"
    "r = Some (Err (TelemetryFailed e)) \<Longrightarrow> effects = []"
  using assms
  by (auto simp: main_def run_server_def Let_def map_err_Err_iff
      split: sum.splits prod.splits option.splits)

text \<open>A listener's address was parsed when the configuration was accepted.\<close>

lemma mtls_address_parsed:
  assumes "config_from_env url_parse (\<lambda>a. parse_socket_addr env a \<noteq> None) var = Ok cfg"
  shows "start_mtls env cfg svc \<noteq> Err AddressInvalid"
  using config_from_env_ok [OF assms]
  by (auto simp: start_mtls_def serve_mtls_tcp_def in_range_def MAX_TCP_CONNECTIONS_def result_simps
      split: option.splits)

lemma serve_error_cases:
  "serve env cfg = (Err e, tasks) \<Longrightarrow>
   build_youtube env cfg = Err e \<or> build_verifier env cfg = Err e \<or>
   (\<exists>svc. start_mtls env cfg svc = Err e) \<or> (\<exists>m. e = BindFailed m)"
  by (auto simp: serve_def Let_def split: sum.splits option.splits prod.splits)

lemma build_error_kinds:
  "build_youtube env cfg = Err e \<Longrightarrow> \<exists>x. e = YoutubeClientFailed x"
  "build_verifier env cfg = Err e' \<Longrightarrow> \<exists>x. e' = AuthClientFailed x"
  by (auto simp: build_youtube_def build_verifier_def result_simps split: option.splits)

text \<open>Whatever task is started is closed.\<close>

lemma started_closed:
  assumes "main resolved help url_parse te env sv = (r, effects)" and "StartTask t \<in> set effects"
  shows "t = HttpServer addr app \<Longrightarrow> app_youtube app \<noteq> None \<Longrightarrow> app_shared_auth app \<noteq> None"
    "t = MtlsListener laddr acceptor service l \<Longrightarrow> ta_client_roots acceptor \<noteq> []"
    "t = DurableWorker w J c \<Longrightarrow> 32 \<le> length (w_key w)"
proof (atomize (full), rule main_effects [OF assms])
  fix vals cfg g sr tasks rest
  assume cfg: "config_from_env url_parse (\<lambda>a. parse_socket_addr env a \<noteq> None) (flags_var vals) = Ok cfg"
      "serve env cfg = (sr, tasks)"
    and l: "effects = InstallTelemetry g # map StartTask tasks @ rest"
      "\<forall>e \<in> set rest. \<not> is_start e \<and> (\<forall>out. e \<noteq> PrintOutput out)"
  have "t \<in> set tasks" using assms(2) l by (auto simp: is_start_def)
  then show "(t = HttpServer addr app \<longrightarrow> app_youtube app \<noteq> None \<longrightarrow> app_shared_auth app \<noteq> None) \<and>
      (t = MtlsListener laddr acceptor service l \<longrightarrow> ta_client_roots acceptor \<noteq> []) \<and>
      (t = DurableWorker w J c \<longrightarrow> 32 \<le> length (w_key w))"
    using serve_closed [OF cfg] by blast
qed

text \<open>The configuration's own checks do not fail again when the tasks are started.\<close>

lemma main_checked_already:
  assumes "main resolved help url_parse te env sv = (r, effects)"
  shows "r \<noteq> Some (Err (ServeFailed MtlsNeedsSharedAuth))" "r \<noteq> Some (Err (ServeFailed AddressInvalid))"
proof -
  have "e \<noteq> MtlsNeedsSharedAuth \<and> e \<noteq> AddressInvalid"
    if c: "config_from_env url_parse (\<lambda>a. parse_socket_addr env a \<noteq> None) var = Ok cfg"
      and s: "serve env cfg = (Err e, ts)" for var cfg e ts
    using serve_closed [OF c s] serve_error_cases [OF s] mtls_address_parsed [OF c]
      build_error_kinds [of env cfg e] build_error_kinds(2) [of env cfg e] by auto
  then show "r \<noteq> Some (Err (ServeFailed MtlsNeedsSharedAuth))" "r \<noteq> Some (Err (ServeFailed AddressInvalid))"
    using assms
    by (auto simp: main_def run_server_def Let_def map_err_Err_iff split: sum.splits option.splits prod.splits)
qed

section \<open>Properties\<close>

text \<open>
  C25: The program starts nothing before its command line, its configuration and its log
  filter are accepted: when a task is started, all three have been, the telemetry is installed
  already, nothing but earlier tasks has happened since, and nothing is printed. When one of
  the three is refused, nothing has happened at all. What it starts is closed: no HTTP server
  has a YouTube client without a verifier, every listener demands client certificates, every
  durable worker has a key of at least 32 bytes; and the two checks the configuration has made
  already never fail again.
\<close>

theorem program_fails_closed:
  assumes "main resolved help url_parse te env sv = (r, effects)"
  shows "(\<forall>before t after. effects = before @ StartTask t # after \<longrightarrow>
      (\<exists>vals cfg g earlier later. resolved = Ok vals \<and>
         vals (lit ''CLI_HELP_REQUESTED'') \<noteq> Some (lit ''true'') \<and>
         vals (lit ''CLI_VERSION_REQUESTED'') \<noteq> Some (lit ''true'') \<and>
         config_from_env url_parse (\<lambda>a. parse_socket_addr env a \<noteq> None) (flags_var vals) = Ok cfg \<and>
         filter_try_new te (log_directives (flags_var vals)) = Ok () \<and>
         init_telemetry te (flags_var vals) (service_name cfg) = Ok g \<and>
         before = InstallTelemetry g # map StartTask earlier \<and>
         snd (serve env cfg) = earlier @ t # later \<and>
         (\<forall>out. PrintOutput out \<notin> set effects))) \<and>
    (\<forall>e c. r \<in> {Some (Err (FlagsFailed e)), Some (Err (ConfigFailed c)), Some (Err (TelemetryFailed e))} \<longrightarrow>
       effects = []) \<and>
    (\<forall>addr app. StartTask (HttpServer addr app) \<in> set effects \<longrightarrow>
       app_youtube app \<noteq> None \<longrightarrow> app_shared_auth app \<noteq> None) \<and>
    (\<forall>addr acceptor service l. StartTask (MtlsListener addr acceptor service l) \<in> set effects \<longrightarrow>
       ta_client_roots acceptor \<noteq> []) \<and>
    (\<forall>w J c. StartTask (DurableWorker w J c) \<in> set effects \<longrightarrow> 32 \<le> length (w_key w)) \<and>
    r \<noteq> Some (Err (ServeFailed MtlsNeedsSharedAuth)) \<and> r \<noteq> Some (Err (ServeFailed AddressInvalid))"
  (is "?started \<and> ?refused \<and> _")
proof -
  have started: "?started"
  proof (intro allI impI)
    fix before t after
    assume e: "effects = before @ StartTask t # after"
    then have "StartTask t \<in> set effects" by simp
    with assms show "\<exists>vals cfg g earlier later. resolved = Ok vals \<and>
         vals (lit ''CLI_HELP_REQUESTED'') \<noteq> Some (lit ''true'') \<and>
         vals (lit ''CLI_VERSION_REQUESTED'') \<noteq> Some (lit ''true'') \<and>
         config_from_env url_parse (\<lambda>a. parse_socket_addr env a \<noteq> None) (flags_var vals) = Ok cfg \<and>
         filter_try_new te (log_directives (flags_var vals)) = Ok () \<and>
         init_telemetry te (flags_var vals) (service_name cfg) = Ok g \<and>
         before = InstallTelemetry g # map StartTask earlier \<and>
         snd (serve env cfg) = earlier @ t # later \<and> (\<forall>out. PrintOutput out \<notin> set effects)"
    proof (rule main_effects)
      fix vals cfg g sr tasks rest
      assume r: "resolved = Ok vals" "vals (lit ''CLI_HELP_REQUESTED'') \<noteq> Some (lit ''true'')"
        "vals (lit ''CLI_VERSION_REQUESTED'') \<noteq> Some (lit ''true'')"
        "config_from_env url_parse (\<lambda>a. parse_socket_addr env a \<noteq> None) (flags_var vals) = Ok cfg"
        "init_telemetry te (flags_var vals) (service_name cfg) = Ok g" "serve env cfg = (sr, tasks)"
        and l: "effects = InstallTelemetry g # map StartTask tasks @ rest"
          "\<forall>e \<in> set rest. \<not> is_start e \<and> (\<forall>out. e \<noteq> PrintOutput out)"
      obtain earlier later where "tasks = earlier @ t # later"
        "before = InstallTelemetry g # map StartTask earlier"
        using started_after_installation [OF l(1) _ e] l(2) by blast
      moreover have "\<forall>out. PrintOutput out \<notin> set effects" using l by auto
      ultimately show ?thesis
        using r init_telemetry_filter [OF r(5)] by (intro exI conjI) (assumption | simp)+
    qed
  qed
  have refused: "?refused" using main_refused [OF assms] by blast
  show ?thesis
    by (intro conjI started refused main_checked_already [OF assms])
      (auto dest: started_closed [OF assms])
qed

text \<open>
  C34: The program returns: whatever is resolved, configured and started, once the schedule
  holds a trigger and, after it, the deadline, \<open>main\<close> has a result.
\<close>

theorem program_returns:
  assumes "sup_schedule sv = before @ TriggerReady m # rest" and "DeadlineElapsed \<in> set rest"
  shows "fst (main resolved help url_parse te env sv) \<noteq> None"
proof -
  have sup: "supervise (signals_open (sup_sigint sv) (sup_sigterm sv)) cfg (sup_watcher_starts sv) (sup_schedule sv) (sup_settled sv) \<noteq> None" for cfg
    using supervise_returns [OF assms, of cfg "sup_watcher_starts sv" "sup_settled sv"]
    by (auto simp: supervise_def split: sum.splits)
  have "fst (run_server url_parse te env sv var) \<noteq> None" for var
    using sup [of "shutdown_config_from_env (var (lit ''SHUTDOWN_GRACE_MS'')) (sup_tty sv)"]
    by (auto simp: run_server_def Let_def split: sum.splits option.splits prod.splits)
  then show ?thesis by (simp add: main_def split: sum.splits option.splits)
qed

definition sample_telemetry :: telemetry_env where
  "sample_telemetry =
     \<lparr>filter_try_new = \<lambda>_. Ok (), exporter_build = \<lambda>_. Err (), subscriber_installed = False, logger_closes = True\<rparr>"

definition sample_supervision :: supervision where
  "sample_supervision =
     \<lparr>sup_sigint = Ok (), sup_sigterm = Ok (), sup_tty = False, sup_watcher_starts = True,
      sup_schedule = [TriggerReady (Some (Ok Sigterm)), DeadlineElapsed],
      sup_settled = ServerSettled (Ok (Ok ()))\<rparr>"

definition sample_main :: "(run_error, unit) result option \<times> unit process_effect list" where
  "sample_main =
     main (Ok (\<lambda>_. None)) (Err []) (\<lambda>_. None) sample_telemetry sample_serve_env sample_supervision"

lemma sample_main_starts:
  "\<exists>app deadline. StartTask (HttpServer (SocketAddr [0, 0, 0, 0] 8080) app) \<in> set (snd sample_main) \<and>
     Supervise deadline \<in> set (snd sample_main)"
proof -
  have v: "flags_var (\<lambda>_. None) = (\<lambda>_. Err NotPresent)"
    by (rule ext) (simp add: flags_var_def)
  have "\<exists>cfg. config_from_env (\<lambda>_. None) s (\<lambda>_. Err NotPresent) = Ok cfg \<and> port cfg = 8080 \<and>
      youtube cfg = None \<and> shared_auth cfg = None \<and> mtls cfg = None \<and> operation_database_url cfg = None" for s
    by (simp add: config_from_env_def parse_env_def env_non_empty_def read_shared_auth_def
        read_youtube_def validate_auth_configuration_def validate_operation_configuration_def
        parse_mtls_config_def)
  then obtain cfg where c: "config_from_env (\<lambda>_. None) (\<lambda>a. parse_socket_addr sample_serve_env a \<noteq> None)
      (\<lambda>_. Err NotPresent) = Ok cfg" "port cfg = 8080"
    "youtube cfg = None" "shared_auth cfg = None" "mtls cfg = None" "operation_database_url cfg = None"
    by blast
  obtain app where s: "serve sample_serve_env cfg =
      (Ok (), [EventSubscriber (), HttpServer (bind_address (port cfg)) app])"
    using c by (simp add: serve_def build_youtube_def build_verifier_def start_mtls_def
        start_journal_def sample_serve_env_def nats_connect_def Let_def)
  obtain g where g: "init_telemetry sample_telemetry (\<lambda>_. Err NotPresent) (service_name cfg) = Ok g"
    by (simp add: init_telemetry_def sample_telemetry_def)
  show ?thesis
    using c(1,2) s g
    by (auto simp: sample_main_def main_def run_server_def Let_def process_control_def v bind_address_def
        split: option.split)
qed

theorem program_fails_closed_witness:
  "\<exists>g earlier t after. snd sample_main = InstallTelemetry g # map StartTask earlier @ StartTask t # after \<and>
     (\<exists>addr app. t = HttpServer addr app) \<and> (\<forall>out. PrintOutput out \<notin> set (snd sample_main))"
proof -
  obtain r effects where m: "sample_main = (r, effects)" by (cases sample_main)
  obtain app before after where
    e: "effects = before @ StartTask (HttpServer (SocketAddr [0, 0, 0, 0] 8080) app) # after"
    using sample_main_starts unfolding m by (auto dest: split_list)
  from program_fails_closed [OF m [unfolded sample_main_def], THEN conjunct1, rule_format, OF e]
  show ?thesis unfolding m e by fastforce
qed

theorem program_returns_witness: "fst sample_main \<noteq> None"
  unfolding sample_main_def
  by (rule program_returns [of _ "[]" "Some (Ok Sigterm)" "[DeadlineElapsed]"])
    (simp_all add: sample_supervision_def)

end
