(* ===== verification/Settings.thy ===== *)
theory Settings
  imports Program
begin

text \<open>
  The settings of the process: the command-line contract \<open>.cli-flags.toml\<close>, which
  \<open>src/flags.rs\<close> embeds as \<open>CONTRACT\<close>, as the table it denotes, and how it fits the
  settings the program reads.
\<close>

section \<open>The contract\<close>

definition toml_table :: "(string \<times> toml) list \<Rightarrow> toml" where
  "toml_table entries = TomlTable (map (\<lambda>(k, v). (lit k, v)) entries)"

abbreviation toml_text :: "string \<Rightarrow> toml" where
  "toml_text s \<equiv> TomlString (lit s)"

definition contract_flags :: "(string \<times> toml) list" where
  "contract_flags = [
   (''help'', toml_table [(''env'', toml_text ''CLI_HELP_REQUESTED''),
      (''long'', toml_text ''help''), (''short'', toml_text ''h''),
      (''type'', toml_text ''boolean''), (''default'', TomlBoolean False),
      (''help'', toml_text ''Print command-line help.'')]),
   (''version'', toml_table [(''env'', toml_text ''CLI_VERSION_REQUESTED''),
      (''long'', toml_text ''version''), (''short'', toml_text ''V''),
      (''type'', toml_text ''boolean''), (''default'', TomlBoolean False),
      (''help'', toml_text ''Print the server version.'')]),
   (''port'', toml_table [(''env'', toml_text ''PORT''),
      (''long'', toml_text ''port''), (''short'', toml_text ''p''),
      (''type'', toml_text ''integer''), (''default'', TomlInteger 8080),
      (''help'', toml_text ''HTTP listener port.'')]),
   (''service-name'', toml_table [(''env'', toml_text ''OTEL_SERVICE_NAME''),
      (''long'', toml_text ''service-name''),
      (''type'', toml_text ''string''), (''default'', toml_text ''act-api-server''),
      (''help'', toml_text ''OpenTelemetry service name.'')]),
   (''shared-auth-url'', toml_table [(''env'', toml_text ''SHARED_AUTH_URL''),
      (''long'', toml_text ''shared-auth-url''), (''type'', toml_text ''string''),
      (''help'', toml_text ''Credential-free Shared Auth base URL.'')]),
   (''youtube-gas-url'', toml_table [(''env'', toml_text ''YOUTUBE_GAS_URL''),
      (''long'', toml_text ''youtube-gas-url''), (''type'', toml_text ''string''),
      (''help'', toml_text ''Credential-free deployed Google Apps Script URL.'')]),
   (''youtube-channel'', toml_table [(''env'', toml_text ''YOUTUBE_EXPECTED_CHANNEL_HANDLE''),
      (''long'', toml_text ''youtube-channel''),
      (''type'', toml_text ''string''), (''default'', toml_text ''@anticaptrad''),
      (''help'', toml_text ''Expected YouTube channel handle.'')]),
   (''youtube-timeout-secs'', toml_table [(''env'', toml_text ''YOUTUBE_GAS_TIMEOUT_SECS''),
      (''long'', toml_text ''youtube-timeout-secs''),
      (''type'', toml_text ''integer''), (''default'', TomlInteger 30),
      (''help'', toml_text ''YouTube control-plane timeout in seconds.'')]),
   (''youtube-max-response-bytes'', toml_table
     [(''env'', toml_text ''YOUTUBE_GAS_MAX_RESPONSE_BYTES''),
      (''long'', toml_text ''youtube-max-response-bytes''),
      (''type'', toml_text ''integer''), (''default'', TomlInteger 4194304),
      (''help'', toml_text ''Maximum YouTube response size.'')]),
   (''youtube-allow-public-actions'', toml_table
     [(''env'', toml_text ''YOUTUBE_ALLOW_PUBLIC_ACTIONS''),
      (''long'', toml_text ''youtube-allow-public-actions''),
      (''type'', toml_text ''boolean''), (''default'', TomlBoolean False),
      (''help'', toml_text ''Allow reviewed public YouTube actions.'')]),
   (''mtls-addr'', toml_table [(''env'', toml_text ''ACT_API_MTLS_ADDR''),
      (''long'', toml_text ''mtls-addr''), (''type'', toml_text ''string''),
      (''help'', toml_text ''Optional mTLS operation listener address.'')]),
   (''otel-endpoint'', toml_table [(''env'', toml_text ''OTEL_EXPORTER_OTLP_ENDPOINT''),
      (''long'', toml_text ''otel-endpoint''), (''type'', toml_text ''string''),
      (''help'', toml_text ''Credential-free OTLP endpoint.'')]),
   (''rust-log'', toml_table [(''env'', toml_text ''RUST_LOG''),
      (''long'', toml_text ''rust-log''),
      (''type'', toml_text ''string''), (''default'', toml_text ''info,act_api_server=debug''),
      (''help'', toml_text ''Tracing filter.'')]),
   (''shutdown-grace-ms'', toml_table [(''env'', toml_text ''SHUTDOWN_GRACE_MS''),
      (''long'', toml_text ''shutdown-grace-ms''),
      (''type'', toml_text ''integer''), (''default'', TomlInteger 10000),
      (''help'', toml_text ''Graceful shutdown deadline in milliseconds.'')])]"

definition CONTRACT :: "(ustr \<times> toml) list" where
  "CONTRACT = map (\<lambda>(k, v). (lit k, v)) [
     (''identity'', toml_table [(''service'', toml_text ''act-api-server''),
        (''type_name'', toml_text ''RuntimeEnv'')]),
     (''help'', toml_table [(''url'', toml_text ''https://github.com/flags-2-env/flags-2-env''),
        (''columns'', TomlArray (map toml_text
           [''options'', ''env'', ''type'', ''default'', ''description'']))]),
     (''parse'', toml_table [(''allow_unknown'', TomlBoolean False)]),
     (''env'', toml_table [(''ignore'', TomlArray (map toml_text
        [''ACT_API_CLIENT_CA_FILE'', ''ACT_API_TLS_CERT_FILE'', ''ACT_API_TLS_KEY_FILE'',
         ''ACT_NATS_OPERATION_HMAC_KEY'', ''ACT_OPERATION_DATABASE_URL'', ''NATS_URL'',
         ''SHARED_AUTH_SERVICE_CREDENTIAL'', ''YOUTUBE_GAS_API_KEY'']))]),
     (''flags'', toml_table contract_flags)]"

section \<open>What the contract declares\<close>

definition sub_table :: "(ustr \<times> toml) list \<Rightarrow> string \<Rightarrow> (ustr \<times> toml) list" where
  "sub_table t k = (case Option.bind (toml_get t k) as_table of None \<Rightarrow> [] | Some u \<Rightarrow> u)"

definition flag_tables :: "(ustr \<times> toml) list \<Rightarrow> (ustr \<times> toml) list list" where
  "flag_tables contract = List.map_filter as_table (map snd (sub_table contract ''flags''))"

definition flag_env :: "(ustr \<times> toml) list \<Rightarrow> ustr option" where
  "flag_env flag = Option.bind (toml_get flag ''env'') as_str"

definition ignored_names :: "(ustr \<times> toml) list \<Rightarrow> ustr list" where
  "ignored_names contract =
     (case Option.bind (toml_get (sub_table contract ''env'') ''ignore'') as_array of
        None \<Rightarrow> [] | Some names \<Rightarrow> List.map_filter as_str names)"

text \<open>Every name with an option, and every name the contract leaves to the environment.\<close>

definition declared_names :: "(ustr \<times> toml) list \<Rightarrow> ustr list" where
  "declared_names contract =
     List.map_filter flag_env (flag_tables contract) @ ignored_names contract"

text \<open>A default as the value it resolves to.\<close>

fun default_text :: "toml \<Rightarrow> ustr option" where
  "default_text (TomlString s) = Some s"
| "default_text (TomlInteger i) = (if 0 \<le> i then Some (show_nat (nat i)) else None)"
| "default_text (TomlBoolean b) = Some (if b then lit ''true'' else lit ''false'')"
| "default_text _ = None"

definition flag_default :: "(ustr \<times> toml) list \<Rightarrow> (ustr \<times> ustr) option" where
  "flag_default flag =
     (case (flag_env flag, Option.bind (toml_get flag ''default'') default_text) of
        (Some name, Some v) \<Rightarrow> Some (name, v) | _ \<Rightarrow> None)"

definition contract_defaults :: "(ustr \<times> toml) list \<Rightarrow> env_map" where
  "contract_defaults contract = map_of (List.map_filter flag_default (flag_tables contract))"

lemmas contract_simps = CONTRACT_def contract_flags_def toml_table_def flag_tables_def sub_table_def
  toml_get_def as_table_def as_str_def as_array_def List.map_filter_def

lemma declared_names_eq:
  "declared_names CONTRACT = map lit
     [''CLI_HELP_REQUESTED'', ''CLI_VERSION_REQUESTED'', ''PORT'', ''OTEL_SERVICE_NAME'',
      ''SHARED_AUTH_URL'', ''YOUTUBE_GAS_URL'', ''YOUTUBE_EXPECTED_CHANNEL_HANDLE'',
      ''YOUTUBE_GAS_TIMEOUT_SECS'', ''YOUTUBE_GAS_MAX_RESPONSE_BYTES'',
      ''YOUTUBE_ALLOW_PUBLIC_ACTIONS'', ''ACT_API_MTLS_ADDR'', ''OTEL_EXPORTER_OTLP_ENDPOINT'',
      ''RUST_LOG'', ''SHUTDOWN_GRACE_MS'',
      ''ACT_API_CLIENT_CA_FILE'', ''ACT_API_TLS_CERT_FILE'', ''ACT_API_TLS_KEY_FILE'',
      ''ACT_NATS_OPERATION_HMAC_KEY'', ''ACT_OPERATION_DATABASE_URL'', ''NATS_URL'',
      ''SHARED_AUTH_SERVICE_CREDENTIAL'', ''YOUTUBE_GAS_API_KEY'']"
  by (simp add: declared_names_def ignored_names_def flag_env_def contract_simps)

lemma contract_defaults_eq:
  "contract_defaults CONTRACT = map_of
     [(lit ''CLI_HELP_REQUESTED'', lit ''false''), (lit ''CLI_VERSION_REQUESTED'', lit ''false''),
      (lit ''PORT'', show_nat 8080), (lit ''OTEL_SERVICE_NAME'', lit ''act-api-server''),
      (lit ''YOUTUBE_EXPECTED_CHANNEL_HANDLE'', lit ''@anticaptrad''),
      (lit ''YOUTUBE_GAS_TIMEOUT_SECS'', show_nat 30),
      (lit ''YOUTUBE_GAS_MAX_RESPONSE_BYTES'', show_nat 4194304),
      (lit ''YOUTUBE_ALLOW_PUBLIC_ACTIONS'', lit ''false''),
      (lit ''RUST_LOG'', lit ''info,act_api_server=debug''), (lit ''SHUTDOWN_GRACE_MS'', show_nat 10000)]"
  by (simp add: contract_defaults_def flag_default_def flag_env_def contract_simps del: show_nat.simps)

section \<open>What the program reads\<close>

text \<open>A configuration is what its readers read.\<close>

lemma config_same:
  assumes "parse_env var 65535 ''PORT'' 8080 = parse_env var' 65535 ''PORT'' 8080"
    and "env_non_empty var ''NATS_URL'' = env_non_empty var' ''NATS_URL''"
    and "(case env_non_empty var ''OTEL_SERVICE_NAME'' of None \<Rightarrow> lit ''act-api-server'' | Some n \<Rightarrow> n) =
      (case env_non_empty var' ''OTEL_SERVICE_NAME'' of None \<Rightarrow> lit ''act-api-server'' | Some n \<Rightarrow> n)"
    and "read_shared_auth var = read_shared_auth var'"
    and "read_youtube url_parse var = read_youtube url_parse var'"
    and "env_non_empty var ''ACT_OPERATION_DATABASE_URL'' = env_non_empty var' ''ACT_OPERATION_DATABASE_URL''"
    and "env_non_empty var ''ACT_NATS_OPERATION_HMAC_KEY'' = env_non_empty var' ''ACT_NATS_OPERATION_HMAC_KEY''"
    and "parse_mtls_config is_socket_addr var = parse_mtls_config is_socket_addr var'"
  shows "config_from_env url_parse is_socket_addr var = config_from_env url_parse is_socket_addr var'"
  unfolding config_from_env_def assms ..

text \<open>The youtube section likewise, where its optional settings have defaults.\<close>

lemma youtube_same:
  assumes "env_non_empty var ''YOUTUBE_GAS_URL'' = env_non_empty var' ''YOUTUBE_GAS_URL''"
    and "env_non_empty var ''YOUTUBE_GAS_API_KEY'' = env_non_empty var' ''YOUTUBE_GAS_API_KEY''"
    and "(case env_non_empty var ''YOUTUBE_EXPECTED_CHANNEL_HANDLE'' of None \<Rightarrow> lit ''@anticaptrad'' | Some h \<Rightarrow> h) =
      (case env_non_empty var' ''YOUTUBE_EXPECTED_CHANNEL_HANDLE'' of None \<Rightarrow> lit ''@anticaptrad'' | Some h \<Rightarrow> h)"
    and "parse_env var (2 ^ 64 - 1) ''YOUTUBE_GAS_TIMEOUT_SECS'' 30 =
      parse_env var' (2 ^ 64 - 1) ''YOUTUBE_GAS_TIMEOUT_SECS'' 30"
    and "parse_env var (2 ^ 64 - 1) ''YOUTUBE_GAS_MAX_RESPONSE_BYTES'' DEFAULT_MAX_RESPONSE_BYTES =
      parse_env var' (2 ^ 64 - 1) ''YOUTUBE_GAS_MAX_RESPONSE_BYTES'' DEFAULT_MAX_RESPONSE_BYTES"
    and "parse_bool_env var ''YOUTUBE_ALLOW_PUBLIC_ACTIONS'' False =
      parse_bool_env var' ''YOUTUBE_ALLOW_PUBLIC_ACTIONS'' False"
  shows "read_youtube url_parse var = read_youtube url_parse var'"
  unfolding read_youtube_def assms ..

text \<open>And \<open>main\<close>, over resolved values.\<close>

lemma main_same:
  assumes "vals (lit ''CLI_HELP_REQUESTED'') = Some (lit ''true'') \<longleftrightarrow>
      vals' (lit ''CLI_HELP_REQUESTED'') = Some (lit ''true'')"
    and "vals (lit ''CLI_VERSION_REQUESTED'') = Some (lit ''true'') \<longleftrightarrow>
      vals' (lit ''CLI_VERSION_REQUESTED'') = Some (lit ''true'')"
    and "\<And>s. config_from_env url_parse s (flags_var vals) = config_from_env url_parse s (flags_var vals')"
    and "\<And>name. init_telemetry te (flags_var vals) name = init_telemetry te (flags_var vals') name"
    and "\<And>tty. shutdown_config_from_env (flags_var vals (lit ''SHUTDOWN_GRACE_MS'')) tty =
      shutdown_config_from_env (flags_var vals' (lit ''SHUTDOWN_GRACE_MS'')) tty"
  shows "main (Ok vals) help url_parse te env sv = main (Ok vals') help url_parse te env sv"
proof -
  have "run_server url_parse te env sv (flags_var vals) = run_server url_parse te env sv (flags_var vals')"
    unfolding run_server_def assms(3-5) ..
  moreover have "process_control (Ok vals) help = process_control (Ok vals') help"
    unfolding process_control_def by (simp add: and_then_def assms(1,2))
  ultimately show ?thesis
    unfolding main_def by (simp split: sum.split option.split)
qed

lemma env_non_empty_same:
  "vals (lit name) = vals' (lit name) \<Longrightarrow>
   env_non_empty (flags_var vals) name = env_non_empty (flags_var vals') name"
  by (simp add: env_non_empty_def flags_var_def)

lemma main_reads_declared:
  assumes "\<forall>name \<in> set (declared_names CONTRACT). vals name = vals' name"
  shows "main (Ok vals) help url_parse te env sv = main (Ok vals') help url_parse te env sv"
proof -
  note d = assms [unfolded declared_names_eq, simplified]
  note e = env_non_empty_same [of vals _ vals']
  show ?thesis
    by (intro main_same config_same youtube_same)
      (simp_all add: d e parse_env_def parse_bool_env_def read_shared_auth_def parse_mtls_config_def
        init_telemetry_def log_directives_def flags_var_def)
qed

section \<open>Defaults\<close>

text \<open>Values where every unset name with a default has it.\<close>

abbreviation filled :: "env_map \<Rightarrow> env_map" where
  "filled vals \<equiv> contract_defaults CONTRACT ++ vals"

lemma filled_unset: "contract_defaults CONTRACT name = None \<Longrightarrow> filled vals name = vals name"
  by (simp add: map_add_def split: option.split)

lemma filled_default:
  "contract_defaults CONTRACT name = Some d \<Longrightarrow>
   filled vals name = (case vals name of None \<Rightarrow> Some d | Some v \<Rightarrow> Some v)"
  by (simp add: map_add_def split: option.split)

lemma default_values:
  "contract_defaults CONTRACT (lit ''CLI_HELP_REQUESTED'') = Some (lit ''false'')"
  "contract_defaults CONTRACT (lit ''CLI_VERSION_REQUESTED'') = Some (lit ''false'')"
  "contract_defaults CONTRACT (lit ''PORT'') = Some (show_nat 8080)"
  "contract_defaults CONTRACT (lit ''OTEL_SERVICE_NAME'') = Some (lit ''act-api-server'')"
  "contract_defaults CONTRACT (lit ''YOUTUBE_EXPECTED_CHANNEL_HANDLE'') = Some (lit ''@anticaptrad'')"
  "contract_defaults CONTRACT (lit ''YOUTUBE_GAS_TIMEOUT_SECS'') = Some (show_nat 30)"
  "contract_defaults CONTRACT (lit ''YOUTUBE_GAS_MAX_RESPONSE_BYTES'') = Some (show_nat 4194304)"
  "contract_defaults CONTRACT (lit ''YOUTUBE_ALLOW_PUBLIC_ACTIONS'') = Some (lit ''false'')"
  "contract_defaults CONTRACT (lit ''RUST_LOG'') = Some (lit ''info,act_api_server=debug'')"
  "contract_defaults CONTRACT (lit ''SHUTDOWN_GRACE_MS'') = Some (show_nat 10000)"
  by (simp_all add: contract_defaults_eq)

lemma no_default:
  "contract_defaults CONTRACT (lit ''NATS_URL'') = None"
  "contract_defaults CONTRACT (lit ''SHARED_AUTH_URL'') = None"
  "contract_defaults CONTRACT (lit ''SHARED_AUTH_SERVICE_CREDENTIAL'') = None"
  "contract_defaults CONTRACT (lit ''YOUTUBE_GAS_URL'') = None"
  "contract_defaults CONTRACT (lit ''YOUTUBE_GAS_API_KEY'') = None"
  "contract_defaults CONTRACT (lit ''ACT_OPERATION_DATABASE_URL'') = None"
  "contract_defaults CONTRACT (lit ''ACT_NATS_OPERATION_HMAC_KEY'') = None"
  "contract_defaults CONTRACT (lit ''ACT_API_MTLS_ADDR'') = None"
  "contract_defaults CONTRACT (lit ''ACT_API_TLS_CERT_FILE'') = None"
  "contract_defaults CONTRACT (lit ''ACT_API_TLS_KEY_FILE'') = None"
  "contract_defaults CONTRACT (lit ''ACT_API_CLIENT_CA_FILE'') = None"
  "contract_defaults CONTRACT (lit ''OTEL_EXPORTER_OTLP_ENDPOINT'') = None"
  by (simp_all add: contract_defaults_eq)

lemma show_nat_trim: "trim (show_nat n) = show_nat n"
proof -
  have "list_all (\<lambda>c. \<not> is_whitespace c) (show_nat n)"
    using show_nat_digits [of n]
    by (auto simp: list_all_iff is_digit_char_def is_whitespace_def)
  moreover have "dropWhile is_whitespace s = s" if "list_all (\<lambda>c. \<not> is_whitespace c) s" for s
    using that by (cases s) simp_all
  ultimately show ?thesis by (simp add: trim_def trim_start_def trim_end_def)
qed

lemma filled_number:
  assumes "contract_defaults CONTRACT (lit name) = Some (show_nat n)" and "n \<le> mx"
  shows "parse_env (flags_var (filled vals)) mx name n = parse_env (flags_var vals) mx name n"
  using assms show_nat_digits [of n]
  by (cases "vals (lit name)")
    (simp_all add: parse_env_def env_non_empty_def flags_var_def filled_default show_nat_trim parse_show_nat)

lemma filled_text:
  assumes "contract_defaults CONTRACT (lit name) = Some d" and "trim d = d" "d \<noteq> []"
  shows "(case env_non_empty (flags_var (filled vals)) name of None \<Rightarrow> d | Some v \<Rightarrow> v) =
    (case env_non_empty (flags_var vals) name of None \<Rightarrow> d | Some v \<Rightarrow> v)"
  using assms
  by (cases "vals (lit name)")
    (simp_all add: env_non_empty_def flags_var_def filled_default)

lemma filled_false:
  assumes "contract_defaults CONTRACT (lit name) = Some (lit ''false'')"
  shows "parse_bool_env (flags_var (filled vals)) name False = parse_bool_env (flags_var vals) name False"
proof -
  have "trim (lit ''false'') = lit ''false''" "to_ascii_lowercase (lit ''false'') = lit ''false''"
    by (simp_all add: trim_def trim_start_def trim_end_def to_ascii_lowercase_def lit_def is_whitespace_def)
  then show ?thesis using assms
    by (cases "vals (lit name)")
      (simp_all add: parse_bool_env_def env_non_empty_def flags_var_def filled_default)
qed

lemma filled_other:
  "contract_defaults CONTRACT (lit name) = None \<Longrightarrow>
   env_non_empty (flags_var (filled vals)) name = env_non_empty (flags_var vals) name"
  by (rule env_non_empty_same) (rule filled_unset)

lemma default_texts_trim:
  "trim (lit ''act-api-server'') = lit ''act-api-server''"
  "trim (lit ''@anticaptrad'') = lit ''@anticaptrad''"
  by (simp_all add: trim_def trim_start_def trim_end_def lit_def is_whitespace_def)

lemma telemetry_defaults:
  "init_telemetry te (flags_var (filled vals)) name = init_telemetry te (flags_var vals) name"
proof -
  have "flags_var (filled vals) (lit ''OTEL_EXPORTER_OTLP_ENDPOINT'') =
      flags_var vals (lit ''OTEL_EXPORTER_OTLP_ENDPOINT'')"
    by (simp add: flags_var_def filled_unset no_default)
  moreover have "log_directives (flags_var (filled vals)) = log_directives (flags_var vals)"
    by (cases "vals (lit ''RUST_LOG'')")
      (simp_all add: log_directives_def flags_var_def filled_default default_values)
  ultimately show ?thesis unfolding init_telemetry_def by simp
qed

lemma shutdown_defaults:
  "shutdown_config_from_env (flags_var (filled vals) (lit ''SHUTDOWN_GRACE_MS'')) tty =
   shutdown_config_from_env (flags_var vals (lit ''SHUTDOWN_GRACE_MS'')) tty"
  by (cases "vals (lit ''SHUTDOWN_GRACE_MS'')")
    (simp_all add: shutdown_config_from_env_def flags_var_def filled_default default_values
      parse_show_nat DEFAULT_SHUTDOWN_GRACE_MS_def)

lemma main_defaults:
  "main (Ok (filled vals)) help url_parse te env sv = main (Ok vals) help url_parse te env sv"
proof (intro main_same config_same youtube_same telemetry_defaults shutdown_defaults)
  show "parse_env (flags_var (filled vals)) (2 ^ 64 - 1) ''YOUTUBE_GAS_MAX_RESPONSE_BYTES''
        DEFAULT_MAX_RESPONSE_BYTES =
      parse_env (flags_var vals) (2 ^ 64 - 1) ''YOUTUBE_GAS_MAX_RESPONSE_BYTES'' DEFAULT_MAX_RESPONSE_BYTES"
    by (rule filled_number) (simp_all add: default_values DEFAULT_MAX_RESPONSE_BYTES_def)
  show "read_shared_auth (flags_var (filled vals)) = read_shared_auth (flags_var vals)"
    by (simp add: read_shared_auth_def filled_other no_default)
  show "parse_mtls_config s (flags_var (filled vals)) = parse_mtls_config s (flags_var vals)" for s
    by (simp add: parse_mtls_config_def filled_other no_default)
qed (simp_all add: filled_number filled_text filled_false filled_other filled_default default_values
      no_default default_texts_trim split: option.split)

text \<open>The deadline the supervisor is given.\<close>

lemma main_deadline:
  "Supervise deadline \<in> set (snd (main (Ok vals) help url_parse te env sv)) \<Longrightarrow>
   deadline = shutdown_config_from_env (flags_var vals (lit ''SHUTDOWN_GRACE_MS'')) (sup_tty sv)"
  by (auto simp: main_def run_server_def Let_def split: sum.splits option.splits prod.splits)

lemma main_deadline_default:
  "vals (lit ''SHUTDOWN_GRACE_MS'') = None \<Longrightarrow>
   Supervise deadline \<in> set (snd (main (Ok vals) help url_parse te env sv)) \<Longrightarrow>
   contract_defaults CONTRACT (lit ''SHUTDOWN_GRACE_MS'') = Some (show_nat (grace_period_ms deadline))"
  by (drule main_deadline)
    (simp add: shutdown_config_from_env_def flags_var_def default_values DEFAULT_SHUTDOWN_GRACE_MS_def
      del: show_nat.simps)

text \<open>Every option of the contract is in the help text.\<close>

lemma help_line_names: "\<exists>a b. help_line display flag long = a @ lit ''--'' @ long @ b"
proof (cases "Option.bind (toml_get flag ''short'') as_str")
  case None
  then show ?thesis
    by (auto simp: help_line_def Let_def pad_right_def intro: exI [of _ "lit ''  ''"])
next
  case (Some short)
  have "lit '', --'' = lit '', '' @ lit ''--''" by (simp add: lit_def)
  with Some show ?thesis
    by (auto simp: help_line_def Let_def pad_right_def intro: exI [of _ "lit ''  -'' @ short @ lit '', ''"]
        exI [of _ "lit ''  '' @ lit ''-'' @ short @ lit '', ''"])
qed

lemma help_lines_name:
  assumes "v \<in> set vs" and "as_table v = Some flag" and "flag_long flag = Some long"
  shows "\<exists>a b. help_lines display vs = a @ lit ''--'' @ long @ b"
  using assms(1)
proof (induction vs)
  case (Cons w vs)
  obtain a b where line: "help_line display flag long = a @ lit ''--'' @ long @ b"
    using help_line_names by blast
  show ?case
  proof (cases "v = w")
    case True
    then show ?thesis using assms(2,3) line by auto
  next
    case False
    with Cons obtain a b where rest: "help_lines display vs = a @ lit ''--'' @ long @ b" by auto
    moreover obtain c where "help_lines display (w # vs) = c @ help_lines display vs"
      by (cases "as_table w"; cases "flag_long (the (as_table w))") auto
    ultimately have "help_lines display (w # vs) = (c @ a) @ lit ''--'' @ long @ b" by simp
    then show ?thesis by blast
  qed
qed simp

section \<open>Properties\<close>

text \<open>
  C26: What the process does depends on the settings the contract declares and on no other:
  two resolutions that agree on every name with an option, and on the eight names the
  contract leaves to the environment, make \<open>main\<close> do the same, from the telemetry it
  installs to the tasks it starts and the deadline its supervisor is given. And the defaults
  the contract announces are those of the code: giving every unset name its declared default
  changes none of it; left unset, the deadline of the shutdown is the announced one.
\<close>

theorem settings_are_declared:
  assumes "\<forall>name \<in> set (declared_names CONTRACT). vals name = vals' name"
  shows "main (Ok vals) help url_parse te env sv = main (Ok vals') help url_parse te env sv \<and>
    main (Ok (contract_defaults CONTRACT ++ vals)) help url_parse te env sv =
      main (Ok vals) help url_parse te env sv \<and>
    (vals (lit ''SHUTDOWN_GRACE_MS'') = None \<longrightarrow>
       (\<forall>deadline. Supervise deadline \<in> set (snd (main (Ok vals) help url_parse te env sv)) \<longrightarrow>
          contract_defaults CONTRACT (lit ''SHUTDOWN_GRACE_MS'') =
            Some (show_nat (grace_period_ms deadline))))"
  using main_reads_declared [OF assms] main_defaults main_deadline_default by blast

theorem settings_are_declared_witness:
  "main (Ok [lit ''HOME'' \<mapsto> lit ''/root'']) (Err []) (\<lambda>_. None) sample_telemetry sample_serve_env
     sample_supervision = sample_main \<and>
   (\<exists>deadline. Supervise deadline \<in> set (snd sample_main) \<and>
      show_nat (grace_period_ms deadline) = show_nat 10000)"
proof -
  have "\<forall>name \<in> set (declared_names CONTRACT). [lit ''HOME'' \<mapsto> lit ''/root''] name = None"
    by (simp add: declared_names_eq)
  note d = settings_are_declared [OF this, of "Err []" "\<lambda>_. None" sample_telemetry sample_serve_env sample_supervision]
  then have same: "main (Ok [lit ''HOME'' \<mapsto> lit ''/root'']) (Err []) (\<lambda>_. None) sample_telemetry
      sample_serve_env sample_supervision = sample_main" unfolding sample_main_def by blast
  obtain deadline where s: "Supervise deadline \<in> set (snd sample_main)" using sample_main_starts by blast
  have "[lit ''HOME'' \<mapsto> lit ''/root''] (lit ''SHUTDOWN_GRACE_MS'') = None" by simp
  with d [THEN conjunct2, THEN conjunct2] s [folded same]
  have "contract_defaults CONTRACT (lit ''SHUTDOWN_GRACE_MS'') = Some (show_nat (grace_period_ms deadline))"
    by blast
  with same s show ?thesis by (auto simp: default_values simp del: show_nat.simps)
qed

end
