(* ===== verification/UnitTests.thy ===== *)
theory UnitTests
  imports Settings
begin

text \<open>
  The repository's own unit tests, run on the model: each test function of the \<open>tests\<close>
  modules under \<open>src/\<close> is a proposition over the definitions that model what it calls,
  and a lemma shows that it passes. What a test takes from a crate (the URL parser, the JSON
  codec, HMAC) is an argument, with what it relies on as hypotheses. Left out are the tests of
  crates: the flags-2-env parser, strict JSON decoding and the text of the SQL files.
\<close>

section \<open>\<open>auth.rs\<close>\<close>

definition bearer_parser_accepts_one_opaque_token :: bool where
  "bearer_parser_accepts_one_opaque_token \<longleftrightarrow>
     (let headers = [AUTHORIZATION \<mapsto> Readable (lit ''Bearer opaque-product-token'')]
      in bearer_token headers = Ok (lit ''opaque-product-token''))"

lemma bearer_parser_accepts_one_opaque_token_passes: bearer_parser_accepts_one_opaque_token
  by (simp add: bearer_parser_accepts_one_opaque_token_def bearer_token_def to_str_def
      eq_ignore_ascii_case_def to_ascii_lowercase_def trim_def trim_start_def trim_end_def
      is_whitespace_def lit_def ok_or_def)

definition bearer_parser_rejects_missing_malformed_or_ambiguous_values :: bool where
  "bearer_parser_rejects_missing_malformed_or_ambiguous_values \<longleftrightarrow>
     bearer_token Map.empty = Err Missing \<and>
     list_all (\<lambda>v. bearer_token [AUTHORIZATION \<mapsto> Readable (lit v)] = Err Invalid)
       [''Basic token'', ''Bearer'', ''Bearer token extra'', ''Bearer  token'']"

lemma bearer_parser_rejects_missing_malformed_or_ambiguous_values_passes:
  bearer_parser_rejects_missing_malformed_or_ambiguous_values
  by (simp add: bearer_parser_rejects_missing_malformed_or_ambiguous_values_def bearer_token_def
      to_str_def eq_ignore_ascii_case_def to_ascii_lowercase_def trim_def trim_start_def trim_end_def
      is_whitespace_def lit_def ok_or_def)

definition verifier_rejects_public_cleartext_auth_hosts_at_startup ::
  "(ustr \<Rightarrow> (client_error, 'c) result) \<Rightarrow>
   ('c \<Rightarrow> ustr \<Rightarrow> nat \<Rightarrow> ustr \<Rightarrow> ustr \<Rightarrow> ustr list \<Rightarrow> (client_error, token_claims) result) \<Rightarrow> bool" where
  "verifier_rejects_public_cleartext_auth_hosts_at_startup try_new client_introspect \<longleftrightarrow>
     \<not> is_ok (new_verifier try_new client_introspect (lit ''http://auth.example.test'')
       (lit ''independent-service-credential'') (lit ''act-api''))"

lemma verifier_rejects_public_cleartext_auth_hosts_at_startup_passes:
  "try_new (lit ''http://auth.example.test'') = Err e \<Longrightarrow>
   verifier_rejects_public_cleartext_auth_hosts_at_startup try_new client_introspect"
  by (simp add: verifier_rejects_public_cleartext_auth_hosts_at_startup_def new_verifier_def)

section \<open>\<open>config.rs\<close>\<close>

definition accepts_deployed_apps_script_url :: "(ustr \<Rightarrow> url option) \<Rightarrow> ustr \<Rightarrow> bool" where
  "accepts_deployed_apps_script_url url_parse deployment \<longleftrightarrow>
     (case parse_apps_script_url url_parse
             (lit ''https://script.google.com/macros/s/'' @ deployment @ lit ''/exec'') of
        Err _ \<Rightarrow> False | Ok u \<Rightarrow> url_host_str u = Some (lit ''script.google.com''))"

lemma accepts_deployed_apps_script_url_passes:
  assumes "url_parse (lit ''https://script.google.com/macros/s/'' @ deployment @ lit ''/exec'') = Some u"
    and "url_scheme u = lit ''https''" "url_host_str u = Some (lit ''script.google.com'')"
    and "url_path u = lit ''/macros/s/'' @ deployment @ lit ''/exec''"
    and "url_query u = None" "url_fragment u = None"
  shows "accepts_deployed_apps_script_url url_parse deployment"
proof -
  have "trim_end_matches 47 (url_path u) = url_path u"
    by (simp add: trim_end_matches_def assms(4) lit_def)
  then show ?thesis
    by (simp add: accepts_deployed_apps_script_url_def parse_apps_script_url_def assms
        starts_with_def ends_with_def suffix_def)
qed

definition rejects_non_google_or_editor_urls :: "(ustr \<Rightarrow> url option) \<Rightarrow> bool" where
  "rejects_non_google_or_editor_urls url_parse \<longleftrightarrow>
     list_all (\<lambda>raw. \<not> is_ok (parse_apps_script_url url_parse (lit raw)))
       [''https://example.com/macros/s/id/exec'',
        ''https://script.google.com/home/projects/example/edit'',
        ''https://script.google.com/macros/s/id/exec?apiKey=secret'']"

lemma rejects_non_google_or_editor_urls_passes:
  assumes "\<And>u. url_parse (lit ''https://example.com/macros/s/id/exec'') = Some u \<Longrightarrow>
      url_host_str u = Some (lit ''example.com'')"
    and "\<And>u. url_parse (lit ''https://script.google.com/home/projects/example/edit'') = Some u \<Longrightarrow>
      url_path u = lit ''/home/projects/example/edit''"
    and "\<And>u. url_parse (lit ''https://script.google.com/macros/s/id/exec?apiKey=secret'') = Some u \<Longrightarrow>
      url_query u = Some (lit ''apiKey=secret'')"
  shows "rejects_non_google_or_editor_urls url_parse"
proof -
  have "\<not> starts_with (trim_end_matches 47 (lit ''/home/projects/example/edit'')) (lit ''/macros/s/'')"
    by (simp add: trim_end_matches_def starts_with_def lit_def)
  then show ?thesis
    using assms
    by (auto simp: rejects_non_google_or_editor_urls_def parse_apps_script_url_def is_ok_iff
        ok_or_def result_simps split: option.splits if_splits)
qed

definition youtube_configuration_requires_shared_auth :: bool where
  "youtube_configuration_requires_shared_auth \<longleftrightarrow>
     \<not> is_ok (validate_auth_configuration False True) \<and>
     is_ok (validate_auth_configuration True True) \<and>
     is_ok (validate_auth_configuration False False)"

lemma youtube_configuration_requires_shared_auth_passes: youtube_configuration_requires_shared_auth
  by (simp add: youtube_configuration_requires_shared_auth_def validate_auth_configuration_def is_ok_def)

definition durable_nats_rejects_remote_cleartext :: bool where
  "durable_nats_rejects_remote_cleartext \<longleftrightarrow>
     is_ok (validate_durable_nats_url (lit ''tls://nats.example.test:4222'')) \<and>
     is_ok (validate_durable_nats_url (lit ''nats://127.0.0.1:4222'')) \<and>
     \<not> is_ok (validate_durable_nats_url (lit ''nats://nats.example.test:4222''))"

lemma durable_nats_rejects_remote_cleartext_passes: durable_nats_rejects_remote_cleartext
  by (simp add: durable_nats_rejects_remote_cleartext_def validate_durable_nats_url_def is_ok_def
      starts_with_def lit_def)

definition durable_operations_require_a_separate_strong_attestation_key :: bool where
  "durable_operations_require_a_separate_strong_attestation_key \<longleftrightarrow>
     (let strong = replicate 32 (of_char CHR ''k'')
      in is_ok (validate_operation_configuration False None) \<and>
         \<not> is_ok (validate_operation_configuration True None) \<and>
         \<not> is_ok (validate_operation_configuration False (Some strong)) \<and>
         \<not> is_ok (validate_operation_configuration True (Some (lit ''too-short''))) \<and>
         is_ok (validate_operation_configuration True (Some strong)))"

lemma durable_operations_require_a_separate_strong_attestation_key_passes:
  durable_operations_require_a_separate_strong_attestation_key
  by (simp add: durable_operations_require_a_separate_strong_attestation_key_def
      validate_operation_configuration_def is_ok_def ascii_str_len ascii_def list_all_iff
      list_ex_iff is_control_def lit_def)

section \<open>\<open>routes.rs\<close> and \<open>server.rs\<close>\<close>

definition administrative_routes_fail_closed :: bool where
  "administrative_routes_fail_closed \<longleftrightarrow>
     (let state = \<lparr>app_nats = None, app_youtube = None, app_shared_auth = None,
                   app_operation_journal = None\<rparr> :: unit app_state
      in \<not> is_ok (authorize state Map.empty))"

lemma administrative_routes_fail_closed_passes: administrative_routes_fail_closed
  by (simp add: administrative_routes_fail_closed_def authorize_def ok_or_def is_ok_def)

definition request_ids_are_unique :: "nat option \<Rightarrow> nat option \<Rightarrow> u64 \<Rightarrow> bool" where
  "request_ids_are_unique millis millis' counter \<longleftrightarrow>
     (let (first, counter') = request_id millis counter; (second, _) = request_id millis' counter'
      in first \<noteq> second)"

lemma request_ids_are_unique_passes: "request_ids_are_unique millis millis' counter"
proof -
  have "counter \<noteq> counter + 1" by simp
  then show ?thesis
    using request_id_number by (fastforce simp: request_ids_are_unique_def request_id_def Let_def)
qed

definition bind_address_uses_all_ipv4_interfaces_and_configured_port :: bool where
  "bind_address_uses_all_ipv4_interfaces_and_configured_port \<longleftrightarrow>
     bind_address 8080 = SocketAddr [0, 0, 0, 0] 8080 \<and>
     bind_address 9124 = SocketAddr [0, 0, 0, 0] 9124"

lemma bind_address_uses_all_ipv4_interfaces_and_configured_port_passes:
  bind_address_uses_all_ipv4_interfaces_and_configured_port
  by (simp add: bind_address_uses_all_ipv4_interfaces_and_configured_port_def bind_address_def)

section \<open>\<open>youtube.rs\<close>\<close>

definition parses_only_supported_actions :: bool where
  "parses_only_supported_actions \<longleftrightarrow>
     parse_action (lit ''channel'') = Some Channel \<and>
     parse_action (lit ''rotateApiKey'') = None \<and>
     parse_action (lit ''setup'') = None"

lemma parses_only_supported_actions_passes: parses_only_supported_actions
  by (simp add: parses_only_supported_actions_def parse_action_def)

definition uploads_are_private_and_idempotent :: bool where
  "uploads_are_private_and_idempotent \<longleftrightarrow>
     (case prepare_payload StartUpload
             (json_object [(lit ''driveFileId'', JString (lit ''drive-1'')),
                (lit ''title'', JString (lit ''A title'')), (lit ''rightsConfirmed'', JBool True)])
             (Some (lit ''upload-2026-07-27-001'')) False of
        Err _ \<Rightarrow> False
      | Ok m \<Rightarrow>
          obj_get m (lit ''idempotencyKey'') = Some (JString (lit ''upload-2026-07-27-001'')) \<and>
          obj_get m (lit ''controlRequestId'') = Some (JString (lit ''upload-2026-07-27-001'')))"

definition rejects_public_upload_shortcut :: "printers \<Rightarrow> bool" where
  "rejects_public_upload_shortcut pr \<longleftrightarrow>
     (case prepare_payload StartUpload
             (json_object [(lit ''driveFileId'', JString (lit ''drive-1'')),
                (lit ''title'', JString (lit ''A title'')), (lit ''rightsConfirmed'', JBool True),
                (lit ''privacyStatus'', JString (lit ''public''))])
             (Some (lit ''upload-1'')) True of
        Ok _ \<Rightarrow> False
      | Err e \<Rightarrow> str_contains (validation_message pr e) (lit ''must remain private''))"

definition public_publish_requires_both_switch_and_exact_phrase :: bool where
  "public_publish_requires_both_switch_and_exact_phrase \<longleftrightarrow>
     (let body = json_object [(lit ''videoId'', JString (lit ''abc123'')),
            (lit ''privacyStatus'', JString (lit ''public'')),
            (lit ''confirmation'', JString (lit ''PUBLISH abc123 AS PUBLIC''))]
      in \<not> is_ok (prepare_payload PublishVideo body (Some (lit ''publish-1'')) False) \<and>
         is_ok (prepare_payload PublishVideo body (Some (lit ''publish-1'')) True))"

definition mutating_actions_require_idempotency_header :: bool where
  "mutating_actions_require_idempotency_header \<longleftrightarrow>
     \<not> is_ok (prepare_payload SendDigest (json_object []) None False) \<and>
     is_ok (prepare_payload Channel (json_object []) None False)"

lemmas payload_simps = prepare_payload_def prepare_start_upload_def check_publish_video_def
  require_non_empty_string_def optional_string_def validate_idempotency_key_def is_mutating_def
  publish_phrase_def json_object_def obj_get_def obj_remove_def ok_or_def is_ok_def

lemma test_keys_valid:
  "validate_idempotency_key (lit ''upload-2026-07-27-001'') = Ok ()"
  "validate_idempotency_key (lit ''upload-1'') = Ok ()"
  "validate_idempotency_key (lit ''publish-1'') = Ok ()"
  by (simp_all add: validate_idempotency_key_def ascii_str_len ascii_str_bytes ascii_def lit_def
      is_ascii_graphic_def)

lemma test_texts_trimmed:
  "trim (lit ''drive-1'') = lit ''drive-1''" "trim (lit ''A title'') = lit ''A title''"
  "trim (lit ''public'') = lit ''public''" "trim (lit ''abc123'') = lit ''abc123''"
  "trim (lit ''PUBLISH abc123 AS PUBLIC'') = lit ''PUBLISH abc123 AS PUBLIC''"
  by (simp_all add: trim_def trim_start_def trim_end_def is_whitespace_def lit_def)

lemma mutating_actions_require_idempotency_header_passes: mutating_actions_require_idempotency_header
  by (simp add: mutating_actions_require_idempotency_header_def payload_simps)

lemma test_phrase:
  "publish_phrase (lit ''abc123'') (lit ''public'') = lit ''PUBLISH abc123 AS PUBLIC''"
  by (simp add: publish_phrase_def to_ascii_uppercase_def lit_def)

lemma uploads_are_private_and_idempotent_passes: uploads_are_private_and_idempotent
proof -
  obtain m where m: "json_object [(lit ''driveFileId'', JString (lit ''drive-1'')),
      (lit ''title'', JString (lit ''A title'')), (lit ''rightsConfirmed'', JBool True)] = JObject m"
    "\<forall>k. obj_get m k = map_of [(lit ''driveFileId'', JString (lit ''drive-1'')),
      (lit ''title'', JString (lit ''A title'')), (lit ''rightsConfirmed'', JBool True)] k"
    using object_fields [of "[(lit ''driveFileId'', JString (lit ''drive-1'')),
      (lit ''title'', JString (lit ''A title'')), (lit ''rightsConfirmed'', JBool True)]"] by auto
  then show ?thesis
    by (simp add: uploads_are_private_and_idempotent_def prepare_payload_def is_mutating_def
        test_keys_valid Let_def prepare_start_upload_def require_non_empty_string_def
        optional_string_def obj_simps test_texts_trimmed)
qed

lemma rejects_public_upload_shortcut_passes: "rejects_public_upload_shortcut pr"
proof -
  obtain m where m: "json_object [(lit ''driveFileId'', JString (lit ''drive-1'')),
      (lit ''title'', JString (lit ''A title'')), (lit ''rightsConfirmed'', JBool True),
      (lit ''privacyStatus'', JString (lit ''public''))] = JObject m"
    "\<forall>k. obj_get m k = map_of [(lit ''driveFileId'', JString (lit ''drive-1'')),
      (lit ''title'', JString (lit ''A title'')), (lit ''rightsConfirmed'', JBool True),
      (lit ''privacyStatus'', JString (lit ''public''))] k"
    using object_fields [of "[(lit ''driveFileId'', JString (lit ''drive-1'')),
      (lit ''title'', JString (lit ''A title'')), (lit ''rightsConfirmed'', JBool True),
      (lit ''privacyStatus'', JString (lit ''public''))]"] by auto
  have "str_contains (validation_message pr UploadNotPrivate) (lit ''must remain private'')"
    by (simp add: validation_message_def str_contains.simps lit_def)
  with m show ?thesis
    by (simp add: rejects_public_upload_shortcut_def prepare_payload_def is_mutating_def
        test_keys_valid Let_def prepare_start_upload_def require_non_empty_string_def
        optional_string_def obj_simps test_texts_trimmed)
qed

lemma public_publish_requires_both_switch_and_exact_phrase_passes:
  public_publish_requires_both_switch_and_exact_phrase
proof -
  obtain m where m: "json_object [(lit ''videoId'', JString (lit ''abc123'')),
      (lit ''privacyStatus'', JString (lit ''public'')),
      (lit ''confirmation'', JString (lit ''PUBLISH abc123 AS PUBLIC''))] = JObject m"
    "\<forall>k. obj_get m k = map_of [(lit ''videoId'', JString (lit ''abc123'')),
      (lit ''privacyStatus'', JString (lit ''public'')),
      (lit ''confirmation'', JString (lit ''PUBLISH abc123 AS PUBLIC''))] k"
    using object_fields [of "[(lit ''videoId'', JString (lit ''abc123'')),
      (lit ''privacyStatus'', JString (lit ''public'')),
      (lit ''confirmation'', JString (lit ''PUBLISH abc123 AS PUBLIC''))]"] by auto
  then show ?thesis
    by (simp add: public_publish_requires_both_switch_and_exact_phrase_def Let_def
        prepare_payload_def is_mutating_def test_keys_valid check_publish_video_def test_phrase
        require_non_empty_string_def optional_string_def obj_simps test_texts_trimmed is_ok_def)
qed

section \<open>\<open>web_data_plane.rs\<close>\<close>

definition data_plane_request :: "nat option \<Rightarrow> data_operation \<Rightarrow> operation_envelope" where
  "data_plane_request since_epoch op =
     \<lparr>version = 1, operation_id = lit ''op-018f'', subject = lit ''shared-user-1'',
      resource = lit ''youtube_channels'', operation = op,
      payload = json_object [(lit ''limit'', jnat 10)],
      deadline_unix_ms = unix_time_ms since_epoch + 30000, dedupe_key = Some (lit ''op-018f'')\<rparr>"

text \<open>
  What the tests take from the run: the clock answers twice, the second time at most thirty
  seconds after the first and far from the end of its range, and the envelope is encoded within
  the bound.
\<close>

definition test_clock :: "nat \<Rightarrow> nat \<Rightarrow> bool" where
  "test_clock t0 t1 \<longleftrightarrow> t0 \<le> t1 \<and> t1 < t0 + 30000 \<and> t0 + 30000 < 2 ^ 64"

definition direct_database_is_read_only_and_actor_scoped ::
  "(operation_envelope \<Rightarrow> u8 list option) \<Rightarrow> nat \<Rightarrow> nat \<Rightarrow> bool" where
  "direct_database_is_read_only_and_actor_scoped to_vec t0 t1 \<longleftrightarrow>
     validate_for to_vec (unix_time_ms (Some t1)) (data_plane_request (Some t0) Write)
       DirectReadOnlyDatabase = Err DirectDatabaseWrite \<and>
     (case youtube_channel_select
             \<lparr>role_name = lit ''act_web_ro'', read_only_transaction = True,
              statement_timeout_ms = 2000, row_limit = 100\<rparr> (lit ''shared-user-1'') of
        Err _ \<Rightarrow> False
      | Ok statement \<Rightarrow>
          starts_with (sql statement) (lit ''SELECT '') \<and>
          str_contains (sql statement) (lit ''owner_subject = $1''))"

definition stateless_http_rejects_redirects_and_public_cleartext :: "(ustr \<Rightarrow> url option) \<Rightarrow> bool" where
  "stateless_http_rejects_redirects_and_public_cleartext url_parse \<longleftrightarrow>
     (let policy = \<lparr>base_url = lit ''https://act-api.internal'',
                    service_credential_ref = lit ''secret/act-web-api'',
                    http_connect_timeout_ms = 500, request_timeout_ms = 4000,
                    http_max_response_bytes = 64 * 1024, redirects_enabled = False\<rparr>
      in validate_stateless_http_policy url_parse policy = Ok () \<and>
         validate_stateless_http_policy url_parse
           (policy\<lparr>base_url := lit ''http://public.example.test''\<rparr>) = Err UnsafeHttpPolicy)"

definition stateful_tcp_requires_mtls_and_bounded_frames :: "(ustr \<Rightarrow> bool) \<Rightarrow> bool" where
  "stateful_tcp_requires_mtls_and_bounded_frames is_socket_addr \<longleftrightarrow>
     (let policy = \<lparr>tcp_address = lit ''act-api.internal:7443'', server_name = lit ''act-api.internal'',
                    ca_bundle_ref = lit ''secret/api-ca'',
                    client_certificate_ref = lit ''secret/web-cert'',
                    client_private_key_ref = lit ''secret/web-key'',
                    mutual_tls_required = True, per_operation_authentication = True,
                    tcp_bounded_backpressure = True, tcp_connect_timeout_ms = 500,
                    operation_timeout_ms = 5000, max_frame_bytes = MAX_FRAME_BYTES\<rparr>
      in validate_stateful_mtls_tcp_policy is_socket_addr policy = Ok () \<and>
         validate_stateful_mtls_tcp_policy is_socket_addr (policy\<lparr>mutual_tls_required := False\<rparr>) =
           Err UnsafeTcpPolicy)"

definition framed_round_trip_is_exact_and_rejects_trailing_bytes ::
  "(operation_envelope \<Rightarrow> u8 list option) \<Rightarrow> (u8 list \<Rightarrow> operation_envelope option) \<Rightarrow> nat option \<Rightarrow> bool" where
  "framed_round_trip_is_exact_and_rejects_trailing_bytes to_vec from_slice since_epoch \<longleftrightarrow>
     (let envelope = data_plane_request since_epoch Read
      in case encode_frame to_vec envelope MAX_FRAME_BYTES of
           Err _ \<Rightarrow> False
         | Ok frame \<Rightarrow>
             decode_frame from_slice frame MAX_FRAME_BYTES = Ok envelope \<and>
             decode_frame from_slice (frame @ [0]) MAX_FRAME_BYTES = Err InvalidFrame)"

definition jetstream_requires_dedupe_and_explicit_ack ::
  "(operation_envelope \<Rightarrow> u8 list option) \<Rightarrow> nat \<Rightarrow> nat \<Rightarrow> bool" where
  "jetstream_requires_dedupe_and_explicit_ack to_vec t0 t1 \<longleftrightarrow>
     validate_for to_vec (unix_time_ms (Some t1))
       ((data_plane_request (Some t0) Write)\<lparr>dedupe_key := None\<rparr>) JetStreamAsync =
       Err MissingDedupeKey \<and>
     validate_jet_stream_policy
       \<lparr>request_subject = lit ''act.operations.youtube'',
        result_subject_prefix = lit ''act.results.youtube'',
        durable_consumer = lit ''act-api-youtube-v1'', max_deliveries = 5, ack_wait_ms = 30000,
        publish_timeout_ms = 2000, explicit_ack = True, transactional_outbox = True,
        durable_inbox_dedupe = True, queryable_status = True, js_bounded_backpressure = True\<rparr> = Ok ()"

lemmas plain_text_simps =
  validate_identifier_def ascii_str_len ascii_def is_control_def trim_id_iff is_whitespace_def
  lit_def

lemma test_identifiers:
  "validate_identifier (lit ''op-018f'') 128 = Ok ()"
  "validate_identifier (lit ''shared-user-1'') 256 = Ok ()"
  "validate_identifier (lit ''youtube_channels'') 96 = Ok ()"
  by (simp_all add: plain_text_simps)

lemma test_deadline:
  assumes "test_clock t0 t1"
  shows "\<not> unix_time_ms (Some t0) + 30000 \<le> unix_time_ms (Some t1)"
    and "\<not> MAX_OPERATION_DEADLINE_MS < saturating_sub (unix_time_ms (Some t0) + 30000) (unix_time_ms (Some t1))"
proof -
  have t: "t0 < 2 ^ 64" "t1 < 2 ^ 64" "t0 + 30000 < 2 ^ 64" "t0 \<le> t1" "t1 < t0 + 30000"
    using assms by (auto simp: test_clock_def)
  have "unix_time_ms (Some t0) + 30000 = word_of_nat (t0 + 30000)"
    using t by (simp add: unix_time_ms_def u64_saturating_def)
  then have d: "unat (unix_time_ms (Some t0) + 30000) = t0 + 30000"
    using t by (simp add: unat_of_nat take_bit_eq_mod del: of_nat_add)
  have n: "unat (unix_time_ms (Some t1)) = t1"
    using t by (simp add: unix_time_ms_def unat_u64_saturating)
  show "\<not> unix_time_ms (Some t0) + 30000 \<le> unix_time_ms (Some t1)"
    using d n t by (simp add: word_le_nat_alt)
  show "\<not> MAX_OPERATION_DEADLINE_MS < saturating_sub (unix_time_ms (Some t0) + 30000) (unix_time_ms (Some t1))"
    using d n t by (simp add: word_less_nat_alt unat_saturating_sub MAX_OPERATION_DEADLINE_MS_def)
qed

lemma direct_database_is_read_only_and_actor_scoped_passes:
  assumes "test_clock t0 t1" "to_vec (data_plane_request (Some t0) Write) = Some bytes"
    and "length bytes \<le> MAX_OPERATION_BYTES"
  shows "direct_database_is_read_only_and_actor_scoped to_vec t0 t1"
proof -
  have "validate_for to_vec (unix_time_ms (Some t1)) (data_plane_request (Some t0) Write)
      DirectReadOnlyDatabase = Err DirectDatabaseWrite"
    using assms test_deadline [OF assms(1)] assms(2) [unfolded data_plane_request_def]
    by (simp add: validate_for_def test_identifiers data_plane_request_def ok_or_def)
  moreover have "starts_with YOUTUBE_CHANNEL_SQL (lit ''SELECT '') \<and>
      str_contains YOUTUBE_CHANNEL_SQL (lit ''owner_subject = $1'')"
    by (simp add: YOUTUBE_CHANNEL_SQL_def starts_with_def str_contains.simps lit_def)
  moreover have "ends_with (lit ''act_web_ro'') (lit ''_web_ro'')"
    by (simp add: ends_with_def suffix_def lit_def)
  ultimately show ?thesis
    by (simp add: direct_database_is_read_only_and_actor_scoped_def youtube_channel_select_def
        validate_direct_database_policy_def in_range_def test_identifiers)
qed

lemma stateless_http_rejects_redirects_and_public_cleartext_passes:
  assumes "url_parse (lit ''https://act-api.internal'') = Some u"
    and "url_scheme u = lit ''https''" "url_username u = []" "url_password u = None"
    and "url_query u = None" "url_fragment u = None"
    and "\<And>v. url_parse (lit ''http://public.example.test'') = Some v \<Longrightarrow>
      url_scheme v = lit ''http'' \<and> url_host_str v = Some (lit ''public.example.test'')"
  shows "stateless_http_rejects_redirects_and_public_cleartext url_parse"
proof -
  have "trim (lit ''secret/act-web-api'') \<noteq> []" by (simp add: trim_def trim_start_def trim_end_def is_whitespace_def lit_def)
  moreover have "\<not> ends_with (lit ''public.example.test'') (lit ''.svc.cluster.local'')"
    by (simp add: ends_with_def suffix_to_prefix lit_def)
  ultimately show ?thesis
    using assms
    by (cases "url_parse (lit ''http://public.example.test'')")
      (auto simp: stateless_http_rejects_redirects_and_public_cleartext_def
        validate_stateless_http_policy_def in_range_def Let_def ok_or_def)
qed

lemma stateful_tcp_requires_mtls_and_bounded_frames_passes:
  "stateful_tcp_requires_mtls_and_bounded_frames is_socket_addr"
proof -
  have "valid_host_port (lit ''act-api.internal:7443'')"
    by (simp add: valid_host_port_def rsplit_once_def parse_unsigned_def ascii_str_len ascii_def
        is_whitespace_def is_digit_char_def digits_value_def lit_def)
  moreover have "\<And>s. s \<in> {''act-api.internal'', ''secret/api-ca'', ''secret/web-cert'', ''secret/web-key''} \<Longrightarrow>
      trim (lit s) \<noteq> []"
    by (auto simp: trim_def trim_start_def trim_end_def is_whitespace_def lit_def)
  ultimately show ?thesis
    by (simp add: stateful_tcp_requires_mtls_and_bounded_frames_def Let_def
        validate_stateful_mtls_tcp_policy_def in_range_def MAX_FRAME_BYTES_def)
qed

lemma framed_round_trip_is_exact_and_rejects_trailing_bytes_passes:
  assumes "to_vec (data_plane_request since_epoch Read) = Some bytes" "length bytes \<le> MAX_FRAME_BYTES"
    and "from_slice bytes = Some (data_plane_request since_epoch Read)"
  shows "framed_round_trip_is_exact_and_rejects_trailing_bytes to_vec from_slice since_epoch"
proof -
  let ?f = "to_be_bytes (word_of_nat (length bytes)) @ bytes"
  have l: "length bytes < 2 ^ 32" using assms(2) by (simp add: MAX_FRAME_BYTES_def)
  have "encode_frame to_vec (data_plane_request since_epoch Read) MAX_FRAME_BYTES = Ok ?f"
    using assms by (simp add: encode_frame_Ok_iff)
  moreover have "decode_frame from_slice ?f MAX_FRAME_BYTES = Ok (data_plane_request since_epoch Read)"
    using assms frame_length_prefix [OF l] by (simp add: decode_frame_Ok_iff)
  moreover have "decode_frame from_slice (?f @ [0]) MAX_FRAME_BYTES = Err InvalidFrame"
    using decode_frame_of_encoded [OF l, of from_slice "length (?f @ [0])" "[0]"]
    by (intro decode_frame_not_Ok) (auto simp: is_ok_iff)
  ultimately show ?thesis
    by (simp add: framed_round_trip_is_exact_and_rejects_trailing_bytes_def Let_def)
qed

lemma jetstream_requires_dedupe_and_explicit_ack_passes:
  assumes "test_clock t0 t1"
    and "to_vec ((data_plane_request (Some t0) Write)\<lparr>dedupe_key := None\<rparr>) = Some bytes"
    and "length bytes \<le> MAX_OPERATION_BYTES"
  shows "jetstream_requires_dedupe_and_explicit_ack to_vec t0 t1"
proof -
  have "validate_for to_vec (unix_time_ms (Some t1))
      ((data_plane_request (Some t0) Write)\<lparr>dedupe_key := None\<rparr>) JetStreamAsync = Err MissingDedupeKey"
    using assms test_deadline [OF assms(1)] assms(2) [unfolded data_plane_request_def]
    by (simp add: validate_for_def test_identifiers data_plane_request_def ok_or_def)
  moreover have "trim (lit ''act-api-youtube-v1'') \<noteq> []"
    by (simp add: trim_def trim_start_def trim_end_def is_whitespace_def lit_def)
  moreover have "starts_with (lit ''act.operations.youtube'') (lit ''act.operations.'')"
    "starts_with (lit ''act.results.youtube'') (lit ''act.results.'')"
    by (simp_all add: starts_with_def lit_def)
  ultimately show ?thesis
    by (simp add: jetstream_requires_dedupe_and_explicit_ack_def validate_jet_stream_policy_def
        in_range_def)
qed

section \<open>\<open>shutdown.rs\<close>\<close>

definition tty_second_sigint_forces :: bool where
  "tty_second_sigint_forces \<longleftrightarrow>
     (let first = apply_trigger (new_state True) Sigint;
          second = apply_trigger (tr_state first) Sigint
      in tr_action first = BeginGraceful \<and> tr_show_force_hint first \<and>
         tr_action second = Force \<and> sd_phase (tr_state second) = Forcing)"

definition tty_eof_only_forces_after_sigint :: bool where
  "tty_eof_only_forces_after_sigint \<longleftrightarrow>
     (let before = apply_trigger (new_state True) StdinEof;
          first = apply_trigger (new_state True) Sigint;
          eof = apply_trigger (tr_state first) StdinEof
      in tr_action before = Ignore \<and> tr_action eof = Force)"

definition non_tty_one_sigint_begins_graceful_without_force_hint :: bool where
  "non_tty_one_sigint_begins_graceful_without_force_hint \<longleftrightarrow>
     (let first = apply_trigger (new_state False) Sigint
      in tr_action first = BeginGraceful \<and> \<not> tr_show_force_hint first)"

definition sigterm_always_begins_graceful_without_force_hint :: bool where
  "sigterm_always_begins_graceful_without_force_hint \<longleftrightarrow>
     list_all (\<lambda>stdin_is_tty.
       let first = apply_trigger (new_state stdin_is_tty) Sigterm
       in tr_action first = BeginGraceful \<and> \<not> tr_show_force_hint first) [False, True]"

definition graceful_completion_reaches_complete_phase :: bool where
  "graceful_completion_reaches_complete_phase \<longleftrightarrow>
     (let first = apply_trigger (new_state False) Sigterm;
          complete = apply_trigger (tr_state first) GracefulComplete
      in tr_action complete = CompleteShutdown \<and> sd_phase (tr_state complete) = Complete)"

text \<open>
  The three tests with a real server, as runs of the supervisor: the order in which its futures
  become ready is the schedule the test forces, and an unfinished supervisor is one whose
  schedule so far gives no result. The connections themselves are axum-server's.
\<close>

definition test_config :: "bool \<Rightarrow> nat \<Rightarrow> shutdown_config" where
  "test_config stdin_is_tty grace_period =
     \<lparr>grace_period_ms = grace_period, config_stdin_is_tty = stdin_is_tty, watch_stdin_eof = False\<rparr>"

definition run_outcome :: "shutdown_config \<Rightarrow> bool \<Rightarrow> ready list \<Rightarrow> settled \<Rightarrow> outcome option" where
  "run_outcome cfg watcher_starts schedule st =
     (case supervise_with_triggers cfg watcher_starts schedule st of
        Some (Ok out, _) \<Rightarrow> Some out | _ \<Rightarrow> None)"

definition sigterm_drains_a_real_active_request :: "bool \<Rightarrow> settled \<Rightarrow> bool" where
  "sigterm_drains_a_real_active_request watcher_starts st \<longleftrightarrow>
     (let config = test_config False 2000; sent = [TriggerReady (Some (Ok Sigterm))]
      in supervise_with_triggers config watcher_starts sent st = None \<and>
         run_outcome config watcher_starts (sent @ [ServerEnded (Ok (Ok ()))]) st =
           Some \<lparr>forced = False, outcome_trigger = Sigterm\<rparr>)"

definition second_tty_sigint_force_closes_a_real_active_connection :: "bool \<Rightarrow> bool" where
  "second_tty_sigint_force_closes_a_real_active_connection watcher_starts \<longleftrightarrow>
     (let config = test_config True 2000; sent = [TriggerReady (Some (Ok Sigint))];
          settled = ServerSettled (Ok (Ok ()))
      in supervise_with_triggers config watcher_starts sent settled = None \<and>
         run_outcome config watcher_starts (sent @ [TriggerReady (Some (Ok Sigint))]) settled =
           Some \<lparr>forced = True, outcome_trigger = Sigint\<rparr>)"

definition grace_deadline_force_closes_a_real_active_connection :: "bool \<Rightarrow> bool" where
  "grace_deadline_force_closes_a_real_active_connection watcher_starts \<longleftrightarrow>
     run_outcome (test_config False 50) watcher_starts
       [TriggerReady (Some (Ok Sigterm)), DeadlineElapsed] (ServerSettled (Ok (Ok ()))) =
       Some \<lparr>forced = True, outcome_trigger = TimeoutElapsed\<rparr>"

lemmas supervisor_run_simps =
  run_outcome_def test_config_def supervise_with_triggers_def polls_first_def polls_draining_def
  receive_trigger_def supervise_draining_def settle_forced_def flatten_server_result_def
  apply_trigger_def new_state_def is_signal_def Let_def

lemma shutdown_state_tests_pass:
  tty_second_sigint_forces tty_eof_only_forces_after_sigint
  non_tty_one_sigint_begins_graceful_without_force_hint
  sigterm_always_begins_graceful_without_force_hint
  graceful_completion_reaches_complete_phase
  by (simp_all add: tty_second_sigint_forces_def tty_eof_only_forces_after_sigint_def
      non_tty_one_sigint_begins_graceful_without_force_hint_def
      sigterm_always_begins_graceful_without_force_hint_def
      graceful_completion_reaches_complete_phase_def apply_trigger_def new_state_def ignored_def)

lemma shutdown_run_tests_pass:
  "sigterm_drains_a_real_active_request watcher_starts st"
  "second_tty_sigint_force_closes_a_real_active_connection watcher_starts"
  "grace_deadline_force_closes_a_real_active_connection watcher_starts"
  by (simp_all add: sigterm_drains_a_real_active_request_def
      second_tty_sigint_force_closes_a_real_active_connection_def
      grace_deadline_force_closes_a_real_active_connection_def supervisor_run_simps)

section \<open>\<open>transport_runtime.rs\<close>\<close>

definition TEST_ATTESTATION_KEY :: "u8 list" where
  "TEST_ATTESTATION_KEY = str_bytes (lit ''test-only-operation-attestation-key-32-bytes'')"

definition fake_service_execute ::
  "(u8 list \<Rightarrow> u8 list \<Rightarrow> u8 list option) \<Rightarrow> (operation_envelope \<Rightarrow> u8 list option) \<Rightarrow> service" where
  "fake_service_execute mac to_vec request mode =
     (let authenticated =
            (case mode of
               JetStreamAsync \<Rightarrow>
                 is_ok (verify_operation_attestation mac to_vec TEST_ATTESTATION_KEY
                          (envelope request) (authorization request))
             | _ \<Rightarrow> authorization request = lit ''Bearer valid'')
      in if authenticated \<and> subject (envelope request) = lit ''actor-1''
         then Ok (json_object [(lit ''configured'', JBool True)])
         else Err Unauthorized)"

definition transport_request :: "nat \<Rightarrow> ustr \<Rightarrow> authenticated_operation" where
  "transport_request millis auth =
     \<lparr>authorization = auth,
      envelope =
        \<lparr>version = 1, operation_id = lit ''operation-1'', subject = lit ''actor-1'',
         resource = lit ''youtube_status'', operation = Read, payload = json_object [],
         deadline_unix_ms = word_of_nat millis + MAX_OPERATION_DEADLINE_MS,
         dedupe_key = Some (lit ''operation-1'')\<rparr>\<rparr>"

definition processed_error ::
  "serde \<Rightarrow> service \<Rightarrow> (authenticated_operation \<Rightarrow> u8 list option) \<Rightarrow> nat \<Rightarrow> authenticated_operation \<Rightarrow>
   web_api_mode \<Rightarrow> ustr option option" where
  "processed_error sd execute request_to_vec millis request mode =
     map_option (\<lambda>bytes. reply_error
         (process_payload sd execute (unix_time_ms (Some millis)) False bytes mode))
       (request_to_vec request)"

text \<open>The clock's readings are numbered in the order the test makes them.\<close>

definition every_tcp_and_jetstream_operation_is_authenticated ::
  "(u8 list \<Rightarrow> u8 list \<Rightarrow> u8 list option) \<Rightarrow> serde \<Rightarrow> (authenticated_operation \<Rightarrow> u8 list option) \<Rightarrow>
   (nat \<Rightarrow> nat) \<Rightarrow> bool" where
  "every_tcp_and_jetstream_operation_is_authenticated mac sd request_to_vec clock \<longleftrightarrow>
     (let fake = fake_service_execute mac (envelope_to_vec sd);
          run = processed_error sd fake request_to_vec;
          valid_tcp = transport_request (clock 0) (lit ''Bearer valid'');
          invalid_tcp = transport_request (clock 1) (lit ''Bearer invalid'');
          unsigned_async = transport_request (clock 4) []
      in run (clock 2) valid_tcp StatefulMtlsTcp = Some None \<and>
         run (clock 3) invalid_tcp StatefulMtlsTcp = Some (Some (lit ''unauthorized'')) \<and>
         (case sign_operation_attestation mac (envelope_to_vec sd) TEST_ATTESTATION_KEY
                 (envelope unsigned_async) of
            Err _ \<Rightarrow> False
          | Ok attestation \<Rightarrow>
              let valid_async = unsigned_async\<lparr>authorization := attestation\<rparr>;
                  invalid_async = valid_async\<lparr>envelope := (envelope valid_async)\<lparr>subject := lit ''actor-2''\<rparr>\<rparr>
              in run (clock 5) valid_async JetStreamAsync = Some None \<and>
                 run (clock 6) invalid_async JetStreamAsync = Some (Some (lit ''unauthorized''))))"

definition request_rejects_ambiguous_bearers :: "serde \<Rightarrow> nat \<Rightarrow> u64 \<Rightarrow> bool" where
  "request_rejects_ambiguous_bearers sd millis now \<longleftrightarrow>
     validate_operation sd now (transport_request millis (lit ''Bearer token extra'')) StatefulMtlsTcp =
       Err Unauthorized"

definition operation_attestation_is_bound_to_every_envelope_field ::
  "(u8 list \<Rightarrow> u8 list \<Rightarrow> u8 list option) \<Rightarrow> (operation_envelope \<Rightarrow> u8 list option) \<Rightarrow> nat \<Rightarrow> bool" where
  "operation_attestation_is_bound_to_every_envelope_field mac to_vec millis \<longleftrightarrow>
     (let signed = transport_request millis []
      in case sign_operation_attestation mac to_vec TEST_ATTESTATION_KEY (envelope signed) of
           Err _ \<Rightarrow> False
         | Ok attestation \<Rightarrow>
             is_ok (verify_operation_attestation mac to_vec TEST_ATTESTATION_KEY (envelope signed)
                      attestation) \<and>
             verify_operation_attestation mac to_vec TEST_ATTESTATION_KEY
               ((envelope signed)\<lparr>operation := Write\<rparr>) attestation = Err Unauthorized \<and>
             \<not> str_contains attestation (lit ''Bearer ''))"

text \<open>
  The facts of the run the tests rely on: an operation the codec reads back, an envelope it
  encodes within the bound, and a MAC that gives two encodings different 32-byte tags.
\<close>

definition travels :: "serde \<Rightarrow> (authenticated_operation \<Rightarrow> u8 list option) \<Rightarrow> authenticated_operation \<Rightarrow> bool" where
  "travels sd request_to_vec r \<longleftrightarrow>
     (\<exists>bytes p. request_to_vec r = Some bytes \<and> length bytes \<le> MAX_TRANSPORT_BYTES \<and>
        operation_from_slice sd bytes = Some r \<and>
        envelope_to_vec sd (envelope r) = Some p \<and> length p \<le> MAX_OPERATION_BYTES)"

definition tags_apart ::
  "(u8 list \<Rightarrow> u8 list \<Rightarrow> u8 list option) \<Rightarrow> (operation_envelope \<Rightarrow> u8 list option) \<Rightarrow>
   operation_envelope \<Rightarrow> operation_envelope \<Rightarrow> bool" where
  "tags_apart mac to_vec e e' \<longleftrightarrow>
     (\<exists>p p' tag tag'. to_vec e = Some p \<and> to_vec e' = Some p' \<and> tag \<noteq> tag' \<and> length tag = 32 \<and>
        mac TEST_ATTESTATION_KEY p = Some tag \<and> mac TEST_ATTESTATION_KEY p' = Some tag')"

lemma test_key_length: "MIN_OPERATION_HMAC_KEY_BYTES \<le> length TEST_ATTESTATION_KEY"
  by (simp add: TEST_ATTESTATION_KEY_def MIN_OPERATION_HMAC_KEY_BYTES_def ascii_str_bytes ascii_def lit_def)

lemma tags_apart_sign:
  assumes "tags_apart mac to_vec e e'"
  obtains tag where "length tag = 32"
    "sign_operation_attestation mac to_vec TEST_ATTESTATION_KEY e =
       Ok (OPERATION_ATTESTATION_PREFIX @ encode_hex tag)"
    "verify_operation_attestation mac to_vec TEST_ATTESTATION_KEY e
       (OPERATION_ATTESTATION_PREFIX @ encode_hex tag) = Ok ()"
    "verify_operation_attestation mac to_vec TEST_ATTESTATION_KEY e'
       (OPERATION_ATTESTATION_PREFIX @ encode_hex tag) = Err Unauthorized"
proof -
  obtain p p' tag tag' where t: "to_vec e = Some p" "to_vec e' = Some p'" "tag \<noteq> tag'" "length tag = 32"
      "mac TEST_ATTESTATION_KEY p = Some tag" "mac TEST_ATTESTATION_KEY p' = Some tag'"
    using assms by (auto simp: tags_apart_def)
  have k: "\<not> length TEST_ATTESTATION_KEY < MIN_OPERATION_HMAC_KEY_BYTES" using test_key_length by simp
  show ?thesis
    using t by (intro that [of tag])
      (simp_all add: sign_operation_attestation_def verify_operation_attestation_def k ok_or_def
        decode_encode_sha256)
qed

lemma str_contains_set: "str_contains s p \<Longrightarrow> set p \<subseteq> set s"
proof (induction s)
  case (Cons c s)
  then have "prefix p (c # s) \<or> str_contains s p" by (simp add: str_contains.simps [of "c # s"])
  with Cons.IH show ?case using set_mono_prefix [of p "c # s"] by auto
qed (simp add: str_contains.simps)

lemma test_bearers:
  "validate_authorization (lit ''Bearer valid'') = Ok ()"
  "validate_authorization (lit ''Bearer invalid'') = Ok ()"
  "validate_authorization (lit ''Bearer token extra'') = Err Unauthorized"
  by (simp_all add: validate_authorization_def MAX_AUTHORIZATION_BYTES_def ascii_str_len ascii_def
      trim_id_iff is_whitespace_def lit_def ok_or_def strip_prefix_def)

lemma request_rejects_ambiguous_bearers_passes: "request_rejects_ambiguous_bearers sd millis now"
  by (simp add: request_rejects_ambiguous_bearers_def validate_operation_def transport_request_def
      test_bearers)

lemma operation_attestation_is_bound_to_every_envelope_field_passes:
  assumes "tags_apart mac to_vec (envelope (transport_request millis []))
    ((envelope (transport_request millis []))\<lparr>operation := Write\<rparr>)"
  shows "operation_attestation_is_bound_to_every_envelope_field mac to_vec millis"
proof -
  have "\<not> str_contains (OPERATION_ATTESTATION_PREFIX @ encode_hex tag) (lit ''Bearer '')" for tag
  proof
    assume "str_contains (OPERATION_ATTESTATION_PREFIX @ encode_hex tag) (lit ''Bearer '')"
    then have "114 \<in> set OPERATION_ATTESTATION_PREFIX \<union> set (encode_hex tag)"
      by (auto dest: str_contains_set simp: lit_def)
    moreover have "114 \<notin> set OPERATION_ATTESTATION_PREFIX"
      by (simp add: OPERATION_ATTESTATION_PREFIX_def lit_def)
    ultimately show False using encode_hex_lowercase [of tag] by (auto simp: list_all_iff)
  qed
  then show ?thesis
    by (auto intro: tags_apart_sign [OF assms]
        simp: operation_attestation_is_bound_to_every_envelope_field_def Let_def is_ok_def)
qed

lemma test_operation_valid:
  assumes "test_clock t0 t1" "travels sd request_to_vec r" "mode \<noteq> DirectReadOnlyDatabase"
    and "envelope r = (envelope (transport_request t0 []))\<lparr>subject := s\<rparr>"
    and "s \<in> {lit ''actor-1'', lit ''actor-2''}"
  shows "map_err (\<lambda>_. InvalidRequest)
    (validate_for (envelope_to_vec sd) (unix_time_ms (Some t1)) (envelope r) mode) = Ok ()"
proof -
  have "MAX_OPERATION_DEADLINE_MS = 30000" "unix_time_ms (Some t0) = word_of_nat t0"
    using assms(1) by (simp_all add: MAX_OPERATION_DEADLINE_MS_def test_clock_def unix_time_ms_def
        u64_saturating_def)
  then have d: "\<not> word_of_nat t0 + MAX_OPERATION_DEADLINE_MS \<le> unix_time_ms (Some t1)"
    "\<not> MAX_OPERATION_DEADLINE_MS <
       saturating_sub (word_of_nat t0 + MAX_OPERATION_DEADLINE_MS) (unix_time_ms (Some t1))"
    using test_deadline [OF assms(1)] by metis+
  obtain p where p: "envelope_to_vec sd (envelope r) = Some p" "length p \<le> MAX_OPERATION_BYTES"
    using assms(2) by (auto simp: travels_def)
  have i: "validate_identifier (lit ''operation-1'') 128 = Ok ()" "validate_identifier s 256 = Ok ()"
    "validate_identifier (lit ''youtube_status'') 96 = Ok ()"
    using assms(5) by (auto simp: plain_text_simps)
  show ?thesis
    using p i d assms(3,4)
    by (simp add: validate_for_def transport_request_def)
qed

lemma fake_reply:
  assumes "travels sd request_to_vec r"
    and "validate_operation sd (unix_time_ms (Some t)) r mode = Ok ()"
  shows "processed_error sd execute request_to_vec t r mode =
    Some (case execute r mode of Ok _ \<Rightarrow> None | Err e \<Rightarrow> Some (transport_error_code e))"
proof -
  obtain bytes where "request_to_vec r = Some bytes" "\<not> MAX_TRANSPORT_BYTES < length bytes"
      "operation_from_slice sd bytes = Some r"
    using assms(1) by (auto simp: travels_def)
  then show ?thesis
    using assms(2) by (simp add: processed_error_def process_payload_def Let_def reply_ok_def
        reply_err_def split: sum.splits)
qed

lemma every_tcp_and_jetstream_operation_is_authenticated_passes:
  assumes clock: "test_clock (clock 0) (clock 2)" "test_clock (clock 1) (clock 3)"
      "test_clock (clock 4) (clock 5)" "test_clock (clock 4) (clock 6)"
    and bytes: "\<And>r. envelope r \<in> {envelope (transport_request (clock n) []) |n. n \<in> {0, 1, 4}} \<union>
        {(envelope (transport_request (clock 4) []))\<lparr>subject := lit ''actor-2''\<rparr>} \<Longrightarrow>
      str_len (authorization r) \<le> 80 \<Longrightarrow> travels sd request_to_vec r"
    and tags: "tags_apart mac (envelope_to_vec sd) (envelope (transport_request (clock 4) []))
      ((envelope (transport_request (clock 4) []))\<lparr>subject := lit ''actor-2''\<rparr>)"
  shows "every_tcp_and_jetstream_operation_is_authenticated mac sd request_to_vec clock"
proof -
  let ?fake = "fake_service_execute mac (envelope_to_vec sd)"
  let ?run = "processed_error sd ?fake request_to_vec"
  let ?tcp = "\<lambda>n a. transport_request (clock n) a"
  have env: "envelope (?tcp n a) = (envelope (?tcp n []))\<lparr>subject := lit ''actor-1''\<rparr>" for n a
    by (simp add: transport_request_def)
  have tcp: "?run t (?tcp n (lit b)) StatefulMtlsTcp =
      Some (if lit b = lit ''Bearer valid'' then None else Some (lit ''unauthorized''))"
    if "test_clock (clock n) t" "n \<in> {0, 1}" "b \<in> {''Bearer valid'', ''Bearer invalid''}" for n t b
  proof -
    have "travels sd request_to_vec (?tcp n (lit b))"
      using that(2,3) by (intro bytes) (auto simp: transport_request_def ascii_str_len ascii_def lit_def)
    moreover have "validate_operation sd (unix_time_ms (Some t)) (?tcp n (lit b)) StatefulMtlsTcp = Ok ()"
      using test_operation_valid [OF that(1) calculation _ env, of StatefulMtlsTcp] that(3)
      by (auto simp: validate_operation_def test_bearers transport_request_def)
    ultimately show ?thesis
      using that(3) by (auto simp: fake_reply fake_service_execute_def transport_request_def)
  qed
  obtain tag where t: "length tag = 32"
    "sign_operation_attestation mac (envelope_to_vec sd) TEST_ATTESTATION_KEY (envelope (?tcp 4 [])) =
       Ok (OPERATION_ATTESTATION_PREFIX @ encode_hex tag)"
    "verify_operation_attestation mac (envelope_to_vec sd) TEST_ATTESTATION_KEY
       (envelope (?tcp 4 [])) (OPERATION_ATTESTATION_PREFIX @ encode_hex tag) = Ok ()"
    "verify_operation_attestation mac (envelope_to_vec sd) TEST_ATTESTATION_KEY
       ((envelope (?tcp 4 []))\<lparr>subject := lit ''actor-2''\<rparr>) (OPERATION_ATTESTATION_PREFIX @ encode_hex tag) = Err Unauthorized"
    using tags_apart_sign [OF tags] by metis
  let ?a = "OPERATION_ATTESTATION_PREFIX @ encode_hex tag"
  let ?r = "\<lambda>s. \<lparr>authorization = ?a, envelope = (envelope (?tcp 4 []))\<lparr>subject := s\<rparr>\<rparr>"
  have "ascii ?a"
    using encode_hex_ascii by (simp add: OPERATION_ATTESTATION_PREFIX_def ascii_def lit_def)
  then have len: "str_len ?a \<le> 80"
    using t(1) by (simp add: ascii_str_len OPERATION_ATTESTATION_PREFIX_def lit_def)
  have async: "?run u (?r s) JetStreamAsync = Some (case ?fake (?r s) JetStreamAsync of
      Ok _ \<Rightarrow> None | Err e \<Rightarrow> Some (transport_error_code e))"
    if "test_clock (clock 4) u" "s \<in> {lit ''actor-1'', lit ''actor-2''}" for s u
  proof -
    have "travels sd request_to_vec (?r s)"
      using len that(2) by (intro bytes) (auto simp: transport_request_def)
    moreover have "validate_operation sd (unix_time_ms (Some u)) (?r s) JetStreamAsync = Ok ()"
      using test_operation_valid [OF that(1) calculation, of JetStreamAsync s] that(2) verify_shape [OF t(3)]
      by (simp add: validate_operation_def)
    ultimately show ?thesis by (rule fake_reply)
  qed
  have self: "(envelope (?tcp 4 []))\<lparr>subject := lit ''actor-1''\<rparr> = envelope (?tcp 4 [])"
    by (simp add: transport_request_def)
  have valid: "?run (clock 5) ((?tcp 4 [])\<lparr>authorization := ?a\<rparr>) JetStreamAsync = Some None"
    using async [OF clock(3), of "lit ''actor-1''"] t(3)
    by (simp add: self fake_service_execute_def is_ok_def) (simp add: transport_request_def)
  have invalid: "?run (clock 6) (?r (lit ''actor-2'')) JetStreamAsync = Some (Some (lit ''unauthorized''))"
    using async [OF clock(4), of "lit ''actor-2''"] t(4)
    by (simp add: fake_service_execute_def is_ok_def)
  have renamed: "(?tcp 4 [])\<lparr>authorization := a, envelope := e\<rparr> = \<lparr>authorization = a, envelope = e\<rparr>" for a e
    by (simp add: transport_request_def)
  show ?thesis
    using tcp [OF clock(1)] tcp [OF clock(2)] valid invalid t(2)
    by (simp add: renamed every_tcp_and_jetstream_operation_is_authenticated_def Let_def)
qed

section \<open>\<open>flags.rs\<close>\<close>

definition unknown_options_fail_closed_without_echoing_values :: "flags_parser \<Rightarrow> bool" where
  "unknown_options_fail_closed_without_echoing_values parser \<longleftrightarrow>
     (case resolve_from parser [lit ''server'', lit ''--definitely-unknown=do-not-echo''] Map.empty of
        Ok _ \<Rightarrow> False
      | Err error \<Rightarrow>
          str_contains error (lit ''--definitely-unknown'') \<and> \<not> str_contains error (lit ''do-not-echo''))"

lemma unknown_options_fail_closed_without_echoing_values_passes:
  assumes "contract_file parser = Ok path" and "audit_config parser path = Ok ()"
    and "parse_structured parser [lit ''server'', lit ''--definitely-unknown=do-not-echo''] path = Ok parsed"
    and "unknown_options parsed = [lit ''--definitely-unknown=do-not-echo'']"
  shows "unknown_options_fail_closed_without_echoing_values parser"
proof -
  have "option_name (lit ''--definitely-unknown=do-not-echo'') = lit ''--definitely-unknown''"
    by (simp add: option_name_def strip_prefix_def lit_def)
  then show ?thesis
    using assms by (simp add: unknown_options_fail_closed_without_echoing_values_def resolve_from_def)
      (simp add: str_contains.simps lit_def)
qed

text \<open>
  The first typed value flag of a contract, in the order the table is read, and the run that
  gives it on the command line and in the environment.
\<close>

definition typed_value_flag :: "toml \<Rightarrow> (ustr \<times> ustr \<times> ustr) option" where
  "typed_value_flag v =
     Option.bind (as_table v) (\<lambda>flag.
     Option.bind (Option.bind (toml_get flag ''type'') as_str) (\<lambda>value_type.
       if value_type = lit ''bool'' \<or> value_type = lit ''boolean'' then None
       else Option.bind (Option.bind (toml_get flag ''long'') as_str) (\<lambda>long.
            Option.bind (Option.bind (toml_get flag ''env'') as_str) (\<lambda>env.
            Some (long, env, value_type)))))"

definition first_typed_value_flag :: "(ustr \<times> toml) list \<Rightarrow> (ustr \<times> ustr \<times> ustr) option" where
  "first_typed_value_flag contract =
     Option.bind (Option.bind (toml_get contract ''flags'') as_table) (\<lambda>flags.
       first_element (List.map_filter typed_value_flag (map snd flags)))"

definition command_line_overrides_environment_with_a_typed_value ::
  "flags_parser \<Rightarrow> (ustr \<times> toml) list \<Rightarrow> bool" where
  "command_line_overrides_environment_with_a_typed_value parser contract \<longleftrightarrow>
     (case first_typed_value_flag contract of
        None \<Rightarrow> False
      | Some (long, env, value_type) \<Rightarrow>
          let command_line_value = (if value_type = lit ''integer'' then lit ''31337'' else lit ''from-cli'');
              option = lit ''--'' @ long @ lit ''='' @ command_line_value
          in case resolve_from parser [lit ''server'', option] [env \<mapsto> lit ''from-env''] of
               Err _ \<Rightarrow> False
             | Ok resolved \<Rightarrow> resolved env = Some command_line_value)"

definition help_is_derived_from_the_audited_contract ::
  "(toml \<Rightarrow> ustr) \<Rightarrow> (ustr, (ustr \<times> toml) list) result \<Rightarrow> bool" where
  "help_is_derived_from_the_audited_contract display contract \<longleftrightarrow>
     (case help_table display contract of
        Err _ \<Rightarrow> False
      | Ok help \<Rightarrow> str_contains help (lit ''--help'') \<and> str_contains help (lit ''Options:''))"

lemma str_contains_infix: "str_contains (a @ p @ b) p"
proof (induction a)
  case Nil
  then show ?case by (simp add: str_contains.simps [of "p @ b"])
next
  case (Cons c a)
  then show ?case by (simp add: str_contains.simps [of "c # a @ p @ b"])
qed

text \<open>The test passes in whatever order the table of flags is read.\<close>

lemma help_is_derived_from_the_audited_contract_passes:
  assumes "toml_get contract ''flags'' = Some (TomlTable flags)"
    and "set flags = set (map (\<lambda>(k, v). (lit k, v)) contract_flags)"
  shows "help_is_derived_from_the_audited_contract display (Ok contract)"
proof -
  have "hd contract_flags \<in> set contract_flags" by (simp add: contract_flags_def)
  then have "snd (hd contract_flags) \<in> set (map snd flags)" (is "?h \<in> _")
    unfolding set_map assms(2) by (force simp: split_beta)
  moreover obtain flag where "as_table ?h = Some flag" "flag_long flag = Some (lit ''help'')"
    by (simp add: contract_simps flag_long_def)
  ultimately obtain a b where h: "help_lines display (map snd flags) = a @ lit ''--'' @ lit ''help'' @ b"
    using help_lines_name by blast
  define usage where "usage = lit ''Usage: '' @ PKG_NAME @ lit '' [OPTIONS]'' @ [10, 10]"
  have "help_table display (Ok contract) =
      Ok (usage @ lit ''Options:'' @ [10] @ help_lines display (map snd flags))" (is "_ = Ok ?help")
    by (simp add: help_table_def assms(1) as_table_def usage_def)
  moreover have "str_contains ?help (lit ''Options:'')"
    by (rule str_contains_infix)
  moreover have "str_contains ?help (lit ''--help'')"
    using str_contains_infix [of "usage @ lit ''Options:'' @ [10] @ a" "lit ''--help''" b] h
    by (simp add: lit_def)
  ultimately show ?thesis by (simp add: help_is_derived_from_the_audited_contract_def)
qed

lemma insert_typed_scalars:
  "\<forall>(name, v) \<in> set typed. v = JNull \<or> is_ok (scalar_string name v) \<Longrightarrow>
   \<exists>r. insert_typed typed resolved = Ok r"
proof (induction typed arbitrary: resolved)
  case (Cons f typed)
  obtain name v where f: "f = (name, v)" by (cases f)
  show ?case
  proof (cases "v = JNull")
    case True
    with Cons f show ?thesis by simp
  next
    case False
    with Cons.prems f obtain t where "scalar_string name v = Ok t" by (auto simp: is_ok_iff)
    with Cons f False show ?thesis by simp
  qed
qed simp

lemma command_line_overrides_environment_with_a_typed_value_passes:
  assumes flag: "first_typed_value_flag contract = Some (long, env, value_type)"
    and parser: "contract_file parser = Ok path" "audit_config parser path = Ok ()"
      "\<And>arg. arg \<in> {lit ''31337'', lit ''from-cli''} \<Longrightarrow>
         \<exists>parsed. parse_structured parser [lit ''server'', lit ''--'' @ long @ lit ''='' @ arg] path = Ok parsed \<and>
           unknown_options parsed = [] \<and> parse_errors parsed = [] \<and> extras parsed = [] \<and>
           provided_flags parsed = [env \<mapsto> arg]"
    and coerced: "\<And>raw arg. raw env = Some arg \<Longrightarrow> arg \<in> {lit ''31337'', lit ''from-cli''} \<Longrightarrow>
      \<exists>typed. coerce parser raw path = Ok typed \<and> distinct (map fst typed) \<and>
        (\<forall>(name, v) \<in> set typed. v = JNull \<or> is_ok (scalar_string name v)) \<and>
        (\<exists>v. map_of typed env = Some v \<and> scalar_string env v = Ok arg)"
  shows "command_line_overrides_environment_with_a_typed_value parser contract"
proof -
  define arg where "arg = (if value_type = lit ''integer'' then lit ''31337'' else lit ''from-cli'')"
  have arg: "arg \<in> {lit ''31337'', lit ''from-cli''}" by (simp add: arg_def)
  obtain parsed where p: "parse_structured parser [lit ''server'', lit ''--'' @ long @ lit ''='' @ arg] path = Ok parsed"
      "unknown_options parsed = []" "parse_errors parsed = []" "extras parsed = []"
      "provided_flags parsed = [env \<mapsto> arg]"
    using parser(3) [OF arg] by blast
  have "raw_values parsed [env \<mapsto> lit ''from-env''] env = Some arg"
    by (simp add: raw_values_def p(5))
  from coerced [where raw = "raw_values parsed [env \<mapsto> lit ''from-env'']", OF this arg] obtain typed v where t:
      "coerce parser (raw_values parsed [env \<mapsto> lit ''from-env'']) path = Ok typed"
      "distinct (map fst typed)" "\<forall>(name, v) \<in> set typed. v = JNull \<or> is_ok (scalar_string name v)"
      "map_of typed env = Some v" "scalar_string env v = Ok arg"
    by blast
  obtain r where r: "insert_typed typed [env \<mapsto> lit ''from-env''] = Ok r"
    using insert_typed_scalars [OF t(3)] by blast
  then have "resolve_from parser [lit ''server'', lit ''--'' @ long @ lit ''='' @ arg]
      [env \<mapsto> lit ''from-env''] = Ok r"
    by (simp add: resolve_from_def parser p t(1))
  moreover have "v \<noteq> JNull" using t(5) by (auto simp: scalar_string_def)
  then have "r env = Some arg" using insert_typed_get [OF r t(2), of env] t(4,5) by simp
  ultimately show ?thesis
    by (simp add: command_line_overrides_environment_with_a_typed_value_def flag arg_def Let_def)
qed

end
