(* ===== verification/WebApiPlane.thy ===== *)
theory WebApiPlane
  imports RustText
begin

text \<open>
  The binding of the organisation to the shared data-plane crate, \<open>src/web_api_plane.rs\<close>.
  The crate \<open>k8s_web_api_data_plane\<close> is an argument: its constructors and validators over
  types of its own. A panic is \<open>None\<close>.
\<close>

definition GITHUB_ORG :: ustr where
  "GITHUB_ORG = lit ''anticaptrad''"

definition ORG_SLUG :: ustr where
  "ORG_SLUG = lit ''anticaptrad''"

definition DNS_ZONE :: ustr where
  "DNS_ZONE = lit ''anticaptrad.dev''"

text \<open>What the module calls of the crate.\<close>

record ('id, 'caps, 'db, 'http, 'tcp, 'nats, 'e) data_plane_crate =
  identity_new :: "ustr \<Rightarrow> ustr \<Rightarrow> ustr \<Rightarrow> ('e, 'id) result"
  capabilities_for :: "'id \<Rightarrow> 'caps"
  database_for :: "'id \<Rightarrow> 'db"
  http_for :: "'id \<Rightarrow> 'http"
  tcp_for :: "'id \<Rightarrow> u16 \<Rightarrow> 'tcp"
  nats_for :: "'id \<Rightarrow> 'nats"
  database_validate :: "'db \<Rightarrow> 'id \<Rightarrow> ('e, unit) result"
  http_validate :: "'http \<Rightarrow> ('e, unit) result"
  tcp_validate :: "'tcp \<Rightarrow> ('e, unit) result"
  nats_validate :: "'nats \<Rightarrow> ('e, unit) result"
  interaction_modes :: nat
  caps_app_host :: "'caps \<Rightarrow> ustr"
  caps_api_host :: "'caps \<Rightarrow> ustr"
  caps_nats_request_subject :: "'caps \<Rightarrow> ustr"
  caps_nats_url_in_cluster :: "'caps \<Rightarrow> ustr"

definition identity :: "('id, 'caps, 'db, 'http, 'tcp, 'nats, 'e) data_plane_crate \<Rightarrow> 'id option" where
  "identity cr = (case identity_new cr GITHUB_ORG ORG_SLUG DNS_ZONE of Ok i \<Rightarrow> Some i | Err _ \<Rightarrow> None)"

definition capabilities ::
  "('id, 'caps, 'db, 'http, 'tcp, 'nats, 'e) data_plane_crate \<Rightarrow> 'caps option" where
  "capabilities cr = map_option (capabilities_for cr) (identity cr)"

definition policies ::
  "('id, 'caps, 'db, 'http, 'tcp, 'nats, 'e) data_plane_crate \<Rightarrow> ('db \<times> 'http \<times> 'tcp \<times> 'nats) option" where
  "policies cr =
     map_option (\<lambda>i. (database_for cr i, http_for cr i, tcp_for cr i 7443, nats_for cr i)) (identity cr)"

text \<open>The assertion at the end is checked in a debug build only.\<close>

definition validate_four_avenues ::
  "bool \<Rightarrow> ('id, 'caps, 'db, 'http, 'tcp, 'nats, 'e) data_plane_crate \<Rightarrow> ('e, unit) result option" where
  "validate_four_avenues debug cr =
     Option.bind (identity cr) (\<lambda>i.
     Option.bind (policies cr) (\<lambda>(db, http, tcp, nats).
       (case and_then (database_validate cr db i) (\<lambda>_.
             and_then (http_validate cr http) (\<lambda>_.
             and_then (tcp_validate cr tcp) (\<lambda>_.
             nats_validate cr nats))) of
          Err e \<Rightarrow> Some (Err e)
        | Ok _ \<Rightarrow> if debug \<and> interaction_modes cr \<noteq> 4 then None else Some (Ok ()))))"

text \<open>The module's own test.\<close>

definition four_avenues_are_named_and_fail_closed ::
  "('id, 'caps, 'db, 'http, 'tcp, 'nats, 'e) data_plane_crate \<Rightarrow> bool" where
  "four_avenues_are_named_and_fail_closed cr \<longleftrightarrow>
     validate_four_avenues True cr = Some (Ok ()) \<and>
     (case capabilities cr of
        None \<Rightarrow> False
      | Some caps \<Rightarrow>
          caps_app_host cr caps = lit ''app.'' @ DNS_ZONE \<and>
          caps_api_host cr caps = lit ''api.'' @ DNS_ZONE \<and>
          caps_nats_request_subject cr caps = lit ''dd.remote.web_api.'' @ ORG_SLUG @ lit ''.request'' \<and>
          caps_nats_url_in_cluster cr caps = lit ''nats://dd-nats.messaging.svc.cluster.local:4222'')"

section \<open>Lemmas\<close>

text \<open>
  The four policies accept exactly when each of them does, and nothing is skipped: the
  validator panics only on an identity the crate refuses or, in a debug build, a crate whose
  modes are not the four.
\<close>

lemma validate_four_avenues_Ok_iff:
  "validate_four_avenues debug cr = Some (Ok ()) \<longleftrightarrow>
     (\<exists>i. identity_new cr GITHUB_ORG ORG_SLUG DNS_ZONE = Ok i \<and>
        database_validate cr (database_for cr i) i = Ok () \<and>
        http_validate cr (http_for cr i) = Ok () \<and>
        tcp_validate cr (tcp_for cr i 7443) = Ok () \<and>
        nats_validate cr (nats_for cr i) = Ok ()) \<and>
     (debug \<longrightarrow> interaction_modes cr = 4)"
  by (auto simp: validate_four_avenues_def policies_def identity_def result_simps
      split: sum.splits bind_splits)

lemma validate_four_avenues_panics_iff:
  assumes "identity_new cr GITHUB_ORG ORG_SLUG DNS_ZONE = Ok i"
  shows "validate_four_avenues debug cr = None \<longleftrightarrow>
    validate_four_avenues False cr = Some (Ok ()) \<and> debug \<and> interaction_modes cr \<noteq> 4"
  using assms by (auto simp: validate_four_avenues_def policies_def identity_def split: sum.split)

end
