(* ===== verification/Spec2Isabelle.thy ===== *)
theory Spec2Isabelle
  imports OperationLifecycle Publication TcpService Settings UnitTests WebApiPlane
begin

text \<open>
  A verification development for \<open>act-api-server\<close>, the HTTP API, operation transport
  and NATS bridge of the AntiCapTrad platform. It models the Rust program under
  \<open>src/\<close> with the schema under \<open>migrations/\<close>, and of the Apps Script web
  app under \<open>apps-script/\<close> what the promises of its client rest on.

  \<^bold>\<open>The program.\<close> One process. It resolves its command line and environment
  (\<open>flags.rs\<close>), reads its configuration (\<open>config.rs\<close>), installs telemetry
  (\<open>telemetry.rs\<close>) and then serves (\<open>server.rs\<close>): an HTTP router
  (\<open>routes.rs\<close>) whose protected routes are guarded by Shared Auth (\<open>auth.rs\<close>)
  and drive a Google Apps Script web app (\<open>youtube.rs\<close>), with lifecycle events on NATS
  (\<open>nats.rs\<close>); a bounded mTLS listener and a durable JetStream worker
  (\<open>transport_runtime.rs\<close>), which execute operation envelopes
  (\<open>web_data_plane.rs\<close>), the worker over a journal of three SQL tables; and a supervisor
  that ends it all on a signal (\<open>server/shutdown.rs\<close>).

  \<^bold>\<open>Theories, in the order of their imports.\<close>

  \<^item> \<open>ActPrelude\<close>: results with the combinators of the code's question mark, saturating
    machine arithmetic, reachability, and the interfaces of a state machine,
    \<open>invariant_system\<close> (an invariant every step keeps), \<open>ranked_system\<close> (a rank
    every step lowers) and \<open>carrying_system\<close> (its states carry those of another).
  \<^item> \<open>RustText\<close>: strings as lists of code points, UTF-8 both ways, the string functions
    the code calls, decimal parsing and printing.
  \<^item> \<open>Json\<close>: JSON values and the ordered map of an object, with the laws of a map as the
    locale \<open>string_map\<close>, interpreted on it.
  \<^item> \<open>WebTypes\<close>: what third-party crates hand over (URLs, header values, statuses) by
    their accessors, and big-endian lengths.
  \<^item> \<open>DataPlane\<close> (\<open>web_data_plane.rs\<close>): envelope, validation for each mode, the four
    policies, length-prefixed frames. Lemmas: validation is a static condition and a window of
    the clock; a frame decodes to its envelope and to nothing else.
  \<^item> \<open>Attestation\<close> (\<open>transport_runtime.rs\<close>): hexadecimal and HMAC attestations. Lemmas:
    what the decoder accepts, signing and verifying agree, an attestation binds its envelope
    up to collisions of the HMAC.
  \<^item> \<open>Transport\<close>: the authenticated operation, \<open>process_payload\<close> and the connection
    loop. The trait \<open>OperationService\<close> is the locale \<open>operation_service\<close>: a result
    means the request was authentic. Its interpretation is in \<open>Server\<close>.
  \<^item> \<open>Journal\<close>: the tables, one definition per SQL statement, and the five operations of
    the journal as transactions with every fault of a database. The abstract journal has one
    entry per operation, unknown, claimed or finished; the operations refine it. The trait
    \<open>OperationJournal\<close> with its contract is the locale \<open>operation_journal_contract\<close>,
    interpreted on the SQL journal.
  \<^item> \<open>Workers\<close>: admission of connections and messages, both interpretations of a locale of
    permit pools.
  \<^item> \<open>TcpService\<close>: the accept loop and the connections it spawns in one system, each
    connection turn by turn, with the lemma that what a connection sends is what its loop sends
    alone.
  \<^item> \<open>JetStream\<close>: the message handler as the code has it and cut at its await points, and
    the system of all handlers. Everything about it is proved in the locale
    \<open>durable_worker\<close>, over any journal that keeps the contract, and read off for the SQL
    journal.
  \<^item> \<open>DurableService\<close>: the pull loop and the handlers it spawns in one system, with the
    end and new start of the process. That its parts move as they do alone is the locale
    \<open>carrying_system\<close>, interpreted for the loop and for the handlers, so the lemmas of
    \<open>Workers\<close> and \<open>JetStream\<close> hold of the composed service.
  \<^item> \<open>Config\<close>, \<open>Flags\<close>, \<open>Auth\<close>, \<open>Youtube\<close>: the modules of the same names.
  \<^item> \<open>Routes\<close>: \<open>nats.rs\<close> and \<open>routes.rs\<close>, every handler with the ordered list of
    its calls to the outside.
  \<^item> \<open>Server\<close>: the operation service, the TLS acceptor, and \<open>serve\<close> as the list of the
    tasks it starts.
  \<^item> \<open>Shutdown\<close>: the state machine (an interpretation of \<open>ranked_system\<close>), the
    watcher of the terminal, and the supervisor over a schedule of what becomes ready.
  \<^item> \<open>Program\<close>: telemetry, \<open>run\<close> and \<open>main\<close>, which compose all of it into one
    ordered list of effects: what is printed, the telemetry installed, the tasks started, the
    deadline and the controls of the supervisor, and the end of the telemetry.
  \<^item> \<open>OperationLifecycle\<close>: the routes and the running worker of one started process over
    one journal, from a message to the answer of the status route.
  \<^item> \<open>AppsScript\<close> (\<open>apps-script/src\<close>): the web app the client calls, on the JSON values
    of JavaScript with undefined as None: its string helpers (\<open>01_Utils.gs\<close>), the policy
    table, \<open>handleHttpRequest_\<close>, \<open>dispatchAction_\<close>, \<open>doPost\<close> and \<open>rpc\<close>
    (\<open>02_WebApp.gs\<close>), and \<open>publishVideo_\<close> and \<open>createPlaylist_\<close> with their
    calls and audit records (\<open>05_YouTubeService.gs\<close>). Lemmas: the comparison in constant
    time is equality, what a publication asks, and which property of the script changes what.
  \<^item> \<open>Publication\<close>: the client composed with the web app, the body it posts parsed again.
    The two trim different characters; the lemmas show that what they both accept is the same.
  \<^item> \<open>Settings\<close>: the contract \<open>.cli-flags.toml\<close> as the table it denotes, the names
    and defaults it declares, and what \<open>main\<close> reads of them.
  \<^item> \<open>WebApiPlane\<close> (\<open>web_api_plane.rs\<close>): the binding to the shared data-plane crate,
    which is a record of parameters.
  \<^item> \<open>UnitTests\<close>: the repository's own tests as propositions over the model, with the
    lemmas that they pass.

  \<^bold>\<open>How code is represented.\<close> A struct is a record, an enum a datatype, a fallible
  function returns a sum with the error on the left; \<open>u8\<close> to \<open>u64\<close> are words where
  they are computed with, and naturals where they only hold a bound that is checked. An async
  function is a function of what the environment answers at its await points; where tasks
  interleave there is a step relation. A function that acts on the outside returns the list of
  its calls. Log lines are left out, except those of the supervisor and the event subscriber.

  \<^bold>\<open>Parameters.\<close> serde_json, HMAC and SHA-256, the URL and address parsers,
  flags-2-env, the TOML parser, Google's services, the case tables of Unicode beyond ASCII and
  JavaScript's rendering of numbers and dates, the introspection client, the HTTP client, rustls and the PEM
  reader, the subscriber registry, sockets and brokers are arguments. Where a property needs
  something of them it is a hypothesis: a header value keeps its text
  (\<open>header_faithful\<close>), a web app does not look at the key (\<open>key_blind\<close>), a digest has
  32 bytes. One point of the SQL engine is a parameter too, whether the constraints of a row
  proposed by an upsert are checked before the conflict is looked for, as PostgreSQL does
  (\<open>ChecksFirst\<close>), or not (\<open>ConflictFirst\<close>). The program is built for PostgreSQL
  only; the other order shows what the statements would do but for that defect, and gives
  witnesses in which an operation is completed. The crate behind
  \<open>web_api_plane.rs\<close> is not in the repository and is a record of its functions.

  \<^bold>\<open>What is shown.\<close> For the durable path: the tables agree after any calls and
  faults; claims and completions refine the abstract journal; entries only move forward; a
  payload is processed at most once; what is published is what is recorded, and only then is a
  message acknowledged; an entry belongs to an attested request, its result is the reply to
  that very request, and a result is the configured client's status. On an engine that checks constraints
  first no completion succeeds, because the completing upsert names no subject; a claim whose
  handler is gone is never finished; and a redelivery after the acknowledgement wait is
  terminated. The running worker, restarts included, keeps at most 32 handlers and hands every
  message it has pulled to one as soon as one of them ends; what a caller is then told about an
  operation is the state of an attested request of the caller's own, completed only with the
  reply to it, and stays told. For the
  synchronous paths: results on a connection answer an introspected bearer of the envelope's own
  subject; the running listener keeps at most 128 connections, and each behaves as it does
  alone; protected routes refuse without effect; the upstream calls of actions are bracketed by
  their events, and the open health route makes the only others;
  an operation's status is its owner's only; request ids are unique. For the web app: what is
  sent, when an upload or publication passes, which answers count, and that the API key goes
  nowhere else. For client and web app together: they agree on which actions mutate, a handler
  runs exactly under the client's key, and a publication beyond private takes both switches,
  while one scheduled for later takes neither. For the process: accepted configurations are well formed and start only closed
  services; nothing starts before the command line, the configuration and the log filter are
  accepted and the telemetry is installed; the settings its effects depend on are the declared
  ones, with the defaults they announce; the shutdown takes at most two actions, in
  order, and the program returns by its deadline. The repository's unit tests pass.

  \<^bold>\<open>Bounds and recursion.\<close> All recursions are structural, on the input or on the
  list of what the environment does next. The stages of a handler are run with the number
  seven, their largest rank, which \<open>handler_runs_stages\<close> shows to be enough. The
  supervisor returns None when its schedule ends while it waits; \<open>program_returns\<close> shows
  that a trigger followed by the deadline is enough for a result. Request ids are unique for
  \<open>2 ^ 64\<close> consecutive requests, the period of the counter.

  \<^bold>\<open>Not modelled.\<close> Path matching, body extraction and the body limit of the router, which are
  axum's; the fields of the telemetry logger's records; connection counts and
  elapsed times in the supervisor's logs; the signal handling of other systems than unix; the
  tests of strict JSON decoding and of the text of the SQL statements, and the sockets of the
  supervisor's tests; the images and the scripts. Of the Apps Script project the handlers other
  than the two publishing ones (an argument of its model), GET requests, the capture of a first
  channel id, the details of its errors, and the dashboard.
\<close>

end
